(* ===== verification/Text.thy ===== *)
theory Text
  imports Prelude
begin

text \<open>
  The rest of the standard library's text operations: \<^verbatim>\<open>trim\<close> and its relatives (Unicode white
  space in its UTF-8 encoding), the parsing and printing of decimal integers, and UTF-8 itself
  (\<^verbatim>\<open>from_utf8\<close>, \<^verbatim>\<open>from_utf8_lossy\<close>, \<^verbatim>\<open>chars\<close>, \<^verbatim>\<open>char_indices\<close>).
\<close>

section \<open>White space\<close>

text \<open>The encodings of the code points with Unicode's \<^verbatim>\<open>White_Space\<close> property.\<close>

definition ws_seqs :: "string list" where
  "ws_seqs =
     [[CHR 0x20], [CHR 0x09], [CHR 0x0A], [CHR 0x0B], [CHR 0x0C], [CHR 0x0D],
      [CHR 0xC2, CHR 0x85], [CHR 0xC2, CHR 0xA0], [CHR 0xE1, CHR 0x9A, CHR 0x80],
      [CHR 0xE2, CHR 0x80, CHR 0x80], [CHR 0xE2, CHR 0x80, CHR 0x81],
      [CHR 0xE2, CHR 0x80, CHR 0x82], [CHR 0xE2, CHR 0x80, CHR 0x83],
      [CHR 0xE2, CHR 0x80, CHR 0x84], [CHR 0xE2, CHR 0x80, CHR 0x85],
      [CHR 0xE2, CHR 0x80, CHR 0x86], [CHR 0xE2, CHR 0x80, CHR 0x87],
      [CHR 0xE2, CHR 0x80, CHR 0x88], [CHR 0xE2, CHR 0x80, CHR 0x89],
      [CHR 0xE2, CHR 0x80, CHR 0x8A], [CHR 0xE2, CHR 0x80, CHR 0xA8],
      [CHR 0xE2, CHR 0x80, CHR 0xA9], [CHR 0xE2, CHR 0x80, CHR 0xAF],
      [CHR 0xE2, CHR 0x81, CHR 0x9F], [CHR 0xE3, CHR 0x80, CHR 0x80]]"

lemma Nil_notin_ws_seqs: "[] \<notin> set ws_seqs"
  by (simp add: ws_seqs_def)

function trim_start :: "string \<Rightarrow> string" where
  "trim_start s =
     (case find (\<lambda>w. prefix w s) ws_seqs of
        None \<Rightarrow> s
      | Some w \<Rightarrow> trim_start (drop (length w) s))"
  by pat_completeness auto
termination
proof (relation "measure length")
  fix s w
  assume "find (\<lambda>w. prefix w s) ws_seqs = Some w"
  then have "w \<in> set ws_seqs" "prefix w s"
    by (auto simp: find_Some_iff)
  then have "w \<noteq> []" "length w \<le> length s"
    using Nil_notin_ws_seqs by (auto simp: prefix_length_le)
  then show "(drop (length w) s, s) \<in> measure length" by (cases w) auto
qed simp

function trim_end :: "string \<Rightarrow> string" where
  "trim_end s =
     (case find (\<lambda>w. suffix w s) ws_seqs of
        None \<Rightarrow> s
      | Some w \<Rightarrow> trim_end (take (length s - length w) s))"
  by pat_completeness auto
termination
proof (relation "measure length")
  fix s w
  assume "find (\<lambda>w. suffix w s) ws_seqs = Some w"
  then have "w \<in> set ws_seqs" "suffix w s"
    by (auto simp: find_Some_iff)
  then have "w \<noteq> []" "length w \<le> length s"
    using Nil_notin_ws_seqs by (auto simp: suffix_length_le)
  then show "(take (length s - length w) s, s) \<in> measure length" by (cases w) auto
qed simp

declare trim_start.simps [simp del] trim_end.simps [simp del]

definition trim :: "string \<Rightarrow> string" where
  "trim s = trim_end (trim_start s)"

definition blank :: "string \<Rightarrow> bool" where
  "blank s \<longleftrightarrow> trim s = []"

text \<open>Nothing to strip on either side.\<close>

definition trimmed :: "string \<Rightarrow> bool" where
  "trimmed s \<longleftrightarrow> (\<forall>w \<in> set ws_seqs. \<not> prefix w s \<and> \<not> suffix w s)"

lemma trim_start_suffix: "suffix (trim_start s) s"
proof (induction s rule: trim_start.induct)
  case (1 s)
  show ?case
  proof (cases "find (\<lambda>w. prefix w s) ws_seqs")
    case None
    then show ?thesis by (simp add: trim_start.simps [of s])
  next
    case (Some w)
    with 1 have "suffix (trim_start (drop (length w) s)) (drop (length w) s)" by simp
    with Some show ?thesis
      by (simp add: trim_start.simps [of s]) (meson suffix_drop suffix_order.trans)
  qed
qed

lemma trim_end_prefix: "prefix (trim_end s) s"
proof (induction s rule: trim_end.induct)
  case (1 s)
  show ?case
  proof (cases "find (\<lambda>w. suffix w s) ws_seqs")
    case None
    then show ?thesis by (simp add: trim_end.simps [of s])
  next
    case (Some w)
    with 1 have "prefix (trim_end (take (length s - length w) s)) (take (length s - length w) s)"
      by simp
    with Some show ?thesis
      by (simp add: trim_end.simps [of s]) (meson take_is_prefix prefix_order.trans)
  qed
qed

lemma trim_sublist: "sublist (trim s) s"
  unfolding trim_def
  by (meson prefix_imp_sublist sublist_order.order_trans suffix_imp_sublist trim_end_prefix
      trim_start_suffix)

lemma length_trim_le: "length (trim s) \<le> length s"
  by (rule sublist_length_le [OF trim_sublist])

lemma set_trim_subset: "set (trim s) \<subseteq> set s"
  by (rule set_mono_sublist [OF trim_sublist])

lemma trim_start_no_prefix: "w \<in> set ws_seqs \<Longrightarrow> \<not> prefix w (trim_start s)"
proof (induction s rule: trim_start.induct)
  case (1 s)
  show ?case
  proof (cases "find (\<lambda>w. prefix w s) ws_seqs")
    case None
    then have "trim_start s = s" by (simp add: trim_start.simps [of s])
    with None 1 show ?thesis by (simp add: find_None_iff)
  next
    case (Some v)
    with 1 show ?thesis by (simp add: trim_start.simps [of s])
  qed
qed

lemma trim_end_no_suffix: "w \<in> set ws_seqs \<Longrightarrow> \<not> suffix w (trim_end s)"
proof (induction s rule: trim_end.induct)
  case (1 s)
  show ?case
  proof (cases "find (\<lambda>w. suffix w s) ws_seqs")
    case None
    then have "trim_end s = s" by (simp add: trim_end.simps [of s])
    with None 1 show ?thesis by (simp add: find_None_iff)
  next
    case (Some v)
    with 1 show ?thesis by (simp add: trim_end.simps [of s])
  qed
qed

lemma trimmed_trim: "trimmed (trim s)"
  unfolding trimmed_def trim_def
  by (meson prefix_order.trans trim_end_no_suffix trim_end_prefix trim_start_no_prefix)

lemma trim_start_trimmed: "trimmed s \<Longrightarrow> trim_start s = s"
  by (subst trim_start.simps)
    (auto simp: trimmed_def find_None_iff [symmetric] split: option.splits dest!: find_Some_iff [THEN iffD1])

lemma trim_end_trimmed: "trimmed s \<Longrightarrow> trim_end s = s"
  by (subst trim_end.simps)
    (auto simp: trimmed_def find_None_iff [symmetric] split: option.splits dest!: find_Some_iff [THEN iffD1])

lemma trim_trimmed: "trimmed s \<Longrightarrow> trim s = s"
  by (simp add: trim_def trim_start_trimmed trim_end_trimmed)

lemma trim_idem [simp]: "trim (trim s) = trim s"
  by (rule trim_trimmed [OF trimmed_trim])

text \<open>A text that starts and ends with a visible ASCII character has nothing to strip.\<close>

definition plain_char :: "char \<Rightarrow> bool" where
  "plain_char c \<longleftrightarrow> 32 < bval c \<and> bval c < 128"

lemma trim_plain: "plain_char (hd s) \<Longrightarrow> plain_char (last s) \<Longrightarrow> s \<noteq> [] \<Longrightarrow> trim s = s"
proof -
  assume hd: "plain_char (hd s)" and last: "plain_char (last s)" and s: "s \<noteq> []"
  have ws: "\<not> plain_char (hd w) \<and> \<not> plain_char (last w)" if "w \<in> set ws_seqs" for w
    using that by (auto simp: ws_seqs_def plain_char_def bval_def)
  have "\<not> prefix w s \<and> \<not> suffix w s" if w: "w \<in> set ws_seqs" for w
  proof
    have n: "w \<noteq> []" using w Nil_notin_ws_seqs by blast
    show "\<not> prefix w s" using ws [OF w] hd n by (auto simp: prefix_def)
    show "\<not> suffix w s" using ws [OF w] last n by (auto simp: suffix_def)
  qed
  then show ?thesis by (intro trim_trimmed) (auto simp: trimmed_def)
qed

lemma trim_Nil [simp]: "trim [] = []"
  by (simp add: trim_trimmed trimmed_def ws_seqs_def)

lemma blank_trim [simp]: "blank (trim s) \<longleftrightarrow> blank s"
  by (simp add: blank_def)

lemma blank_Nil [simp]: "blank []"
  by (simp add: blank_def)

lemma not_blankD: "\<not> blank s \<Longrightarrow> s \<noteq> [] \<and> trim s \<noteq> []"
  by (auto simp: blank_def)

text \<open>\<^verbatim>\<open>trim_end_matches(c)\<close>, \<^verbatim>\<open>trim_start_matches(c)\<close> and \<^verbatim>\<open>trim_matches(c)\<close> for one byte.\<close>

definition trim_end_char :: "char \<Rightarrow> string \<Rightarrow> string" where
  "trim_end_char c s = rev (dropWhile (\<lambda>x. x = c) (rev s))"

definition trim_start_char :: "char \<Rightarrow> string \<Rightarrow> string" where
  "trim_start_char c s = dropWhile (\<lambda>x. x = c) s"

definition trim_char :: "char \<Rightarrow> string \<Rightarrow> string" where
  "trim_char c s = trim_end_char c (trim_start_char c s)"

lemma trim_end_char_last: "trim_end_char c s \<noteq> [] \<Longrightarrow> last (trim_end_char c s) \<noteq> c"
  by (metis (mono_tags) dropWhile_eq_Nil_conv hd_dropWhile last_rev rev.simps(1) rev_is_Nil_conv
      trim_end_char_def)

lemma trim_start_char_hd: "trim_start_char c s \<noteq> [] \<Longrightarrow> hd (trim_start_char c s) \<noteq> c"
  by (metis (mono_tags) dropWhile_eq_Nil_conv hd_dropWhile trim_start_char_def)

section \<open>Decimal integers\<close>

definition is_digit :: "char \<Rightarrow> bool" where
  "is_digit c \<longleftrightarrow> 48 \<le> bval c \<and> bval c \<le> 57"

definition digit_value :: "char \<Rightarrow> nat" where
  "digit_value c = bval c - 48"

definition digits_value :: "string \<Rightarrow> nat" where
  "digits_value s = foldl (\<lambda>n c. 10 * n + digit_value c) 0 s"

text \<open>
  \<^verbatim>\<open>str::parse\<close> for an unsigned type whose largest value is the first argument: an optional
  plus sign, then at least one digit; a value that does not fit is an error.
\<close>

definition parse_unsigned :: "nat \<Rightarrow> string \<Rightarrow> nat option" where
  "parse_unsigned max_value s =
     (let ds = (if s \<noteq> [] \<and> hd s = CHR ''+'' then tl s else s)
      in if ds = [] \<or> \<not> list_all is_digit ds then None
         else if digits_value ds \<le> max_value then Some (digits_value ds) else None)"

definition u8_max :: nat where "u8_max = 255"
definition u16_max :: nat where "u16_max = 65535"
definition u64_max :: nat where "u64_max = 18446744073709551615"

lemma parse_unsigned_bound: "parse_unsigned m s = Some n \<Longrightarrow> n \<le> m"
  by (auto simp: parse_unsigned_def Let_def split: if_splits)

lemma parse_unsigned_Nil [simp]: "parse_unsigned m [] = None"
  by (simp add: parse_unsigned_def)

fun show_nat :: "nat \<Rightarrow> string" where
  "show_nat n = (if n < 10 then [char_of (48 + n)] else show_nat (n div 10) @ [char_of (48 + n mod 10)])"

declare show_nat.simps [simp del]

definition show_int :: "int \<Rightarrow> string" where
  "show_int i = (if i < 0 then CHR ''-'' # show_nat (nat (- i)) else show_nat (nat i))"

text \<open>\<^verbatim>\<open>{:0w}\<close>: zero padding on the left.\<close>

definition pad_zero :: "nat \<Rightarrow> string \<Rightarrow> string" where
  "pad_zero w s = replicate (w - length s) CHR ''0'' @ s"

lemma bval_char_of: "n < 256 \<Longrightarrow> bval (char_of n) = n"
  by (simp add: bval_def)

lemma show_nat_digits: "list_all is_digit (show_nat n)"
proof (induction n rule: show_nat.induct)
  case (1 n)
  have "is_digit (char_of (48 + k))" if "k < 10" for k :: nat
    using that by (simp add: is_digit_def bval_char_of)
  with 1 show ?case by (subst show_nat.simps) auto
qed

lemma show_nat_not_Nil [simp]: "show_nat n \<noteq> []"
  by (subst show_nat.simps) simp

lemma digits_value_snoc: "digits_value (s @ [c]) = 10 * digits_value s + digit_value c"
  by (simp add: digits_value_def)

lemma digits_value_show_nat: "digits_value (show_nat n) = n"
proof (induction n rule: show_nat.induct)
  case (1 n)
  show ?case
  proof (cases "n < 10")
    case True
    then show ?thesis
      by (subst show_nat.simps) (simp add: digits_value_def digit_value_def bval_char_of)
  next
    case False
    with 1 show ?thesis
      by (subst show_nat.simps) (simp add: digits_value_snoc digit_value_def bval_char_of)
  qed
qed

text \<open>Printing and parsing an unsigned integer round-trips within the type's range.\<close>

lemma parse_show_nat: "n \<le> m \<Longrightarrow> parse_unsigned m (show_nat n) = Some n"
proof -
  assume "n \<le> m"
  have "hd (show_nat n) \<noteq> CHR ''+''"
    using show_nat_digits [of n]
    by (cases "show_nat n") (auto simp: is_digit_def bval_def)
  with \<open>n \<le> m\<close> show ?thesis
    by (simp add: parse_unsigned_def Let_def show_nat_digits digits_value_show_nat)
qed

lemma show_nat_inject: "show_nat a = show_nat b \<longleftrightarrow> a = b"
  by (metis digits_value_show_nat)

section \<open>UTF-8\<close>

definition cont_byte :: "nat \<Rightarrow> bool" where
  "cont_byte b \<longleftrightarrow> 128 \<le> b \<and> b < 192"

text \<open>
  The length of the encoding its first byte announces (0 for a byte that starts none), and the
  range the second byte must be in (Unicode's table of well-formed sequences).
\<close>

definition utf8_width :: "nat \<Rightarrow> nat" where
  "utf8_width b =
     (if b < 128 then 1 else if 194 \<le> b \<and> b \<le> 223 then 2
      else if 224 \<le> b \<and> b \<le> 239 then 3 else if 240 \<le> b \<and> b \<le> 244 then 4 else 0)"

definition utf8_second :: "nat \<Rightarrow> nat \<Rightarrow> bool" where
  "utf8_second b0 b \<longleftrightarrow>
     (if b0 = 224 then 160 \<le> b \<and> b < 192
      else if b0 = 237 then 128 \<le> b \<and> b < 160
      else if b0 = 240 then 144 \<le> b \<and> b < 192
      else if b0 = 244 then 128 \<le> b \<and> b < 144
      else cont_byte b)"

text \<open>How many bytes from the start belong to one, maybe cut, well-formed sequence.\<close>

definition utf8_take :: "string \<Rightarrow> nat" where
  "utf8_take s =
     (case map bval s of
        [] \<Rightarrow> 0
      | b0 # bs \<Rightarrow>
          (let w = utf8_width b0 in
           if w \<le> 1 then 1
           else (case bs of
               [] \<Rightarrow> 1
             | b1 # bs' \<Rightarrow>
                 if \<not> utf8_second b0 b1 then 1
                 else 2 + length (takeWhile cont_byte (take (w - 2) bs')))))"

definition utf8_head_ok :: "string \<Rightarrow> bool" where
  "utf8_head_ok s \<longleftrightarrow> s \<noteq> [] \<and> utf8_width (bval (hd s)) \<noteq> 0 \<and> utf8_take s = utf8_width (bval (hd s))"

lemma utf8_take_pos: "s \<noteq> [] \<Longrightarrow> 0 < utf8_take s"
  by (cases s) (auto simp: utf8_take_def Let_def split: list.splits)

text \<open>The replacement character U+FFFD.\<close>

definition utf8_replacement :: string where
  "utf8_replacement = [CHR 0xEF, CHR 0xBF, CHR 0xBD]"

text \<open>\<^verbatim>\<open>String::from_utf8_lossy\<close>: each maximal ill-formed part becomes one U+FFFD.\<close>

function utf8_lossy :: "string \<Rightarrow> string" where
  "utf8_lossy s =
     (if s = [] then []
      else (if utf8_head_ok s then take (utf8_take s) s else utf8_replacement)
           @ utf8_lossy (drop (utf8_take s) s))"
  by pat_completeness auto
termination
  by (relation "measure length") (auto simp: utf8_take_pos)

function utf8_valid :: "string \<Rightarrow> bool" where
  "utf8_valid s = (if s = [] then True else utf8_head_ok s \<and> utf8_valid (drop (utf8_take s) s))"
  by pat_completeness auto
termination
  by (relation "measure length") (auto simp: utf8_take_pos)

declare utf8_lossy.simps [simp del] utf8_valid.simps [simp del]

lemma utf8_lossy_valid: "utf8_valid s \<Longrightarrow> utf8_lossy s = s"
proof (induction s rule: utf8_lossy.induct)
  case (1 s)
  then show ?case
    by (cases "s = []") (simp_all add: utf8_lossy.simps [of s] utf8_lossy.simps [of "[]"]
        utf8_valid.simps [of s])
qed

lemma utf8_lossy_Nil [simp]: "utf8_lossy [] = []"
  by (simp add: utf8_lossy.simps)

text \<open>A byte that starts a character; \<^verbatim>\<open>char_indices\<close> visits exactly these positions.\<close>

definition is_char_start :: "char \<Rightarrow> bool" where
  "is_char_start c \<longleftrightarrow> \<not> cont_byte (bval c)"

text \<open>The code point of a well-formed sequence.\<close>

definition code_point :: "string \<Rightarrow> nat" where
  "code_point s =
     (case map bval s of
        [b0] \<Rightarrow> b0
      | [b0, b1] \<Rightarrow> (b0 - 192) * 64 + (b1 - 128)
      | [b0, b1, b2] \<Rightarrow> (b0 - 224) * 4096 + (b1 - 128) * 64 + (b2 - 128)
      | [b0, b1, b2, b3] \<Rightarrow> (b0 - 240) * 262144 + (b1 - 128) * 4096 + (b2 - 128) * 64 + (b3 - 128)
      | _ \<Rightarrow> 0)"

text \<open>\<^verbatim>\<open>chars()\<close> as code points.\<close>

function utf8_chars :: "string \<Rightarrow> nat list" where
  "utf8_chars s =
     (if s = [] then [] else code_point (take (utf8_take s) s) # utf8_chars (drop (utf8_take s) s))"
  by pat_completeness auto
termination
  by (relation "measure length") (auto simp: utf8_take_pos)

declare utf8_chars.simps [simp del]

end
