(* ===== verification/Json.thy ===== *)
theory Json
  imports Text
begin

text \<open>
  The JSON values the proxy works on (\<^verbatim>\<open>serde_json::Value\<close>) and the operations of
  \<^verbatim>\<open>serde_json::Map\<close> it calls. The crate is built with the \<^verbatim>\<open>preserve_order\<close> feature
  (\<^verbatim>\<open>Cargo.toml\<close>), so an object is its entries in insertion order; \<^verbatim>\<open>insert\<close> replaces in
  place or appends, and \<^verbatim>\<open>remove\<close> is documented as \<^verbatim>\<open>swap_remove\<close>: the last entry takes
  the place of the removed one. Reading and printing JSON text is the library's and stays a
  parameter (\<open>serde\<close>).
\<close>

datatype number = Integer int | Float string

datatype json =
    JNull
  | JBool bool
  | JNumber number
  | JString string
  | JArray "json list"
  | JObject "(string \<times> json) list"

type_synonym jobject = "(string \<times> json) list"

text \<open>\<^verbatim>\<open>from_slice\<close>, \<^verbatim>\<open>to_vec\<close> and \<^verbatim>\<open>to_string_pretty\<close>; an error is its message.\<close>

record serde =
  from_slice :: "string \<Rightarrow> (string, json) result"
  to_vec :: "json \<Rightarrow> (string, string) result"
  to_string_pretty :: "json \<Rightarrow> (string, string) result"

section \<open>Induction and well-formedness\<close>

lemma json_induct [case_names JNull JBool JNumber JString JArray JObject]:
  assumes "P JNull" "\<And>b. P (JBool b)" "\<And>n. P (JNumber n)" "\<And>s. P (JString s)"
    and "\<And>xs. (\<And>x. x \<in> set xs \<Longrightarrow> P x) \<Longrightarrow> P (JArray xs)"
    and "\<And>m. (\<And>k v. (k, v) \<in> set m \<Longrightarrow> P v) \<Longrightarrow> P (JObject m)"
  shows "P j"
proof (induction j)
  case (JObject m)
  then show ?case using assms(6) by (metis snds.intros snd_conv)
qed (use assms in auto)

text \<open>
  No object holds a key twice, which \<^verbatim>\<open>Map\<close> guarantees, and an array's length is a \<^verbatim>\<open>usize\<close>.
\<close>

fun json_wf :: "json \<Rightarrow> bool"
and fields_wf :: "jobject \<Rightarrow> bool"
and items_wf :: "json list \<Rightarrow> bool" where
  "json_wf (JObject m) \<longleftrightarrow> distinct (map fst m) \<and> fields_wf m"
| "json_wf (JArray xs) \<longleftrightarrow> length xs \<le> u64_max \<and> items_wf xs"
| "json_wf _ \<longleftrightarrow> True"
| "fields_wf [] \<longleftrightarrow> True"
| "fields_wf ((k, v) # m) \<longleftrightarrow> json_wf v \<and> fields_wf m"
| "items_wf [] \<longleftrightarrow> True"
| "items_wf (x # xs) \<longleftrightarrow> json_wf x \<and> items_wf xs"

lemma fields_wf_iff: "fields_wf m \<longleftrightarrow> (\<forall>(k, v) \<in> set m. json_wf v)"
  by (induction m) auto

lemma items_wf_iff: "items_wf xs \<longleftrightarrow> (\<forall>x \<in> set xs. json_wf x)"
  by (induction xs) auto

section \<open>Objects\<close>

abbreviation obj_get :: "jobject \<Rightarrow> string \<Rightarrow> json option" where
  "obj_get m k \<equiv> map_of m k"

definition obj_has :: "jobject \<Rightarrow> string \<Rightarrow> bool" where
  "obj_has m k \<longleftrightarrow> map_of m k \<noteq> None"

fun obj_insert :: "string \<Rightarrow> json \<Rightarrow> jobject \<Rightarrow> jobject" where
  "obj_insert k v [] = [(k, v)]"
| "obj_insert k v ((k', v') # m) =
     (if k' = k then (k', v) # m else (k', v') # obj_insert k v m)"

text \<open>\<^verbatim>\<open>swap_remove\<close>.\<close>

fun obj_remove :: "string \<Rightarrow> jobject \<Rightarrow> jobject" where
  "obj_remove k [] = []"
| "obj_remove k ((k', v') # m) =
     (if k' = k then (if m = [] then [] else last m # butlast m)
      else (k', v') # obj_remove k m)"

text \<open>\<^verbatim>\<open>entry(k).or_insert_with(f)\<close>.\<close>

definition obj_or_insert :: "string \<Rightarrow> json \<Rightarrow> jobject \<Rightarrow> jobject" where
  "obj_or_insert k v m = (if obj_has m k then m else obj_insert k v m)"

lemma obj_get_insert [simp]: "obj_get (obj_insert k v m) k' = (if k' = k then Some v else obj_get m k')"
  by (induction m) auto

lemma map_fst_obj_insert:
  "map fst (obj_insert k v m) = (if k \<in> fst ` set m then map fst m else map fst m @ [k])"
proof (induction m)
  case (Cons e m)
  then show ?case by (cases e) simp
qed simp

lemma keys_obj_insert: "fst ` set (obj_insert k v m) = insert k (fst ` set m)"
proof -
  have "set (map fst (obj_insert k v m)) = insert k (fst ` set m)"
    by (simp add: map_fst_obj_insert insert_absorb)
  then show ?thesis by simp
qed

lemma distinct_obj_insert: "distinct (map fst m) \<Longrightarrow> distinct (map fst (obj_insert k v m))"
  by (simp only: map_fst_obj_insert) auto

lemma set_obj_insert: "set (obj_insert k v m) \<subseteq> insert (k, v) (set m)"
  by (induction m) (auto split: if_splits)

lemma set_last_butlast: "m \<noteq> [] \<Longrightarrow> set (last m # butlast m) = set m"
  by (metis append_butlast_last_id list.set(2) rotate1.simps(2) set_rotate1)

lemma distinct_last_butlast:
  "m \<noteq> [] \<Longrightarrow> distinct (map fst m) \<Longrightarrow> distinct (map fst (last m # butlast m))"
proof -
  assume "m \<noteq> []" "distinct (map fst m)"
  then have "distinct (map fst (butlast m @ [last m]))" by simp
  then show ?thesis by simp
qed

lemma set_obj_remove:
  "distinct (map fst m) \<Longrightarrow> set (obj_remove k m) = {e \<in> set m. fst e \<noteq> k}"
proof (induction m)
  case (Cons e m)
  obtain k' v' where e: "e = (k', v')" by (cases e)
  show ?case
  proof (cases "k' = k")
    case True
    have "fst x \<noteq> k" if "x \<in> set m" for x
      using Cons.prems e True imageI [OF that, of fst] by auto
    then have "{e \<in> set m. fst e \<noteq> k} = set m" by blast
    moreover have "set (obj_remove k (e # m)) = set m"
      using True e set_last_butlast [of m] by (cases "m = []") (simp_all del: set_simps)
    moreover have "{x \<in> set (e # m). fst x \<noteq> k} = {x \<in> set m. fst x \<noteq> k}"
      using True e by auto
    ultimately show ?thesis by simp
  next
    case False
    then have "{x \<in> set (e # m). fst x \<noteq> k} = insert e {x \<in> set m. fst x \<noteq> k}"
      using e by auto
    with False Cons e show ?thesis by simp
  qed
qed simp

lemma distinct_obj_remove: "distinct (map fst m) \<Longrightarrow> distinct (map fst (obj_remove k m))"
proof (induction m)
  case (Cons e m)
  obtain k' v' where e: "e = (k', v')" by (cases e)
  show ?case
  proof (cases "k' = k")
    case True
    then show ?thesis
      using Cons.prems e distinct_last_butlast [of m] by auto
  next
    case False
    have "set (obj_remove k m) \<subseteq> set m"
      using Cons.prems e set_obj_remove [of m k] by auto
    with False show ?thesis
      using Cons e by auto
  qed
qed simp

lemma obj_get_remove:
  "distinct (map fst m) \<Longrightarrow> obj_get (obj_remove k m) k' = (if k' = k then None else obj_get m k')"
proof -
  assume d: "distinct (map fst m)"
  have d': "distinct (map fst (obj_remove k m))"
    by (rule distinct_obj_remove [OF d])
  show ?thesis
  proof (cases "k' = k")
    case True
    have "k \<notin> fst ` set (obj_remove k m)"
      by (auto simp: set_obj_remove [OF d])
    with True show ?thesis by (simp add: map_of_eq_None_iff)
  next
    case False
    have "(k', v) \<in> set (obj_remove k m) \<longleftrightarrow> (k', v) \<in> set m" for v
      using False by (auto simp: set_obj_remove [OF d])
    then have "obj_get (obj_remove k m) k' = Some v \<longleftrightarrow> obj_get m k' = Some v" for v
      using d d' by (simp add: map_of_eq_Some_iff)
    with False show ?thesis
      by (metis not_None_eq option.exhaust)
  qed
qed

lemma obj_remove_absent: "k \<notin> fst ` set m \<Longrightarrow> obj_remove k m = m"
  by (induction m) auto

lemma fields_wf_insert: "fields_wf m \<Longrightarrow> json_wf v \<Longrightarrow> fields_wf (obj_insert k v m)"
  using set_obj_insert [of k v m] by (auto simp: fields_wf_iff)

lemma fields_wf_remove:
  "fields_wf m \<Longrightarrow> distinct (map fst m) \<Longrightarrow> fields_wf (obj_remove k m)"
  by (auto simp: fields_wf_iff set_obj_remove)

lemma json_wf_insert: "json_wf (JObject m) \<Longrightarrow> json_wf v \<Longrightarrow> json_wf (JObject (obj_insert k v m))"
  by (simp add: distinct_obj_insert fields_wf_insert)

lemma json_wf_remove: "json_wf (JObject m) \<Longrightarrow> json_wf (JObject (obj_remove k m))"
  by (simp add: distinct_obj_remove fields_wf_remove)

section \<open>Accessors\<close>

fun as_str :: "json \<Rightarrow> string option" where
  "as_str (JString s) = Some s"
| "as_str _ = None"

fun as_array :: "json \<Rightarrow> json list option" where
  "as_array (JArray xs) = Some xs"
| "as_array _ = None"

fun as_object :: "json \<Rightarrow> jobject option" where
  "as_object (JObject m) = Some m"
| "as_object _ = None"

fun as_i64 :: "json \<Rightarrow> int option" where
  "as_i64 (JNumber (Integer i)) = (if - (2 ^ 63) \<le> i \<and> i < 2 ^ 63 then Some i else None)"
| "as_i64 _ = None"

text \<open>\<^verbatim>\<open>Value::get(key)\<close>.\<close>

definition jget :: "string \<Rightarrow> json \<Rightarrow> json option" where
  "jget k v = Option.bind (as_object v) (\<lambda>m. obj_get m k)"

definition jget_str :: "string \<Rightarrow> json \<Rightarrow> string option" where
  "jget_str k v = Option.bind (jget k v) as_str"

text \<open>
  The fields of a struct with a derived \<^verbatim>\<open>Deserialize\<close>: those of an object by name (unknown members
  are ignored), or the elements of an array that has exactly as many as the struct has fields.
  A text that repeats a key of an object, which is an error for a struct, is outside this model.
\<close>

definition struct_field :: "string list \<Rightarrow> json \<Rightarrow> string \<Rightarrow> json option" where
  "struct_field names v k =
     (case v of
        JObject m \<Rightarrow> obj_get m k
      | JArray xs \<Rightarrow> (if length xs = length names then map_of (zip names xs) k else None)
      | _ \<Rightarrow> None)"

lemma struct_field_JObject [simp]: "struct_field names (JObject m) k = obj_get m k"
  by (simp add: struct_field_def)

lemma as_str_Some_iff: "as_str v = Some s \<longleftrightarrow> v = JString s"
  by (cases v) auto

lemma as_array_Some_iff: "as_array v = Some xs \<longleftrightarrow> v = JArray xs"
  by (cases v) auto

lemma as_object_Some_iff: "as_object v = Some m \<longleftrightarrow> v = JObject m"
  by (cases v) auto

lemma jget_JObject [simp]: "jget k (JObject m) = obj_get m k"
  by (simp add: jget_def)

lemma jget_other [simp]:
  "jget k JNull = None" "jget k (JBool b) = None" "jget k (JNumber n) = None"
  "jget k (JString s) = None" "jget k (JArray xs) = None"
  by (simp_all add: jget_def)

text \<open>
  \<^verbatim>\<open>Value::pointer\<close> for a pointer given by its reference tokens. A token selects an array
  element when it is a decimal index without a sign or a leading zero.
\<close>

definition parse_index :: "string \<Rightarrow> nat option" where
  "parse_index t =
     (if starts_with t ''+'' \<or> (starts_with t ''0'' \<and> length t \<noteq> 1) then None
      else parse_unsigned u64_max t)"

definition jstep :: "string \<Rightarrow> json \<Rightarrow> json option" where
  "jstep t v =
     (case v of
        JObject m \<Rightarrow> obj_get m t
      | JArray xs \<Rightarrow>
          (case parse_index t of
             Some i \<Rightarrow> (if i < length xs then Some (xs ! i) else None)
           | None \<Rightarrow> None)
      | _ \<Rightarrow> None)"

fun jpointer :: "string list \<Rightarrow> json \<Rightarrow> json option" where
  "jpointer [] v = Some v"
| "jpointer (t # ts) v = (case jstep t v of None \<Rightarrow> None | Some w \<Rightarrow> jpointer ts w)"

text \<open>Writing through \<^verbatim>\<open>pointer_mut\<close>: the value at the pointer, if there is one, is replaced.\<close>

fun jpointer_update :: "string list \<Rightarrow> (json \<Rightarrow> json) \<Rightarrow> json \<Rightarrow> json" where
  "jpointer_update [] f v = f v"
| "jpointer_update (t # ts) f (JObject m) =
     (case obj_get m t of
        None \<Rightarrow> JObject m
      | Some w \<Rightarrow> JObject (obj_insert t (jpointer_update ts f w) m))"
| "jpointer_update (t # ts) f (JArray xs) =
     (case parse_index t of
        Some i \<Rightarrow> (if i < length xs then JArray (xs[i := jpointer_update ts f (xs ! i)]) else JArray xs)
      | None \<Rightarrow> JArray xs)"
| "jpointer_update (t # ts) f v = v"

lemma jpointer_append:
  "jpointer (ts @ us) v = (case jpointer ts v of None \<Rightarrow> None | Some w \<Rightarrow> jpointer us w)"
  by (induction ts arbitrary: v) (auto split: option.splits)

lemma jpointer_update_missing: "jpointer ts v = None \<Longrightarrow> jpointer_update ts f v = v"
proof (induction ts arbitrary: v)
  case (Cons t ts)
  have ins: "obj_get m t = Some w \<Longrightarrow> obj_insert t w m = m" for m w
    by (induction m) (auto split: if_splits)
  show ?case
  proof (cases v)
    case (JObject m)
    with Cons show ?thesis by (auto simp: jstep_def ins split: option.splits)
  next
    case (JArray xs)
    with Cons show ?thesis by (auto simp: jstep_def split: option.splits if_splits)
  qed auto
qed simp

text \<open>Escaping of a token in the text of a pointer.\<close>

definition escape_json_pointer_token :: "string \<Rightarrow> string" where
  "escape_json_pointer_token t = replace_char (CHR ''/'') ''~1'' (replace_char (CHR ''~'') ''~0'' t)"

definition is_http_url :: "string \<Rightarrow> bool" where
  "is_http_url s \<longleftrightarrow> starts_with s ''http://'' \<or> starts_with s ''https://''"

section \<open>Values without the order of object keys\<close>

datatype uval =
    UNull
  | UBool bool
  | UNumber number
  | UString string
  | UArray "uval list"
  | UObject "string \<Rightarrow> uval option"

fun json_abs :: "json \<Rightarrow> uval"
and fields_abs :: "jobject \<Rightarrow> (string \<times> uval) list"
and items_abs :: "json list \<Rightarrow> uval list" where
  "json_abs JNull = UNull"
| "json_abs (JBool b) = UBool b"
| "json_abs (JNumber n) = UNumber n"
| "json_abs (JString s) = UString s"
| "json_abs (JArray xs) = UArray (items_abs xs)"
| "json_abs (JObject m) = UObject (map_of (fields_abs m))"
| "fields_abs [] = []"
| "fields_abs ((k, v) # m) = (k, json_abs v) # fields_abs m"
| "items_abs [] = []"
| "items_abs (x # xs) = json_abs x # items_abs xs"

lemma fields_abs_map: "fields_abs m = map (\<lambda>(k, v). (k, json_abs v)) m"
  by (induction m) auto

lemma items_abs_map: "items_abs xs = map json_abs xs"
  by (induction xs) auto

lemma map_of_fields_abs: "map_of (fields_abs m) k = map_option json_abs (map_of m k)"
  by (induction m) auto

end
