(* ===== verification/Http_Types.thy ===== *)
theory Http_Types
  imports Json
begin

text \<open>
  What the components share of HTTP: status codes (\<^verbatim>\<open>StatusCode\<close> is its \<^verbatim>\<open>u16\<close>), the errors a
  fallible operation carries (\<^verbatim>\<open>anyhow::Error\<close> and the concrete types the code downcasts to),
  and the interfaces of the crates the sources call but do not contain: \<^verbatim>\<open>url\<close> (\<open>url_api\<close>)
  and the \<^verbatim>\<open>Display\<close> texts of \<^verbatim>\<open>http\<close> and \<^verbatim>\<open>std::time\<close> (\<open>fmt_api\<close>). The definitions of the
  development take these as arguments.
\<close>

section \<open>Status codes\<close>

type_synonym status = nat

abbreviation "OK_200 \<equiv> (200 :: status)"
abbreviation "FOUND \<equiv> (302 :: status)"
abbreviation "BAD_REQUEST \<equiv> (400 :: status)"
abbreviation "UNAUTHORIZED \<equiv> (401 :: status)"
abbreviation "FORBIDDEN \<equiv> (403 :: status)"
abbreviation "NOT_FOUND \<equiv> (404 :: status)"
abbreviation "REQUEST_TIMEOUT \<equiv> (408 :: status)"
abbreviation "CONFLICT \<equiv> (409 :: status)"
abbreviation "PAYLOAD_TOO_LARGE \<equiv> (413 :: status)"
abbreviation "UNPROCESSABLE_ENTITY \<equiv> (422 :: status)"
abbreviation "TOO_EARLY \<equiv> (425 :: status)"
abbreviation "TOO_MANY_REQUESTS \<equiv> (429 :: status)"
abbreviation "UNAVAILABLE_FOR_LEGAL_REASONS \<equiv> (451 :: status)"
abbreviation "INTERNAL_SERVER_ERROR \<equiv> (500 :: status)"
abbreviation "BAD_GATEWAY \<equiv> (502 :: status)"
abbreviation "SERVICE_UNAVAILABLE \<equiv> (503 :: status)"
abbreviation "GATEWAY_TIMEOUT \<equiv> (504 :: status)"

definition is_success :: "status \<Rightarrow> bool" where
  "is_success s \<longleftrightarrow> 200 \<le> s \<and> s < 300"

section \<open>Interfaces of the libraries\<close>

text \<open>The crate \<^verbatim>\<open>url\<close>: \<open>'u\<close> is a parsed \<^verbatim>\<open>Url\<close>.\<close>

record 'u url_api =
  url_parse :: "string \<Rightarrow> (string, 'u) result"
  url_scheme :: "'u \<Rightarrow> string"
  url_host :: "'u \<Rightarrow> string option"
  url_path :: "'u \<Rightarrow> string"
  url_last_segment :: "'u \<Rightarrow> string option"
  url_set_path :: "string \<Rightarrow> 'u \<Rightarrow> 'u"
  url_set_query :: "string option \<Rightarrow> 'u \<Rightarrow> 'u"
  url_set_fragment :: "string option \<Rightarrow> 'u \<Rightarrow> 'u"
  url_text :: "'u \<Rightarrow> string"
  byte_serialize :: "string \<Rightarrow> string"
  form_parse :: "string \<Rightarrow> (string \<times> string) list"
  form_text :: "(string \<times> string) list \<Rightarrow> string"

text \<open>\<^verbatim>\<open>Url::parse(raw).ok()\<close> and \<^verbatim>\<open>host_str().unwrap_or_default()\<close>.\<close>

definition parse_ok :: "'u url_api \<Rightarrow> string \<Rightarrow> 'u option" where
  "parse_ok U raw = (case url_parse U raw of Err _ \<Rightarrow> None | Ok u \<Rightarrow> Some u)"

definition host_or_empty :: "'u url_api \<Rightarrow> 'u \<Rightarrow> string" where
  "host_or_empty U u = unwrap_or (url_host U u) []"

definition is_http_scheme :: "string \<Rightarrow> bool" where
  "is_http_scheme s \<longleftrightarrow> s = ''http'' \<or> s = ''https''"

lemma parse_ok_Some_iff: "parse_ok U raw = Some u \<longleftrightarrow> url_parse U raw = Ok u"
  by (cases "url_parse U raw") (auto simp: parse_ok_def)

text \<open>\<^verbatim>\<open>StatusCode\<close>'s and \<^verbatim>\<open>Duration\<close>'s texts.\<close>

record fmt_api =
  status_text :: "status \<Rightarrow> string"
  canonical_reason :: "status \<Rightarrow> string option"
  duration_text :: "nat \<Rightarrow> string"

section \<open>Errors\<close>

text \<open>What the code asks of a \<^verbatim>\<open>reqwest::Error\<close>: its predicates, text and source chain.\<close>

record reqwest_error =
  is_connect :: bool
  is_timeout :: bool
  is_body :: bool
  is_request :: bool
  is_decode :: bool
  error_text :: string
  error_sources :: "string list"

record structured_error =
  se_message :: string
  se_stage :: string
  se_kind :: string
  se_detail :: string

text \<open>
  \<^verbatim>\<open>anyhow::Error\<close>: one of the types the code downcasts to, or any other error, of which only
  the text matters. Durations are in milliseconds.
\<close>

datatype anyhow =
    Message string
  | ImageFetchStatusError status
  | BackgroundFetchWaitTimeoutError nat nat
  | ReqwestError reqwest_error
  | StructuredProxyError structured_error

type_synonym 'a fallible = "(anyhow, 'a) result"

section \<open>Building JSON\<close>

abbreviation jnat :: "nat \<Rightarrow> json" where
  "jnat n \<equiv> JNumber (Integer (int n))"

abbreviation jint :: "int \<Rightarrow> json" where
  "jint i \<equiv> JNumber (Integer i)"

text \<open>The body every error answer has: \<^verbatim>\<open>{"error": {"code", "message"}}\<close>.\<close>

definition error_json :: "nat \<Rightarrow> string \<Rightarrow> json" where
  "error_json code message =
     JObject [(''error'', JObject [(''code'', jnat code), (''message'', JString message)])]"

end
