(* ===== verification/Samples.thy ===== *)
theory Samples
  imports Http_Types
begin

text \<open>
  Concrete instances of the library interfaces, on which the witnesses of the development
  evaluate its definitions. They follow the documented behaviour of the crates on plain
  inputs: \<open>sample_url\<close> reads \<^verbatim>\<open>scheme://host/path?query#fragment\<close>, \<open>sample_serde\<close> reads the
  JSON values of a given table and prints with a given printer, \<open>sample_fmt\<close> prints status
  codes and durations.
\<close>

section \<open>URLs\<close>

record sample_u =
  su_scheme :: string
  su_host :: string
  su_path :: string
  su_query :: "string option"
  su_fragment :: "string option"

definition split_opt :: "char \<Rightarrow> string \<Rightarrow> string \<times> string option" where
  "split_opt c s = (case split_once c s of None \<Rightarrow> (s, None) | Some (a, b) \<Rightarrow> (a, Some b))"

definition sample_url_parse :: "string \<Rightarrow> (string, sample_u) result" where
  "sample_url_parse raw =
     (case split_once_str ''://'' raw of
        None \<Rightarrow> Err ''relative URL without a base''
      | Some (scheme, rest) \<Rightarrow>
          (let (rest, fragment) = split_opt (CHR ''#'') rest;
               (rest, query) = split_opt (CHR ''?'') rest;
               (host, path) = split_opt (CHR ''/'') rest
           in if host = [] then Err ''empty host''
              else Ok \<lparr>su_scheme = to_lower scheme, su_host = to_lower host,
                       su_path = CHR ''/'' # unwrap_or path [], su_query = query,
                       su_fragment = fragment\<rparr>))"

definition sample_url_text :: "sample_u \<Rightarrow> string" where
  "sample_url_text u =
     su_scheme u @ ''://'' @ su_host u @ su_path u
     @ (case su_query u of None \<Rightarrow> [] | Some q \<Rightarrow> CHR ''?'' # q)
     @ (case su_fragment u of None \<Rightarrow> [] | Some f \<Rightarrow> CHR ''#'' # f)"

definition hex_upper :: "nat \<Rightarrow> char" where
  "hex_upper n = (if n < 10 then char_of (48 + n) else char_of (55 + n))"

definition form_byte :: "char \<Rightarrow> string" where
  "form_byte c =
     (let b = bval c in
      if is_digit c \<or> (65 \<le> b \<and> b \<le> 90) \<or> (97 \<le> b \<and> b \<le> 122) \<or> c \<in> set ''*-._'' then [c]
      else if c = CHR '' '' then ''+''
      else [CHR ''%'', hex_upper (b div 16), hex_upper (b mod 16)])"

definition pair_of :: "string \<Rightarrow> string \<times> string" where
  "pair_of p = (case split_once (CHR ''='') p of None \<Rightarrow> (p, []) | Some kv \<Rightarrow> kv)"

definition sample_url :: "sample_u url_api" where
  "sample_url =
     \<lparr>url_parse = sample_url_parse, url_scheme = su_scheme, url_host = (\<lambda>u. Some (su_host u)),
      url_path = su_path,
      url_last_segment = (\<lambda>u. Some (last (split_on (CHR ''/'') (su_path u)))),
      url_set_path = (\<lambda>p. su_path_update (\<lambda>_. p)),
      url_set_query = (\<lambda>q. su_query_update (\<lambda>_. q)),
      url_set_fragment = (\<lambda>f. su_fragment_update (\<lambda>_. f)),
      url_text = sample_url_text,
      byte_serialize = (\<lambda>s. concat (map form_byte s)),
      form_parse = (\<lambda>s. map pair_of (filter (\<lambda>p. p \<noteq> []) (split_on (CHR ''&'') s))),
      form_text = (\<lambda>ps. join_with ''&'' (map (\<lambda>(k, v). k @ ''='' @ v) ps))\<rparr>"

section \<open>JSON texts and formats\<close>

text \<open>A reader that knows the listed texts, and a printer that marks the shape of a value.\<close>

fun sample_print :: "json \<Rightarrow> string"
and sample_fields :: "jobject \<Rightarrow> string"
and sample_items :: "json list \<Rightarrow> string" where
  "sample_print JNull = ''null''"
| "sample_print (JBool b) = (if b then ''true'' else ''false'')"
| "sample_print (JNumber (Integer i)) = show_int i"
| "sample_print (JNumber (Float s)) = s"
| "sample_print (JString s) = CHR 0x22 # s @ [CHR 0x22]"
| "sample_print (JArray xs) = ''['' @ sample_items xs @ '']''"
| "sample_print (JObject m) = ''{'' @ sample_fields m @ ''}''"
| "sample_fields [] = []"
| "sample_fields ((k, v) # m) =
     CHR 0x22 # k @ [CHR 0x22, CHR '':''] @ sample_print v
     @ (if m = [] then [] else '','' @ sample_fields m)"
| "sample_items [] = []"
| "sample_items (x # xs) = sample_print x @ (if xs = [] then [] else '','' @ sample_items xs)"

definition sample_serde :: "(string \<times> json) list \<Rightarrow> serde" where
  "sample_serde table =
     \<lparr>from_slice = (\<lambda>s. case map_of table s of None \<Rightarrow> Err ''expected value'' | Some v \<Rightarrow> Ok v),
      to_vec = (\<lambda>v. Ok (sample_print v)), to_string_pretty = (\<lambda>v. Ok (sample_print v))\<rparr>"

definition sample_fmt :: fmt_api where
  "sample_fmt =
     \<lparr>status_text = show_nat, canonical_reason = (\<lambda>s. if s = 200 then Some ''OK'' else None),
      duration_text = (\<lambda>ms. show_nat ms @ ''ms'')\<rparr>"

end
