(* ===== verification/Config.thy ===== *)
theory Config
  imports Messages Samples
begin

text \<open>
  \<^verbatim>\<open>src/config.rs\<close>: the configuration read from the environment. The environment is a map from
  names to texts, durations are milliseconds, \<^verbatim>\<open>Config\<close> is the record \<open>config\<close> with the
  fields of the struct in its order. \<open>from_env_map\<close> is \<^verbatim>\<open>Config::from_env_map\<close>; the lemmas
  state what an accepted configuration guarantees.
\<close>

type_synonym env = "string \<Rightarrow> string option"

section \<open>Parsing single values\<close>

definition parse_port :: "string \<Rightarrow> nat option" where
  "parse_port raw = (let t = trim raw in if t = [] then None else parse_unsigned u16_max t)"

definition parse_positive_u64_with_default :: "string option \<Rightarrow> nat \<Rightarrow> nat" where
  "parse_positive_u64_with_default value dflt =
     (case Option.bind value (\<lambda>raw. parse_unsigned u64_max (trim raw)) of
        Some parsed \<Rightarrow> if 0 < parsed then parsed else dflt
      | None \<Rightarrow> dflt)"

definition parse_non_negative_u64_with_default :: "string option \<Rightarrow> nat \<Rightarrow> nat" where
  "parse_non_negative_u64_with_default value dflt =
     (case Option.bind value (\<lambda>raw. parse_unsigned u64_max (trim raw)) of
        Some parsed \<Rightarrow> parsed
      | None \<Rightarrow> dflt)"

text \<open>\<^verbatim>\<open>usize\<close> is 64 bits wide.\<close>

definition parse_non_negative_usize_with_default :: "string option \<Rightarrow> nat \<Rightarrow> nat" where
  "parse_non_negative_usize_with_default value dflt =
     (case Option.bind value (\<lambda>raw. parse_unsigned u64_max (trim raw)) of
        Some parsed \<Rightarrow> parsed
      | None \<Rightarrow> dflt)"

definition parse_jpeg_quality :: "string option \<Rightarrow> nat \<Rightarrow> nat" where
  "parse_jpeg_quality value dflt =
     (case Option.bind value (\<lambda>raw. parse_unsigned u8_max (trim raw)) of
        Some parsed \<Rightarrow> if 1 \<le> parsed \<and> parsed \<le> 100 then parsed else dflt
      | None \<Rightarrow> dflt)"

definition is_disabled_value :: "string \<Rightarrow> bool" where
  "is_disabled_value raw \<longleftrightarrow>
     to_lower (trim raw) \<in> {[], ''0'', ''false'', ''no'', ''n'', ''off'', ''disable'', ''disabled'', ''none''}"

definition parse_cache_bytes :: "string option \<Rightarrow> nat \<Rightarrow> nat" where
  "parse_cache_bytes value dflt =
     (case map_option trim value of
        Some raw \<Rightarrow> if is_disabled_value raw then 0 else unwrap_or (parse_unsigned u64_max raw) dflt
      | None \<Rightarrow> dflt)"

definition parse_wait_timeout_ms :: "string option \<Rightarrow> nat \<Rightarrow> nat" where
  "parse_wait_timeout_ms value dflt =
     (case Option.bind value (\<lambda>raw. parse_unsigned u64_max (trim raw)) of
        Some parsed \<Rightarrow> parsed
      | None \<Rightarrow> dflt)"

definition parse_csv :: "string \<Rightarrow> string list" where
  "parse_csv raw = filter (\<lambda>part. part \<noteq> []) (map trim (split_on (CHR '','') raw))"

definition parse_optional_string_with_disabled :: "string \<Rightarrow> string" where
  "parse_optional_string_with_disabled raw = (if is_disabled_value raw then [] else trim raw)"

definition parse_http_base_url :: "'u url_api \<Rightarrow> string \<Rightarrow> string \<Rightarrow> (string, string) result" where
  "parse_http_base_url U raw env_name =
     (let trimmed = trim raw in
      if trimmed = [] then Err (env_name @ '' is empty'')
      else (case url_parse U trimmed of
          Err err \<Rightarrow> Err (''parse '' @ env_name @ '': '' @ err)
        | Ok parsed \<Rightarrow>
            if \<not> is_http_scheme (url_scheme U parsed) then Err (env_name @ '' must use http or https'')
            else if trim (host_or_empty U parsed) = [] then Err (env_name @ '' host is empty'')
            else Ok (trim_end_char (CHR ''/'') (url_text U (url_set_fragment U None parsed)))))"

definition normalize_optional_http_base_url :: "'u url_api \<Rightarrow> string \<Rightarrow> string" where
  "normalize_optional_http_base_url U raw =
     (if is_disabled_value raw then []
      else (case parse_http_base_url U raw ''PUBLIC_BASE_URL'' of Ok u \<Rightarrow> u | Err _ \<Rightarrow> []))"

definition parse_bool :: "string option \<Rightarrow> bool \<Rightarrow> bool" where
  "parse_bool value dflt =
     (case map_option (\<lambda>v. to_lower (trim v)) value of
        Some v \<Rightarrow>
          if v \<in> {''1'', ''true'', ''yes'', ''y'', ''on'', ''enable'', ''enabled''} then True
          else if v \<in> {''0'', ''false'', ''no'', ''n'', ''off'', ''disable'', ''disabled'', ''none''}
          then False
          else dflt
      | None \<Rightarrow> dflt)"

definition default_allowed_proxy_domains :: "string list" where
  "default_allowed_proxy_domains = [''ai.kefan.cn'', ''uguu.se'', ''.uguu.se'', ''.aitohumanize.com'']"

definition default_openai_image_edits_upstream_domains :: "string list" where
  "default_openai_image_edits_upstream_domains = [''happyapi.org'', ''www.happyapi.org'']"

section \<open>Budgets of the blob store\<close>

record blob_budget_defaults =
  bb_inline_max_bytes :: nat
  bb_request_hot_budget_bytes :: nat
  bb_global_hot_budget_bytes :: nat

definition blob_budget_defaults_for_memory :: "nat \<Rightarrow> blob_budget_defaults" where
  "blob_budget_defaults_for_memory memory_bytes =
     (let GIB = 1024 * 1024 * 1024 in
      if 8 * GIB \<le> memory_bytes then
        \<lparr>bb_inline_max_bytes = 16 * 1024 * 1024, bb_request_hot_budget_bytes = 64 * 1024 * 1024,
         bb_global_hot_budget_bytes = 1536 * 1024 * 1024\<rparr>
      else if 4 * GIB \<le> memory_bytes then
        \<lparr>bb_inline_max_bytes = 12 * 1024 * 1024, bb_request_hot_budget_bytes = 40 * 1024 * 1024,
         bb_global_hot_budget_bytes = 768 * 1024 * 1024\<rparr>
      else
        \<lparr>bb_inline_max_bytes = 8 * 1024 * 1024, bb_request_hot_budget_bytes = 24 * 1024 * 1024,
         bb_global_hot_budget_bytes = 384 * 1024 * 1024\<rparr>)"

section \<open>The configuration\<close>

record config =
  port :: nat
  upstream_base_url :: string
  upstream_api_key :: string
  upstream_timeout :: nat
  upstream_connect_timeout :: nat
  upstream_insecure_skip_verify :: bool
  upstream_tcp_keepalive :: nat
  upstream_pool_idle_timeout :: nat
  upstream_block_cache_ttl :: nat
  upstream_block_cache_max_entries :: nat
  image_host_mode :: string
  allowed_proxy_domains :: "string list"
  public_base_url :: string
  external_image_proxy_prefix :: string
  slow_log_threshold :: nat
  proxy_standard_output_urls :: bool
  proxy_r2_output_urls :: bool
  proxy_special_upstream_urls :: bool
  openai_image_upstream_url_proxy_prefix :: string
  enable_image_compression :: bool
  enable_request_image_webp_optimization :: bool
  image_compression_jpeg_quality :: nat
  admin_password :: string
  image_fetch_timeout :: nat
  image_tls_handshake_timeout :: nat
  image_fetch_insecure_skip_verify :: bool
  image_fetch_external_proxy_domains :: "string list"
  openai_image_b64_json_upstream_domains :: "string list"
  openai_image_edits_upstream_domains :: "string list"
  inline_data_url_cache_dir :: string
  inline_data_url_cache_ttl :: nat
  inline_data_url_cache_max_bytes :: nat
  inline_data_url_memory_cache_max_bytes :: nat
  inline_data_url_background_fetch_wait_timeout :: nat
  inline_data_url_background_fetch_total_timeout :: nat
  inline_data_url_background_fetch_max_inflight :: nat
  blob_inline_max_bytes :: nat
  blob_request_hot_budget_bytes :: nat
  blob_global_hot_budget_bytes :: nat
  blob_spill_dir :: string
  upload_timeout :: nat
  upload_tls_handshake_timeout :: nat
  upload_insecure_skip_verify :: bool
  legacy_uguu_upload_url :: string
  legacy_kefan_upload_url :: string
  r2_endpoint :: string
  r2_bucket :: string
  r2_access_key_id :: string
  r2_secret_access_key :: string
  r2_public_base_url :: string
  r2_object_prefix :: string

definition env_trimmed :: "env \<Rightarrow> string \<Rightarrow> string" where
  "env_trimmed env k = unwrap_or (map_option trim (env k)) []"

definition env_optional_string :: "env \<Rightarrow> string \<Rightarrow> string" where
  "env_optional_string env k = unwrap_or (map_option parse_optional_string_with_disabled (env k)) []"

definition env_csv :: "env \<Rightarrow> string \<Rightarrow> string list \<Rightarrow> string list" where
  "env_csv env k dflt = unwrap_or (map_option parse_csv (env k)) dflt"

definition env_port :: "env \<Rightarrow> nat" where
  "env_port env = unwrap_or (Option.bind (env ''PORT'') parse_port) 8787"

definition env_upstream_base_url :: "env \<Rightarrow> string" where
  "env_upstream_base_url env =
     unwrap_or (opt_filter (\<lambda>v. v \<noteq> []) (map_option trim (env ''UPSTREAM_BASE_URL'')))
       ''https://magic666.top''"

definition env_image_host_mode :: "env \<Rightarrow> string" where
  "env_image_host_mode env =
     to_lower (unwrap_or (opt_filter (\<lambda>v. v \<noteq> []) (map_option trim (env ''IMAGE_HOST_MODE'')))
       ''legacy'')"

definition env_allowed_proxy_domains :: "env \<Rightarrow> string list" where
  "env_allowed_proxy_domains env =
     unwrap_or (opt_filter (\<lambda>domains. domains \<noteq> []) (map_option parse_csv (env ''ALLOWED_PROXY_DOMAINS'')))
       default_allowed_proxy_domains"

definition env_public_base_url :: "'u url_api \<Rightarrow> env \<Rightarrow> string" where
  "env_public_base_url U env =
     unwrap_or (map_option (normalize_optional_http_base_url U) (env ''PUBLIC_BASE_URL'')) []"

definition env_proxy_r2_output_urls :: "'u url_api \<Rightarrow> env \<Rightarrow> bool" where
  "env_proxy_r2_output_urls U env =
     (case env ''PROXY_R2_OUTPUT_URLS'' of
        Some value \<Rightarrow> parse_bool (Some value) False
      | None \<Rightarrow>
          (let external_prefix = trim (env_optional_string env ''EXTERNAL_IMAGE_PROXY_PREFIX'') in
           parse_bool (env ''PROXY_STANDARD_OUTPUT_URLS'') True
           \<and> (external_prefix \<noteq> [] \<or> trim (env_public_base_url U env) \<noteq> [])))"

definition env_blob_spill_dir :: "env \<Rightarrow> string" where
  "env_blob_spill_dir env =
     unwrap_or (opt_filter (\<lambda>value. value \<noteq> [])
         (map_option parse_optional_string_with_disabled (env ''BLOB_SPILL_DIR'')))
       ''/tmp/rust-sync-proxy-blobs''"

definition env_r2_object_prefix :: "env \<Rightarrow> string" where
  "env_r2_object_prefix env =
     unwrap_or (opt_filter (\<lambda>v. v \<noteq> [])
         (map_option (\<lambda>v. trim_char (CHR ''/'') (trim v)) (env ''R2_OBJECT_PREFIX'')))
       ''images''"

definition config_from_env :: "'u url_api \<Rightarrow> env \<Rightarrow> config" where
  "config_from_env U env =
     (let budgets = blob_budget_defaults_for_memory
            (parse_non_negative_u64_with_default (env ''INSTANCE_MEMORY_BYTES'') 2147483648) in
     \<lparr>
      port = env_port env,
      upstream_base_url = env_upstream_base_url env,
      upstream_api_key = unwrap_or (env ''UPSTREAM_API_KEY'') [],
      upstream_timeout = parse_positive_u64_with_default (env ''UPSTREAM_TIMEOUT_MS'') 600000,
      upstream_connect_timeout = parse_positive_u64_with_default (env ''UPSTREAM_CONNECT_TIMEOUT_MS'') 30000,
      upstream_insecure_skip_verify = parse_bool (env ''UPSTREAM_INSECURE_SKIP_VERIFY'') False,
      upstream_tcp_keepalive = parse_positive_u64_with_default (env ''UPSTREAM_TCP_KEEPALIVE_MS'') 30000,
      upstream_pool_idle_timeout = parse_positive_u64_with_default (env ''UPSTREAM_POOL_IDLE_TIMEOUT_MS'') 15000,
      upstream_block_cache_ttl = parse_non_negative_u64_with_default (env ''UPSTREAM_BLOCK_CACHE_TTL_MS'') 300000,
      upstream_block_cache_max_entries = parse_non_negative_usize_with_default (env ''UPSTREAM_BLOCK_CACHE_MAX_ENTRIES'') 1024,
      image_host_mode = env_image_host_mode env,
      allowed_proxy_domains = env_allowed_proxy_domains env,
      public_base_url = env_public_base_url U env,
      external_image_proxy_prefix = env_optional_string env ''EXTERNAL_IMAGE_PROXY_PREFIX'',
      slow_log_threshold = parse_non_negative_u64_with_default (env ''SLOW_LOG_THRESHOLD_MS'') 100000,
      proxy_standard_output_urls = parse_bool (env ''PROXY_STANDARD_OUTPUT_URLS'') True,
      proxy_r2_output_urls = env_proxy_r2_output_urls U env,
      proxy_special_upstream_urls = parse_bool (env ''PROXY_SPECIAL_UPSTREAM_URLS'') True,
      openai_image_upstream_url_proxy_prefix = env_optional_string env ''OPENAI_IMAGE_UPSTREAM_URL_PROXY_PREFIX'',
      enable_image_compression = parse_bool (env ''ENABLE_IMAGE_COMPRESSION'') False,
      enable_request_image_webp_optimization = parse_bool (env ''ENABLE_REQUEST_IMAGE_WEBP_OPTIMIZATION'') False,
      image_compression_jpeg_quality = parse_jpeg_quality (env ''IMAGE_COMPRESSION_JPEG_QUALITY'') 97,
      admin_password = env_optional_string env ''ADMIN_PASSWORD'',
      image_fetch_timeout = parse_positive_u64_with_default (env ''IMAGE_FETCH_TIMEOUT_MS'') 20000,
      image_tls_handshake_timeout = parse_positive_u64_with_default (env ''IMAGE_TLS_HANDSHAKE_TIMEOUT_MS'') 15000,
      image_fetch_insecure_skip_verify = parse_bool (env ''IMAGE_FETCH_INSECURE_SKIP_VERIFY'') False,
      image_fetch_external_proxy_domains = env_csv env ''IMAGE_FETCH_EXTERNAL_PROXY_DOMAINS'' [],
      openai_image_b64_json_upstream_domains = map to_lower (env_csv env ''OPENAI_IMAGE_B64_JSON_UPSTREAM_DOMAINS'' []),
      openai_image_edits_upstream_domains = map to_lower (env_csv env ''OPENAI_IMAGE_EDITS_UPSTREAM_DOMAINS''
         default_openai_image_edits_upstream_domains),
      inline_data_url_cache_dir = env_optional_string env ''INLINE_DATA_URL_CACHE_DIR'',
      inline_data_url_cache_ttl = parse_non_negative_u64_with_default (env ''INLINE_DATA_URL_CACHE_TTL_MS'') 3600000,
      inline_data_url_cache_max_bytes = parse_non_negative_u64_with_default (env ''INLINE_DATA_URL_CACHE_MAX_BYTES'') 1073741824,
      inline_data_url_memory_cache_max_bytes = parse_cache_bytes (env ''INLINE_DATA_URL_MEMORY_CACHE_MAX_BYTES'') 104857600,
      inline_data_url_background_fetch_wait_timeout = parse_wait_timeout_ms (env ''INLINE_DATA_URL_BACKGROUND_FETCH_WAIT_TIMEOUT_MS'')
         (parse_positive_u64_with_default (env ''IMAGE_FETCH_TIMEOUT_MS'') 20000),
      inline_data_url_background_fetch_total_timeout = parse_non_negative_u64_with_default (env ''INLINE_DATA_URL_BACKGROUND_FETCH_TOTAL_TIMEOUT_MS'') 90000,
      inline_data_url_background_fetch_max_inflight = parse_non_negative_usize_with_default
         (env ''INLINE_DATA_URL_BACKGROUND_FETCH_MAX_INFLIGHT'') 128,
      blob_inline_max_bytes = parse_non_negative_u64_with_default (env ''BLOB_INLINE_MAX_BYTES'')
         (bb_inline_max_bytes budgets),
      blob_request_hot_budget_bytes = parse_non_negative_u64_with_default (env ''BLOB_REQUEST_HOT_BUDGET_BYTES'')
         (bb_request_hot_budget_bytes budgets),
      blob_global_hot_budget_bytes = parse_non_negative_u64_with_default (env ''BLOB_GLOBAL_HOT_BUDGET_BYTES'')
         (bb_global_hot_budget_bytes budgets),
      blob_spill_dir = env_blob_spill_dir env,
      upload_timeout = parse_positive_u64_with_default (env ''UPLOAD_TIMEOUT_MS'') 20000,
      upload_tls_handshake_timeout = parse_positive_u64_with_default (env ''UPLOAD_TLS_HANDSHAKE_TIMEOUT_MS'') 10000,
      upload_insecure_skip_verify = parse_bool (env ''UPLOAD_INSECURE_SKIP_VERIFY'') False,
      legacy_uguu_upload_url = ''https://uguu.se/upload'',
      legacy_kefan_upload_url = ''https://ai.kefan.cn/api/upload/local'',
      r2_endpoint = env_trimmed env ''R2_ENDPOINT'',
      r2_bucket = env_trimmed env ''R2_BUCKET'',
      r2_access_key_id = env_trimmed env ''R2_ACCESS_KEY_ID'',
      r2_secret_access_key = env_trimmed env ''R2_SECRET_ACCESS_KEY'',
      r2_public_base_url = env_trimmed env ''R2_PUBLIC_BASE_URL'',
      r2_object_prefix = env_r2_object_prefix env
     \<rparr>)"

definition mode_uses_r2 :: "config \<Rightarrow> bool" where
  "mode_uses_r2 c \<longleftrightarrow> image_host_mode c \<in> {''r2'', ''r2_then_legacy''}"

text \<open>The settings \<^verbatim>\<open>validate\<close> requires in the R2 modes, in the order it checks them.\<close>

definition r2_required :: "config \<Rightarrow> (string \<times> string) list" where
  "r2_required c =
     [(''R2_ENDPOINT'', r2_endpoint c), (''R2_BUCKET'', r2_bucket c),
      (''R2_ACCESS_KEY_ID'', r2_access_key_id c), (''R2_SECRET_ACCESS_KEY'', r2_secret_access_key c),
      (''R2_PUBLIC_BASE_URL'', r2_public_base_url c)]"

definition validate :: "'u url_api \<Rightarrow> config \<Rightarrow> (string, unit) result" where
  "validate U c =
     (if image_host_mode c \<notin> {[], ''legacy'', ''r2'', ''r2_then_legacy''}
      then Err (''IMAGE_HOST_MODE must be one of legacy, r2, r2_then_legacy, got '' @ image_host_mode c)
      else if mode_uses_r2 c then
        (case find (\<lambda>(name, value). trim value = []) (r2_required c) of
           Some (name, _) \<Rightarrow> Err (name @ '' is required when IMAGE_HOST_MODE is r2 or r2_then_legacy'')
         | None \<Rightarrow>
             (case parse_http_base_url U (r2_endpoint c) ''R2_ENDPOINT'' of
                Err err \<Rightarrow> Err (''R2_ENDPOINT is invalid: '' @ err)
              | Ok _ \<Rightarrow>
                  (case parse_http_base_url U (r2_public_base_url c) ''R2_PUBLIC_BASE_URL'' of
                     Err err \<Rightarrow> Err err
                   | Ok _ \<Rightarrow> Ok ())))
      else Ok ())"

definition from_env_map :: "'u url_api \<Rightarrow> env \<Rightarrow> (string, config) result" where
  "from_env_map U env =
     (let config = config_from_env U env
      in case validate U config of Err err \<Rightarrow> Err err | Ok _ \<Rightarrow> Ok config)"

section \<open>Questions the handlers ask\<close>

definition resolved_external_image_proxy_prefix :: "config \<Rightarrow> string" where
  "resolved_external_image_proxy_prefix c =
     (let external_prefix = trim (external_image_proxy_prefix c) in
      if external_prefix \<noteq> [] then external_prefix
      else
        (let public_base_url = trim_end_char (CHR ''/'') (trim (public_base_url c)) in
         if public_base_url = [] then [] else public_base_url @ ''/proxy/image?url=''))"

definition should_proxy_uploaded_output_url :: "config \<Rightarrow> string \<Rightarrow> bool" where
  "should_proxy_uploaded_output_url c provider =
     (if eq_ignore_case provider ''r2'' then proxy_r2_output_urls c else proxy_standard_output_urls c)"

definition upstream_domain_pattern_matches_host :: "string \<Rightarrow> string \<Rightarrow> bool" where
  "upstream_domain_pattern_matches_host pattern host =
     (let pattern = trim pattern in
      if pattern = [] then False
      else if starts_with pattern ''.'' then ends_with host pattern
      else host = pattern)"

definition should_force_openai_image_b64_json_for_upstream :: "'u url_api \<Rightarrow> config \<Rightarrow> string \<Rightarrow> bool" where
  "should_force_openai_image_b64_json_for_upstream U c base_url =
     (case Option.bind (parse_ok U base_url) (\<lambda>parsed. map_option to_lower (url_host U parsed)) of
        None \<Rightarrow> False
      | Some host \<Rightarrow>
          list_ex (\<lambda>pattern. upstream_domain_pattern_matches_host pattern host)
            (openai_image_b64_json_upstream_domains c))"

definition should_use_openai_image_edits_for_upstream :: "'u url_api \<Rightarrow> config \<Rightarrow> string \<Rightarrow> bool" where
  "should_use_openai_image_edits_for_upstream U c base_url =
     (case Option.bind (parse_ok U base_url) (\<lambda>parsed. map_option to_lower (url_host U parsed)) of
        None \<Rightarrow> False
      | Some host \<Rightarrow>
          list_ex (\<lambda>pattern. upstream_domain_pattern_matches_host pattern host)
            (openai_image_edits_upstream_domains c))"

section \<open>What an accepted configuration guarantees\<close>

lemma config_from_env_simps:
  "image_host_mode (config_from_env U env) = env_image_host_mode env"
  "port (config_from_env U env) = env_port env"
  "image_compression_jpeg_quality (config_from_env U env) =
     parse_jpeg_quality (env ''IMAGE_COMPRESSION_JPEG_QUALITY'') 97"
  "upstream_timeout (config_from_env U env) = parse_positive_u64_with_default (env ''UPSTREAM_TIMEOUT_MS'') 600000"
  "image_fetch_timeout (config_from_env U env) =
     parse_positive_u64_with_default (env ''IMAGE_FETCH_TIMEOUT_MS'') 20000"
  "upload_timeout (config_from_env U env) = parse_positive_u64_with_default (env ''UPLOAD_TIMEOUT_MS'') 20000"
  "allowed_proxy_domains (config_from_env U env) = env_allowed_proxy_domains env"
  "r2_endpoint (config_from_env U env) = env_trimmed env ''R2_ENDPOINT''"
  "r2_bucket (config_from_env U env) = env_trimmed env ''R2_BUCKET''"
  "r2_access_key_id (config_from_env U env) = env_trimmed env ''R2_ACCESS_KEY_ID''"
  "r2_secret_access_key (config_from_env U env) = env_trimmed env ''R2_SECRET_ACCESS_KEY''"
  "r2_public_base_url (config_from_env U env) = env_trimmed env ''R2_PUBLIC_BASE_URL''"
  by (simp_all add: config_from_env_def Let_def)

lemma parse_positive_pos: "0 < d \<Longrightarrow> 0 < parse_positive_u64_with_default v d"
  by (auto simp: parse_positive_u64_with_default_def split: option.splits)

lemma parse_jpeg_quality_range: "1 \<le> d \<Longrightarrow> d \<le> 100 \<Longrightarrow>
  1 \<le> parse_jpeg_quality v d \<and> parse_jpeg_quality v d \<le> 100"
  by (auto simp: parse_jpeg_quality_def split: option.splits)

lemma parse_port_u16: "parse_port raw = Some p \<Longrightarrow> p \<le> 65535"
  by (auto simp: parse_port_def u16_max_def Let_def dest: parse_unsigned_bound split: if_splits)

lemma env_port_u16: "env_port env \<le> 65535"
  by (auto simp: env_port_def unwrap_or_def bind_eq_Some_conv dest: parse_port_u16 split: option.splits)

lemma parse_csv_trimmed: "d \<in> set (parse_csv raw) \<Longrightarrow> d \<noteq> [] \<and> trimmed d"
  by (auto simp: parse_csv_def trimmed_trim)

lemma env_allowed_proxy_domains_ok:
  "env_allowed_proxy_domains env \<noteq> [] \<and> (\<forall>d \<in> set (env_allowed_proxy_domains env). d \<noteq> [])"
proof (cases "opt_filter (\<lambda>domains. domains \<noteq> []) (map_option parse_csv (env ''ALLOWED_PROXY_DOMAINS''))")
  case None
  then show ?thesis by (simp add: env_allowed_proxy_domains_def default_allowed_proxy_domains_def)
next
  case (Some ds)
  then show ?thesis
    by (auto simp: env_allowed_proxy_domains_def opt_filter_Some_iff dest: parse_csv_trimmed)
qed

lemma env_image_host_mode_not_Nil: "env_image_host_mode env \<noteq> []"
  by (auto simp: env_image_host_mode_def unwrap_or_def split: option.splits)
    (auto simp: opt_filter_Some_iff)

lemma validate_OkD:
  assumes "validate U c = Ok ()"
  shows "image_host_mode c \<in> {[], ''legacy'', ''r2'', ''r2_then_legacy''}"
    and "mode_uses_r2 c \<Longrightarrow> (\<forall>(name, value) \<in> set (r2_required c). trim value \<noteq> [])
      \<and> (\<exists>u. parse_http_base_url U (r2_endpoint c) ''R2_ENDPOINT'' = Ok u)
      \<and> (\<exists>u. parse_http_base_url U (r2_public_base_url c) ''R2_PUBLIC_BASE_URL'' = Ok u)"
  using assms
  by (auto simp: validate_def find_None_iff split: if_splits option.splits sum.splits)

section \<open>Properties\<close>

text \<open>
  A configuration that start-up accepts names a known image host mode; in the R2 modes every R2
  setting is present and both R2 URLs are http(s) URLs with a host; and whatever the environment
  holds, the port fits 16 bits, the JPEG quality is 1 to 100, the timeouts are positive and the
  list of domains the image proxy may fetch from is not empty and has no empty entry.
\<close>

theorem accepted_config_valid:
  assumes "from_env_map U env = Ok c"
  shows "image_host_mode c \<in> {''legacy'', ''r2'', ''r2_then_legacy''}
    \<and> (image_host_mode c \<noteq> ''legacy'' \<longrightarrow>
        (\<forall>(name, value) \<in> set (r2_required c). trim value \<noteq> [])
        \<and> (\<exists>u. parse_http_base_url U (r2_endpoint c) ''R2_ENDPOINT'' = Ok u)
        \<and> (\<exists>u. parse_http_base_url U (r2_public_base_url c) ''R2_PUBLIC_BASE_URL'' = Ok u))
    \<and> port c \<le> 65535 \<and> 1 \<le> image_compression_jpeg_quality c \<and> image_compression_jpeg_quality c \<le> 100
    \<and> 0 < upstream_timeout c \<and> 0 < image_fetch_timeout c \<and> 0 < upload_timeout c
    \<and> allowed_proxy_domains c \<noteq> [] \<and> (\<forall>d \<in> set (allowed_proxy_domains c). d \<noteq> [])"
proof -
  have c: "c = config_from_env U env" and v: "validate U c = Ok ()"
    using assms by (auto simp: from_env_map_def Let_def split: sum.splits)
  have mode: "image_host_mode c \<in> {''legacy'', ''r2'', ''r2_then_legacy''}"
    using validate_OkD(1) [OF v] env_image_host_mode_not_Nil [of env] by (auto simp: c config_from_env_simps)
  have "image_host_mode c \<noteq> ''legacy'' \<Longrightarrow> mode_uses_r2 c"
    using mode by (auto simp: mode_uses_r2_def)
  with validate_OkD(2) [OF v] mode show ?thesis
    using env_port_u16 [of env] env_allowed_proxy_domains_ok [of env]
      parse_jpeg_quality_range [of 97 "env ''IMAGE_COMPRESSION_JPEG_QUALITY''"]
    by (auto simp: c config_from_env_simps parse_positive_pos)
qed

definition r2_env :: env where
  "r2_env = map_of
     [(''IMAGE_HOST_MODE'', ''r2''), (''R2_ENDPOINT'', ''https://r2.example.com''), (''R2_BUCKET'', ''images''),
      (''R2_ACCESS_KEY_ID'', ''id''), (''R2_SECRET_ACCESS_KEY'', ''secret''),
      (''R2_PUBLIC_BASE_URL'', ''https://img.example.com/''), (''PORT'', ''70000'')]"

lemma r2_env_accepted: "validate sample_url (config_from_env sample_url r2_env) = Ok ()"
  by (simp add: validate_def mode_uses_r2_def r2_required_def config_from_env_simps env_trimmed_def
      env_image_host_mode_def r2_env_def parse_http_base_url_def sample_url_def sample_url_parse_def
      split_opt_def is_http_scheme_def host_or_empty_def to_lower_def lower_char_def
      trim_plain plain_char_def bval_def)

lemma accepted_config_valid_witness:
  "\<exists>c. from_env_map sample_url r2_env = Ok c
     \<and> image_host_mode c \<in> {''legacy'', ''r2'', ''r2_then_legacy''} \<and> port c \<le> 65535"
proof -
  have "from_env_map sample_url r2_env = Ok (config_from_env sample_url r2_env)"
    by (simp add: from_env_map_def r2_env_accepted)
  with accepted_config_valid [OF this] show ?thesis by blast
qed

end
