(* ===== verification/Upstream.thy ===== *)
theory Upstream
  imports Config Samples
begin

text \<open>
  \<^verbatim>\<open>src/provider.rs\<close> and \<^verbatim>\<open>src/upstream.rs\<close>: which upstream a request goes to. A caller may
  override base URL and key in the \<^verbatim>\<open>x-goog-api-key\<close> or \<^verbatim>\<open>authorization\<close> header, as
  \<^verbatim>\<open>key\<close>, \<^verbatim>\<open>base|key\<close> or, for a separate 4K upstream, \<^verbatim>\<open>base|key,base|key\<close>.
\<close>

section \<open>Providers\<close>

datatype provider_kind = Grsai | Aiapidev | Transparent

fun provider_kind_name :: "provider_kind \<Rightarrow> string" where
  "provider_kind_name Grsai = ''grsai''"
| "provider_kind_name Aiapidev = ''aiapidev''"
| "provider_kind_name Transparent = ''transparent''"

definition parse_host :: "'u url_api \<Rightarrow> string \<Rightarrow> string option" where
  "parse_host U raw = Option.bind (parse_ok U raw) (\<lambda>parsed. map_option to_lower (url_host U parsed))"

definition is_grsai_base_url :: "'u url_api \<Rightarrow> string \<Rightarrow> bool" where
  "is_grsai_base_url U raw =
     (case parse_host U raw of
        None \<Rightarrow> False
      | Some host \<Rightarrow> host = ''grsai.com'' \<or> ends_with host ''.grsai.com'')"

definition is_aiapidev_provider_url :: "'u url_api \<Rightarrow> string \<Rightarrow> bool" where
  "is_aiapidev_provider_url U raw =
     (case parse_host U raw of None \<Rightarrow> False | Some host \<Rightarrow> host = ''www.aiapipro.vip'')"

definition resolve_provider :: "'u url_api \<Rightarrow> string \<Rightarrow> provider_kind" where
  "resolve_provider U base_url =
     (if is_grsai_base_url U base_url then Grsai
      else if is_aiapidev_provider_url U base_url then Aiapidev
      else Transparent)"

section \<open>Errors and results\<close>

record resolved_upstream =
  ru_base_url :: string
  ru_api_key :: string

datatype resolve_error_kind = MissingApiKey | InvalidOverride

record resolve_error =
  re_kind :: resolve_error_kind
  re_message :: string

definition missing_api_key :: resolve_error where
  "missing_api_key = \<lparr>re_kind = MissingApiKey, re_message = MSG_MISSING_API_KEY\<rparr>"

definition invalid_override :: "string \<Rightarrow> resolve_error" where
  "invalid_override message = \<lparr>re_kind = InvalidOverride, re_message = message\<rparr>"

definition resolve_error_status :: "resolve_error \<Rightarrow> status" where
  "resolve_error_status e =
     (case re_kind e of MissingApiKey \<Rightarrow> UNAUTHORIZED | InvalidOverride \<Rightarrow> BAD_REQUEST)"

section \<open>Override tokens\<close>

record upstream_override =
  uo_base_url :: "string option"
  uo_api_key :: "string option"

definition validate_http_base_url :: "'u url_api \<Rightarrow> string \<Rightarrow> (resolve_error, unit) result" where
  "validate_http_base_url U raw =
     (case url_parse U raw of
        Err _ \<Rightarrow> Err (invalid_override MSG_BASE_URL_INVALID)
      | Ok parsed \<Rightarrow>
          if \<not> is_http_scheme (url_scheme U parsed) then Err (invalid_override MSG_BASE_URL_SCHEME)
          else if host_or_empty U parsed = [] then Err (invalid_override MSG_BASE_URL_HOST)
          else Ok ())"

definition parse_single_upstream_token ::
  "'u url_api \<Rightarrow> string \<Rightarrow> (resolve_error, upstream_override) result" where
  "parse_single_upstream_token U token =
     (case split_once (CHR ''|'') token of
        None \<Rightarrow> Ok \<lparr>uo_base_url = None, uo_api_key = Some (trim token)\<rparr>
      | Some (base, key) \<Rightarrow>
          (let custom_base = trim base; custom_key = trim key;
               k = (if custom_key = [] then None else Some custom_key)
           in if custom_base = [] then Ok \<lparr>uo_base_url = None, uo_api_key = k\<rparr>
              else (case validate_http_base_url U custom_base of
                  Err e \<Rightarrow> Err e
                | Ok _ \<Rightarrow> Ok \<lparr>uo_base_url = Some custom_base, uo_api_key = k\<rparr>)))"

definition parse_strict_upstream_pair ::
  "'u url_api \<Rightarrow> string \<Rightarrow> (resolve_error, upstream_override) result" where
  "parse_strict_upstream_pair U token =
     (case split_once (CHR ''|'') token of
        None \<Rightarrow> Err (invalid_override MSG_PAIR_FORMAT)
      | Some (base, key) \<Rightarrow>
          (let custom_base = trim base; custom_key = trim key in
           if custom_base = [] \<or> custom_key = [] then Err (invalid_override MSG_PAIR_EMPTY)
           else (case validate_http_base_url U custom_base of
               Err e \<Rightarrow> Err e
             | Ok _ \<Rightarrow> Ok \<lparr>uo_base_url = Some custom_base, uo_api_key = Some custom_key\<rparr>)))"

definition request_targets_4k :: "json \<Rightarrow> bool" where
  "request_targets_4k body =
     (case Option.bind
         (opt_or (jpointer [''generationConfig'', ''imageConfig'', ''imageSize''] body)
            (jpointer [''generation_config'', ''image_config'', ''image_size''] body)) as_str of
        None \<Rightarrow> False
      | Some v \<Rightarrow> eq_ignore_case (trim v) ''4k'')"

definition parse_dual_upstream_token ::
  "'u url_api \<Rightarrow> string \<Rightarrow> json \<Rightarrow> (resolve_error, upstream_override) result" where
  "parse_dual_upstream_token U token body =
     (let parts = filter (\<lambda>p. p \<noteq> []) (map trim (split_on (CHR '','') token)) in
      if length parts \<noteq> 2 then Err (invalid_override MSG_DUAL_FORMAT)
      else (case parse_strict_upstream_pair U (parts ! 0) of
          Err e \<Rightarrow> Err e
        | Ok first \<Rightarrow>
            (case parse_strict_upstream_pair U (parts ! 1) of
               Err e \<Rightarrow> Err e
             | Ok second \<Rightarrow> Ok (if request_targets_4k body then second else first))))"

section \<open>Resolution\<close>

text \<open>One pass over the headers; the last usable value of each kind is kept.\<close>

definition scan_auth_header ::
  "string option \<times> string option \<Rightarrow> string \<times> string \<Rightarrow> string option \<times> string option" where
  "scan_auth_header acc kv =
     (case acc of (goog, auth) \<Rightarrow>
      (let key = fst kv; value = trim (snd kv) in
       if eq_ignore_case key ''x-goog-api-key'' \<and> value \<noteq> [] then (Some value, auth)
       else if eq_ignore_case key ''authorization'' \<and> value \<noteq> [] then (goog, Some value)
       else (goog, auth)))"

definition auth_token :: "(string \<times> string) list \<Rightarrow> string option" where
  "auth_token headers =
     (case foldl scan_auth_header (None, None) headers of
        (goog, auth) \<Rightarrow> opt_or goog (Option.bind auth (\<lambda>v. strip_prefix v ''Bearer '')))"

definition resolve_upstream_for_request ::
  "'u url_api \<Rightarrow> (string \<times> string) list \<Rightarrow> json \<Rightarrow> string \<Rightarrow> string
   \<Rightarrow> (resolve_error, resolved_upstream) result" where
  "resolve_upstream_for_request U headers body default_base_url default_api_key =
     (case (case auth_token headers of
              None \<Rightarrow> Ok \<lparr>uo_base_url = None, uo_api_key = None\<rparr>
            | Some token \<Rightarrow>
                if CHR '','' \<in> set token then parse_dual_upstream_token U token body
                else parse_single_upstream_token U token) of
        Err e \<Rightarrow> Err e
      | Ok ov \<Rightarrow>
          (let base_url = unwrap_or (uo_base_url ov) (trim default_base_url);
               api_key = unwrap_or (uo_api_key ov) (trim default_api_key)
           in if api_key = [] then Err missing_api_key
              else Ok \<lparr>ru_base_url = base_url, ru_api_key = api_key\<rparr>))"

definition resolve_upstream ::
  "'u url_api \<Rightarrow> (string \<times> string) list \<Rightarrow> string \<Rightarrow> string
   \<Rightarrow> (resolve_error, resolved_upstream) result" where
  "resolve_upstream U headers default_base_url default_api_key =
     resolve_upstream_for_request U headers JNull default_base_url default_api_key"

text \<open>
  A header map is its entries; \<open>to_str\<close> is \<^verbatim>\<open>HeaderValue::to_str\<close> of the crate \<^verbatim>\<open>http\<close>, and
  entries whose value is no text are skipped.
\<close>

definition header_pairs :: "(string \<Rightarrow> string option) \<Rightarrow> (string \<times> string) list \<Rightarrow> (string \<times> string) list" where
  "header_pairs to_str headers = filter_map (\<lambda>(name, v). map_option (\<lambda>t. (name, t)) (to_str v)) headers"

definition resolve_upstream_from_header_map ::
  "'u url_api \<Rightarrow> (string \<Rightarrow> string option) \<Rightarrow> (string \<times> string) list \<Rightarrow> string \<Rightarrow> string
   \<Rightarrow> (resolve_error, resolved_upstream) result" where
  "resolve_upstream_from_header_map U to_str headers default_base_url default_api_key =
     resolve_upstream U (header_pairs to_str headers) default_base_url default_api_key"

definition resolve_upstream_for_request_from_header_map ::
  "'u url_api \<Rightarrow> (string \<Rightarrow> string option) \<Rightarrow> (string \<times> string) list \<Rightarrow> json \<Rightarrow> string \<Rightarrow> string
   \<Rightarrow> (resolve_error, resolved_upstream) result" where
  "resolve_upstream_for_request_from_header_map U to_str headers body default_base_url default_api_key =
     resolve_upstream_for_request U (header_pairs to_str headers) body default_base_url default_api_key"

section \<open>Provider-specific URLs\<close>

definition is_aiapidev_base_url :: "'u url_api \<Rightarrow> string \<Rightarrow> bool" where
  "is_aiapidev_base_url U raw =
     (case url_parse U raw of
        Err _ \<Rightarrow> False
      | Ok parsed \<Rightarrow> url_host U parsed = Some ''www.aiapipro.vip'')"

definition is_happyapi_base_url :: "'u url_api \<Rightarrow> string \<Rightarrow> bool" where
  "is_happyapi_base_url U raw =
     (case url_parse U raw of
        Err _ \<Rightarrow> False
      | Ok parsed \<Rightarrow> url_host U parsed \<in> {Some ''happyapi.org'', Some ''www.happyapi.org''})"

definition mapped_aiapidev_model :: "string \<Rightarrow> string" where
  "mapped_aiapidev_model model =
     (if model = ''gemini-3-pro-image-preview'' then ''nanobananapro-qyj''
      else if model = ''gemini-3.1-flash-image-preview'' then ''nanobanana2-qyj''
      else if model = ''gemini-3-pro-image-preview-as'' then ''nanobananapro-qyj''
      else if model = ''gemini-3.1-flash-image-preview-as'' then ''nanobanana2-qyj''
      else model)"

definition rewrite_aiapidev_model_path :: "string \<Rightarrow> string" where
  "rewrite_aiapidev_model_path path =
     (case strip_prefix path ''/v1beta/models/'' of
        None \<Rightarrow> path
      | Some model_part \<Rightarrow>
          (case split_once_str '':generateContent'' model_part of
             None \<Rightarrow> path
           | Some (model, rest) \<Rightarrow>
               ''/v1beta/models/'' @ mapped_aiapidev_model model @ '':generateContent'' @ rest))"

section \<open>What a resolution guarantees\<close>

text \<open>A base URL a caller may choose: an absolute http(s) URL with a host.\<close>

definition valid_base_url :: "'u url_api \<Rightarrow> string \<Rightarrow> bool" where
  "valid_base_url U raw =
     (case url_parse U raw of
        Err _ \<Rightarrow> False
      | Ok u \<Rightarrow> is_http_scheme (url_scheme U u) \<and> host_or_empty U u \<noteq> [])"

text \<open>An override never carries an unchecked base URL or an untrimmed, empty key.\<close>

definition override_ok :: "'u url_api \<Rightarrow> upstream_override \<Rightarrow> bool" where
  "override_ok U ov \<longleftrightarrow>
     (case uo_base_url ov of None \<Rightarrow> True | Some b \<Rightarrow> trimmed b \<and> valid_base_url U b)
     \<and> (case uo_api_key ov of None \<Rightarrow> True | Some k \<Rightarrow> trimmed k)"

lemma validate_http_base_url_Ok_iff [rust_simps]:
  "validate_http_base_url U raw = Ok x \<longleftrightarrow> valid_base_url U raw"
  by (simp add: validate_http_base_url_def valid_base_url_def split: sum.splits)

lemma validate_http_base_url_Err:
  "validate_http_base_url U raw = Err e \<Longrightarrow> re_kind e = InvalidOverride"
  by (auto simp: validate_http_base_url_def invalid_override_def split: sum.splits if_splits)

lemma parse_single_ok: "parse_single_upstream_token U t = Ok ov \<Longrightarrow> override_ok U ov"
  by (auto simp: parse_single_upstream_token_def override_ok_def Let_def trimmed_trim rust_simps
      split: option.splits sum.splits if_splits)

lemma parse_strict_ok: "parse_strict_upstream_pair U t = Ok ov \<Longrightarrow> override_ok U ov"
  by (auto simp: parse_strict_upstream_pair_def override_ok_def Let_def trimmed_trim rust_simps
      split: option.splits sum.splits if_splits)

lemma parse_dual_ok: "parse_dual_upstream_token U t b = Ok ov \<Longrightarrow> override_ok U ov"
  by (auto simp: parse_dual_upstream_token_def Let_def dest: parse_strict_ok
      split: sum.splits if_splits)

lemma parse_single_Err: "parse_single_upstream_token U t = Err e \<Longrightarrow> re_kind e = InvalidOverride"
  by (auto simp: parse_single_upstream_token_def Let_def dest: validate_http_base_url_Err
      split: option.splits sum.splits if_splits)

lemma parse_strict_Err: "parse_strict_upstream_pair U t = Err e \<Longrightarrow> re_kind e = InvalidOverride"
  by (auto simp: parse_strict_upstream_pair_def Let_def invalid_override_def
      dest: validate_http_base_url_Err split: option.splits sum.splits if_splits)

lemma parse_dual_Err: "parse_dual_upstream_token U t b = Err e \<Longrightarrow> re_kind e = InvalidOverride"
  by (auto simp: parse_dual_upstream_token_def Let_def invalid_override_def dest: parse_strict_Err
      split: sum.splits if_splits)

lemmas override_oks = parse_single_ok parse_dual_ok

lemma resolve_ok_guarantee:
  assumes "resolve_upstream_for_request U hs body db dk = Ok r"
  shows "ru_api_key r \<noteq> [] \<and> trimmed (ru_api_key r)
    \<and> (ru_base_url r = trim db \<or> trimmed (ru_base_url r) \<and> valid_base_url U (ru_base_url r))"
  using assms
  by (auto simp: resolve_upstream_for_request_def override_ok_def Let_def trimmed_trim
      split: option.splits sum.splits if_splits dest!: override_oks)

lemma split_once_str_mapped:
  "split_once_str '':generateContent'' m = Some (a, b)
   \<Longrightarrow> split_once_str '':generateContent'' (mapped_aiapidev_model a @ '':generateContent'' @ b)
       = Some (mapped_aiapidev_model a, b)"
  by (frule split_once_str_SomeD) (auto simp: mapped_aiapidev_model_def)

lemma mapped_aiapidev_model_idem: "mapped_aiapidev_model (mapped_aiapidev_model m) = mapped_aiapidev_model m"
  by (simp add: mapped_aiapidev_model_def)

lemma rewrite_aiapidev_model_path_idem:
  "rewrite_aiapidev_model_path (rewrite_aiapidev_model_path p) = rewrite_aiapidev_model_path p"
proof -
  have sp: "strip_prefix (''/v1beta/models/'' @ s) ''/v1beta/models/'' = Some s" for s
    by (simp add: strip_prefix_Some_iff)
  show ?thesis
    by (auto simp: rewrite_aiapidev_model_path_def mapped_aiapidev_model_idem
        sp [unfolded append.simps] split: option.splits
        dest: split_once_str_mapped)
qed

lemma resolve_error_guarantee:
  assumes "resolve_upstream_for_request U hs body db dk = Err e"
  shows "e = missing_api_key \<or> re_kind e = InvalidOverride"
  using assms
  by (auto simp: resolve_upstream_for_request_def Let_def
      dest: parse_single_Err parse_dual_Err split: option.splits sum.splits if_splits)

text \<open>A well-formed pair as a caller writes it.\<close>

definition good_pair :: "'u url_api \<Rightarrow> string \<Rightarrow> string \<Rightarrow> bool" where
  "good_pair U b k \<longleftrightarrow>
     trimmed b \<and> trimmed k \<and> b \<noteq> [] \<and> k \<noteq> [] \<and> CHR ''|'' \<notin> set b \<and> CHR '','' \<notin> set b \<and> CHR '','' \<notin> set k
     \<and> trim (b @ ''|'' @ k) = b @ ''|'' @ k \<and> valid_base_url U b"

lemma parse_strict_good:
  "good_pair U b k \<Longrightarrow>
   parse_strict_upstream_pair U (b @ ''|'' @ k) = Ok \<lparr>uo_base_url = Some b, uo_api_key = Some k\<rparr>"
  using validate_http_base_url_Ok_iff [of U b "()"]
  by (auto simp: good_pair_def parse_strict_upstream_pair_def trim_trimmed split: sum.splits)

lemma parse_dual_good:
  assumes "good_pair U b1 k1" "good_pair U b2 k2"
  shows "parse_dual_upstream_token U ((b1 @ ''|'' @ k1) @ '','' @ b2 @ ''|'' @ k2) body =
    Ok (if request_targets_4k body then \<lparr>uo_base_url = Some b2, uo_api_key = Some k2\<rparr>
        else \<lparr>uo_base_url = Some b1, uo_api_key = Some k1\<rparr>)"
proof -
  have "split_on (CHR '','') ((b1 @ ''|'' @ k1) @ CHR '','' # (b2 @ ''|'' @ k2))
      = [b1 @ ''|'' @ k1, b2 @ ''|'' @ k2]"
    using assms by (subst split_on_append) (auto simp: good_pair_def split_on_single)
  moreover have "trim (b1 @ ''|'' @ k1) = b1 @ ''|'' @ k1" "trim (b2 @ ''|'' @ k2) = b2 @ ''|'' @ k2"
    using assms by (auto simp: good_pair_def)
  ultimately show ?thesis
    using parse_strict_good [OF assms(1)] parse_strict_good [OF assms(2)]
    by (simp add: parse_dual_upstream_token_def Let_def)
qed

section \<open>Properties\<close>

text \<open>
  (C15) A resolved upstream always has a non-empty, trimmed key, and its base URL is the configured
  default or an absolute http(s) URL with a host; every refusal is a 401 for a missing key or a
  400 for a malformed override, and never anything else.
\<close>

theorem resolved_upstream_checked:
  "case resolve_upstream_for_request U headers body default_base_url default_api_key of
     Ok r \<Rightarrow> ru_api_key r \<noteq> [] \<and> trimmed (ru_api_key r)
       \<and> ru_base_url r \<in> insert (trim default_base_url) {b. trimmed b \<and> valid_base_url U b}
   | Err e \<Rightarrow> resolve_error_status e = (if e = missing_api_key then UNAUTHORIZED else BAD_REQUEST)"
proof (cases "resolve_upstream_for_request U headers body default_base_url default_api_key")
  case (Inl e)
  from resolve_error_guarantee [OF Inl] show ?thesis
    using Inl by (auto simp: resolve_error_status_def missing_api_key_def)
next
  case (Inr r)
  from resolve_ok_guarantee [OF Inr] show ?thesis using Inr by auto
qed

text \<open>
  With the two-upstream form of the token, a request for a 4K image goes to the second pair
  and every other request to the first, with that pair's key.
\<close>

theorem dual_upstream_by_image_size:
  assumes "auth_token headers = Some ((b1 @ ''|'' @ k1) @ '','' @ b2 @ ''|'' @ k2)"
    and "good_pair U b1 k1" "good_pair U b2 k2"
  shows "resolve_upstream_for_request U headers body default_base_url default_api_key =
    Ok (if request_targets_4k body then \<lparr>ru_base_url = b2, ru_api_key = k2\<rparr>
        else \<lparr>ru_base_url = b1, ru_api_key = k1\<rparr>)"
  using assms parse_dual_good [OF assms(2,3), of body]
  by (auto simp: resolve_upstream_for_request_def good_pair_def Let_def)

definition sample_4k_request :: json where
  "sample_4k_request =
     JObject [(''generationConfig'', JObject [(''imageConfig'', JObject [(''imageSize'', JString ''4K'')])])]"

lemma dual_upstream_by_image_size_witness:
  "resolve_upstream_for_request sample_url
     [(''Authorization'', ''Bearer https://a.example|k1,https://b.example|k2'')] sample_4k_request [] []
   = Ok \<lparr>ru_base_url = ''https://b.example'', ru_api_key = ''k2''\<rparr>"
proof -
  let ?hs = "[(''Authorization'', ''Bearer https://a.example|k1,https://b.example|k2'')]"
  have t: "trimmed s" if "plain_char (hd s)" "plain_char (last s)" "s \<noteq> []" for s
    using trimmed_trim [of s] trim_plain [OF that] by simp
  have tok: "auth_token ?hs
      = Some ((''https://a.example'' @ ''|'' @ ''k1'') @ '','' @ ''https://b.example'' @ ''|'' @ ''k2'')"
    by (simp add: auth_token_def scan_auth_header_def eq_ignore_case_def to_lower_def lower_char_def
        char_of_eq_iff trim_plain plain_char_def bval_def strip_prefix_def)
  have pair: "good_pair sample_url ''https://a.example'' ''k1''" "good_pair sample_url ''https://b.example'' ''k2''"
    by (simp_all add: good_pair_def valid_base_url_def sample_url_def sample_url_parse_def split_opt_def
        is_http_scheme_def host_or_empty_def to_lower_def lower_char_def t trim_plain plain_char_def bval_def)
  have "request_targets_4k sample_4k_request"
    by (simp add: request_targets_4k_def sample_4k_request_def jstep_def eq_ignore_case_def to_lower_def
        lower_char_def char_of_eq_iff trim_plain plain_char_def bval_def)
  then show ?thesis
    using dual_upstream_by_image_size [OF tok pair, of sample_4k_request "[]" "[]"] by simp
qed

end
