(* ===== verification/Blob_Runtime.thy ===== *)
theory Blob_Runtime
  imports Http_Types
begin

text \<open>
  \<^verbatim>\<open>src/blob_runtime.rs\<close>: the store of image bytes and encoded bodies. A blob is kept in memory
  while three budgets allow it and is spilled to a file otherwise. The atomic counters of
  \<^verbatim>\<open>BlobRuntimeInner\<close> are \<open>u64\<close> words, so \<^verbatim>\<open>fetch_add\<close> and \<^verbatim>\<open>fetch_sub\<close> wrap as they do in
  Rust; a handle's \<^verbatim>\<open>removed\<close> flag is membership of its id in \<open>br_removed\<close>. The file system is a
  map from paths to contents, and a fault schedule says which file operation of a call fails and
  what it has left behind.
\<close>

type_synonym u64 = "64 word"

section \<open>Unsigned 64 bit arithmetic\<close>

definition checked_add :: "u64 \<Rightarrow> u64 \<Rightarrow> u64 option" where
  "checked_add a b = (if unat a + unat b < 2 ^ 64 then Some (a + b) else None)"

definition saturating_sub :: "u64 \<Rightarrow> u64 \<Rightarrow> u64" where
  "saturating_sub a b = (if b \<le> a then a - b else 0)"

lemma checked_add_SomeD: "checked_add a b = Some c \<Longrightarrow> unat c = unat a + unat b"
  by (auto simp: checked_add_def unat_word_ariths split: if_splits)

lemma unat_of_nat_64 [simp]: "n < 2 ^ 64 \<Longrightarrow> unat (of_nat n :: u64) = n"
  by (simp add: unat_of_nat take_bit_nat_eq_self)

lemma unat_Suc_64: "unat (x :: u64) + 1 < 2 ^ 64 \<Longrightarrow> unat (x + 1) = unat x + 1"
  by (simp add: unat_word_ariths)

lemma unat_sub_64: "b \<le> a \<Longrightarrow> unat ((a :: u64) - b) = unat a - unat b"
  by (rule unat_sub)

section \<open>Files\<close>

type_synonym fsys = "string \<Rightarrow> string option"

text \<open>
  The n-th file operation of a call fails with this error, after writing this many bytes
  (\<open>None\<close>: before touching the file).
\<close>

type_synonym fault_schedule = "nat \<Rightarrow> (string \<times> nat option) option"

type_synonym 'a fs_op = "fsys \<Rightarrow> (string, 'a) result \<times> fsys"

definition no_faults :: fault_schedule where
  "no_faults = (\<lambda>_. None)"

definition fs_then :: "'a fs_op \<Rightarrow> ('a \<Rightarrow> 'b fs_op) \<Rightarrow> 'b fs_op" where
  "fs_then m f = (\<lambda>fs. case m fs of (Err e, fs') \<Rightarrow> (Err e, fs') | (Ok a, fs') \<Rightarrow> f a fs')"

definition fs_mkdir :: "fault_schedule \<Rightarrow> nat \<Rightarrow> unit fs_op" where
  "fs_mkdir io k = (\<lambda>fs. case io k of Some (e, _) \<Rightarrow> (Err e, fs) | None \<Rightarrow> (Ok (), fs))"

text \<open>\<^verbatim>\<open>fs::write\<close> and \<^verbatim>\<open>File::create\<close> truncate; \<^verbatim>\<open>write_all\<close> on the open file appends.\<close>

definition fs_write :: "fault_schedule \<Rightarrow> nat \<Rightarrow> string \<Rightarrow> string \<Rightarrow> unit fs_op" where
  "fs_write io k path bytes =
     (\<lambda>fs. case io k of
        Some (e, None) \<Rightarrow> (Err e, fs)
      | Some (e, Some n) \<Rightarrow> (Err e, fs(path \<mapsto> take n bytes))
      | None \<Rightarrow> (Ok (), fs(path \<mapsto> bytes)))"

definition fs_append :: "fault_schedule \<Rightarrow> nat \<Rightarrow> string \<Rightarrow> string \<Rightarrow> unit fs_op" where
  "fs_append io k path bytes =
     (\<lambda>fs. case io k of
        Some (e, None) \<Rightarrow> (Err e, fs)
      | Some (e, Some n) \<Rightarrow> (Err e, fs(path \<mapsto> unwrap_or (fs path) [] @ take n bytes))
      | None \<Rightarrow> (Ok (), fs(path \<mapsto> unwrap_or (fs path) [] @ bytes)))"

text \<open>Every file operation of a store touches the given path only.\<close>

definition touches_only :: "string \<Rightarrow> 'a fs_op \<Rightarrow> bool" where
  "touches_only path m \<longleftrightarrow> (\<forall>fs p. p \<noteq> path \<longrightarrow> snd (m fs) p = fs p)"

lemma touches_only_ops:
  "touches_only path (fs_mkdir io k)"
  "touches_only path (fs_write io k path bytes)"
  "touches_only path (fs_append io k path bytes)"
  by (auto simp: touches_only_def fs_mkdir_def fs_write_def fs_append_def split: option.splits)

lemma touches_only_then:
  "touches_only path m \<Longrightarrow> (\<And>a. touches_only path (f a)) \<Longrightarrow> touches_only path (fs_then m f)"
  unfolding touches_only_def fs_then_def by (auto split: prod.splits sum.splits) (metis snd_conv)+

section \<open>State\<close>

record blob_config =
  bc_inline_max_bytes :: u64
  bc_request_hot_budget_bytes :: u64
  bc_global_hot_budget_bytes :: u64
  bc_spill_dir :: string

datatype blob_storage = Inline string | Shared string | Spilled string

record blob_handle =
  bh_id :: u64
  bh_mime_type :: string
  bh_size_bytes :: u64
  bh_storage :: blob_storage

record blob_runtime =
  br_cfg :: blob_config
  br_next_id :: u64
  br_global_hot_bytes :: u64
  br_spill_count :: u64
  br_spill_bytes_total :: u64
  br_removed :: "u64 set"
  br_fs :: fsys

definition blob_runtime_new :: "blob_config \<Rightarrow> fsys \<Rightarrow> blob_runtime" where
  "blob_runtime_new cfg fs =
     \<lparr>br_cfg = cfg, br_next_id = 1, br_global_hot_bytes = 0, br_spill_count = 0,
      br_spill_bytes_total = 0, br_removed = {}, br_fs = fs\<rparr>"

definition next_id :: "blob_runtime \<Rightarrow> u64 \<times> blob_runtime" where
  "next_id rt = (br_next_id rt, rt\<lparr>br_next_id := br_next_id rt + 1\<rparr>)"

text \<open>The compare-and-exchange loop, run by one task alone (the interleavings are below).\<close>

definition try_inline_reserve :: "blob_runtime \<Rightarrow> u64 \<Rightarrow> bool \<times> blob_runtime" where
  "try_inline_reserve rt size_bytes =
     (if bc_inline_max_bytes (br_cfg rt) < size_bytes
         \<or> bc_request_hot_budget_bytes (br_cfg rt) < size_bytes then (False, rt)
      else (case checked_add (br_global_hot_bytes rt) size_bytes of
          None \<Rightarrow> (False, rt)
        | Some nxt \<Rightarrow>
            if bc_global_hot_budget_bytes (br_cfg rt) < nxt then (False, rt)
            else (True, rt\<lparr>br_global_hot_bytes := nxt\<rparr>)))"

definition release_inline_bytes :: "blob_runtime \<Rightarrow> u64 \<Rightarrow> blob_runtime" where
  "release_inline_bytes rt size_bytes =
     rt\<lparr>br_global_hot_bytes := br_global_hot_bytes rt - size_bytes\<rparr>"

definition record_spill :: "u64 \<Rightarrow> blob_runtime \<Rightarrow> blob_runtime" where
  "record_spill size_bytes rt =
     rt\<lparr>br_spill_count := br_spill_count rt + 1,
        br_spill_bytes_total := br_spill_bytes_total rt + size_bytes\<rparr>"

definition spill_path :: "blob_config \<Rightarrow> u64 \<Rightarrow> string" where
  "spill_path cfg i = bc_spill_dir cfg @ ''/blob-'' @ show_nat (unat i) @ ''.bin''"

definition write_spilled_bytes :: "fault_schedule \<Rightarrow> string \<Rightarrow> string \<Rightarrow> unit fs_op" where
  "write_spilled_bytes io path bytes = fs_then (fs_mkdir io 0) (\<lambda>_. fs_write io 1 path bytes)"

definition build_handle ::
  "blob_runtime \<Rightarrow> u64 \<Rightarrow> string \<Rightarrow> u64 \<Rightarrow> blob_storage \<Rightarrow> blob_handle \<times> blob_runtime" where
  "build_handle rt i mime sz storage =
     (\<lparr>bh_id = i, bh_mime_type = mime, bh_size_bytes = sz, bh_storage = storage\<rparr>,
      rt\<lparr>br_removed := br_removed rt - {i}\<rparr>)"

section \<open>Storing\<close>

type_synonym 'a blob_result = "(string, 'a) result \<times> blob_runtime"

text \<open>What \<^verbatim>\<open>store_bytes\<close> and the end of \<^verbatim>\<open>store_stream\<close> do once the id is taken.\<close>

definition place_bytes ::
  "blob_runtime \<Rightarrow> fault_schedule \<Rightarrow> u64 \<Rightarrow> string \<Rightarrow> string \<Rightarrow> blob_handle blob_result" where
  "place_bytes rt io i bytes mime =
     (let size_bytes = of_nat (length bytes); (reserved, rt) = try_inline_reserve rt size_bytes in
      if reserved then (let (h, rt) = build_handle rt i mime size_bytes (Inline bytes) in (Ok h, rt))
      else
        (let path = spill_path (br_cfg rt) i in
         case write_spilled_bytes io path bytes (br_fs rt) of
           (Err e, fs) \<Rightarrow> (Err e, rt\<lparr>br_fs := fs\<rparr>)
         | (Ok _, fs) \<Rightarrow>
             (let rt = record_spill size_bytes (rt\<lparr>br_fs := fs\<rparr>);
                  (h, rt) = build_handle rt i mime size_bytes (Spilled path)
              in (Ok h, rt))))"

definition store_bytes ::
  "blob_runtime \<Rightarrow> fault_schedule \<Rightarrow> string \<Rightarrow> string \<Rightarrow> blob_handle blob_result" where
  "store_bytes rt io bytes mime =
     (let (i, rt) = next_id rt in place_bytes rt io i bytes mime)"

text \<open>\<^verbatim>\<open>Vec<u8>\<close> and \<^verbatim>\<open>Bytes\<close> differ in ownership only.\<close>

definition store_shared_bytes ::
  "blob_runtime \<Rightarrow> fault_schedule \<Rightarrow> string \<Rightarrow> string \<Rightarrow> blob_handle blob_result" where
  "store_shared_bytes rt io bytes mime =
     (let (i, rt) = next_id rt in place_bytes rt io i bytes mime)"

definition store_external_shared_bytes ::
  "blob_runtime \<Rightarrow> string \<Rightarrow> string \<Rightarrow> blob_handle blob_result" where
  "store_external_shared_bytes rt bytes mime =
     (let (i, rt) = next_id rt;
          (h, rt) = build_handle rt i mime (of_nat (length bytes)) (Shared bytes)
      in (Ok h, rt))"

text \<open>
  The read loop of \<^verbatim>\<open>store_stream\<close>. The reader is the sequence of its reads (an empty read, or
  the end of the list, is the end of the stream). The result is the number of file operations
  done, the bytes still buffered and whether the stream went to the file.
\<close>

definition spill_begin ::
  "fault_schedule \<Rightarrow> nat \<Rightarrow> string \<Rightarrow> string \<Rightarrow> string \<Rightarrow> nat fs_op" where
  "spill_begin io k path buffer chunk =
     fs_then (fs_mkdir io k) (\<lambda>_.
     fs_then (fs_write io (k + 1) path []) (\<lambda>_.
     fs_then (if buffer = [] then Pair (Ok ()) else fs_append io (k + 2) path buffer) (\<lambda>_.
     fs_then (fs_append io (k + 3) path chunk) (\<lambda>_. Pair (Ok (k + 4))))))"

fun stream_loop ::
  "fault_schedule \<Rightarrow> nat \<Rightarrow> string \<Rightarrow> (string, string) result list \<Rightarrow> nat \<Rightarrow> string \<Rightarrow> bool
   \<Rightarrow> (nat \<times> string \<times> bool) fs_op" where
  "stream_loop io limit path [] k buffer spilled = Pair (Ok (k, buffer, spilled))"
| "stream_loop io limit path (Inl e # reads) k buffer spilled = Pair (Err e)"
| "stream_loop io limit path (Inr chunk # reads) k buffer spilled =
     (if chunk = [] then Pair (Ok (k, buffer, spilled))
      else if spilled then
        fs_then (fs_append io k path chunk)
          (\<lambda>_. stream_loop io limit path reads (k + 1) buffer True)
      else if length buffer + length chunk \<le> limit then
        stream_loop io limit path reads k (buffer @ chunk) False
      else fs_then (spill_begin io k path buffer chunk)
          (\<lambda>k. stream_loop io limit path reads k [] True))"

text \<open>The closing \<^verbatim>\<open>flush\<close> and \<^verbatim>\<open>metadata\<close> calls on the spilled file.\<close>

definition spill_finish :: "fault_schedule \<Rightarrow> nat \<Rightarrow> string \<Rightarrow> nat fs_op" where
  "spill_finish io k path =
     fs_then (fs_mkdir io k) (\<lambda>_. fs_then (fs_mkdir io (k + 1))
       (\<lambda>_ fs. (Ok (length (unwrap_or (fs path) [])), fs)))"

definition stream_inline_limit :: "blob_config \<Rightarrow> nat" where
  "stream_inline_limit cfg = unat (min (bc_inline_max_bytes cfg) (bc_request_hot_budget_bytes cfg))"

definition store_stream ::
  "blob_runtime \<Rightarrow> fault_schedule \<Rightarrow> (string, string) result list \<Rightarrow> string \<Rightarrow> blob_handle blob_result" where
  "store_stream rt io reads mime =
     (let (i, rt) = next_id rt; path = spill_path (br_cfg rt) i in
      case stream_loop io (stream_inline_limit (br_cfg rt)) path reads 0 [] False (br_fs rt) of
        (Err e, fs) \<Rightarrow> (Err e, rt\<lparr>br_fs := fs\<rparr>)
      | (Ok (k, buffer, spilled), fs) \<Rightarrow>
          if spilled then
            (case spill_finish io k path fs of
               (Err e, fs) \<Rightarrow> (Err e, rt\<lparr>br_fs := fs\<rparr>)
             | (Ok len, fs) \<Rightarrow>
                 (let rt = record_spill (of_nat len) (rt\<lparr>br_fs := fs\<rparr>);
                      (h, rt) = build_handle rt i mime (of_nat len) (Spilled path)
                  in (Ok h, rt)))
          else place_bytes (rt\<lparr>br_fs := fs\<rparr>) (\<lambda>n. io (k + n)) i buffer mime)"

section \<open>Reading and removing\<close>

definition read_bytes :: "blob_runtime \<Rightarrow> fault_schedule \<Rightarrow> blob_handle \<Rightarrow> (string, string) result" where
  "read_bytes rt io h =
     (case bh_storage h of
        Inline bytes \<Rightarrow> Ok bytes
      | Shared bytes \<Rightarrow> Ok bytes
      | Spilled path \<Rightarrow>
          (case io 0 of
             Some (e, _) \<Rightarrow> Err e
           | None \<Rightarrow> (case br_fs rt path of None \<Rightarrow> Err ''No such file or directory'' | Some b \<Rightarrow> Ok b)))"

text \<open>
  \<^verbatim>\<open>open_reader\<close> and the reads on it: \<open>chunker\<close> says how the content is cut into reads, of
  which one may fail.
\<close>

type_synonym chunker = "string \<Rightarrow> (string, string) result list"

definition open_reader ::
  "chunker \<Rightarrow> blob_runtime \<Rightarrow> fault_schedule \<Rightarrow> blob_handle
   \<Rightarrow> (string, (string, string) result list) result" where
  "open_reader chunker rt io h =
     (case read_bytes rt io h of Err e \<Rightarrow> Err e | Ok bytes \<Rightarrow> Ok (chunker bytes))"

definition remove_blob :: "blob_runtime \<Rightarrow> fault_schedule \<Rightarrow> blob_handle \<Rightarrow> unit blob_result" where
  "remove_blob rt io h =
     (if bh_id h \<in> br_removed rt then (Ok (), rt)
      else
        (let rt = rt\<lparr>br_removed := insert (bh_id h) (br_removed rt)\<rparr> in
         case bh_storage h of
           Inline bytes \<Rightarrow> (Ok (), release_inline_bytes rt (of_nat (length bytes)))
         | Shared _ \<Rightarrow> (Ok (), rt)
         | Spilled path \<Rightarrow>
             (if br_fs rt path = None then (Ok (), rt)
              else (case io 0 of
                  Some (e, _) \<Rightarrow> (Err e, rt)
                | None \<Rightarrow> (Ok (), rt\<lparr>br_fs := (br_fs rt)(path := None)\<rparr>)))))"

definition is_inline :: "blob_handle \<Rightarrow> bool" where
  "is_inline h = (case bh_storage h of Inline _ \<Rightarrow> True | Shared _ \<Rightarrow> True | Spilled _ \<Rightarrow> False)"

definition is_spilled :: "blob_handle \<Rightarrow> bool" where
  "is_spilled h = (case bh_storage h of Spilled _ \<Rightarrow> True | _ \<Rightarrow> False)"

definition stats_snapshot :: "blob_runtime \<Rightarrow> u64 \<times> u64" where
  "stats_snapshot rt = (br_spill_count rt, br_spill_bytes_total rt)"

section \<open>What a store does\<close>

lemma try_inline_reserveD:
  assumes "try_inline_reserve rt sz = (True, rt')"
  shows "rt' = rt\<lparr>br_global_hot_bytes := br_global_hot_bytes rt + sz\<rparr>"
    and "unat (br_global_hot_bytes rt') = unat (br_global_hot_bytes rt) + unat sz"
    and "br_global_hot_bytes rt' \<le> bc_global_hot_budget_bytes (br_cfg rt)"
    and "sz \<le> bc_inline_max_bytes (br_cfg rt)" "sz \<le> bc_request_hot_budget_bytes (br_cfg rt)"
proof -
  from assms obtain nxt where nxt: "checked_add (br_global_hot_bytes rt) sz = Some nxt"
    "nxt \<le> bc_global_hot_budget_bytes (br_cfg rt)" "rt' = rt\<lparr>br_global_hot_bytes := nxt\<rparr>"
    "sz \<le> bc_inline_max_bytes (br_cfg rt)" "sz \<le> bc_request_hot_budget_bytes (br_cfg rt)"
    by (auto simp: try_inline_reserve_def not_less split: if_splits option.splits)
  then show "rt' = rt\<lparr>br_global_hot_bytes := br_global_hot_bytes rt + sz\<rparr>"
    "unat (br_global_hot_bytes rt') = unat (br_global_hot_bytes rt) + unat sz"
    "br_global_hot_bytes rt' \<le> bc_global_hot_budget_bytes (br_cfg rt)"
    "sz \<le> bc_inline_max_bytes (br_cfg rt)" "sz \<le> bc_request_hot_budget_bytes (br_cfg rt)"
    using checked_add_SomeD [OF nxt(1)] by (auto simp: checked_add_def split: if_splits)
qed

lemma try_inline_reserve_False: "try_inline_reserve rt sz = (False, rt') \<Longrightarrow> rt' = rt"
  by (auto simp: try_inline_reserve_def split: if_splits option.splits)

text \<open>From \<open>rt\<close> to \<open>rt'\<close> the bytes became the blob \<open>h\<close>, and nothing else changed.\<close>

definition stored_as :: "blob_runtime \<Rightarrow> blob_runtime \<Rightarrow> blob_handle \<Rightarrow> string \<Rightarrow> bool" where
  "stored_as rt rt' h bytes \<longleftrightarrow>
     bh_id h = br_next_id rt \<and> bh_size_bytes h = of_nat (length bytes)
     \<and> br_cfg rt' = br_cfg rt \<and> br_next_id rt' = br_next_id rt + 1
     \<and> br_removed rt' = br_removed rt - {bh_id h}
     \<and> (\<forall>p. p \<noteq> spill_path (br_cfg rt) (bh_id h) \<longrightarrow> br_fs rt' p = br_fs rt p)
     \<and> (case bh_storage h of
          Inline b \<Rightarrow> b = bytes
            \<and> unat (br_global_hot_bytes rt') = unat (br_global_hot_bytes rt) + length bytes
            \<and> br_global_hot_bytes rt' \<le> bc_global_hot_budget_bytes (br_cfg rt)
        | Shared b \<Rightarrow> b = bytes \<and> br_global_hot_bytes rt' = br_global_hot_bytes rt
        | Spilled p \<Rightarrow> p = spill_path (br_cfg rt) (bh_id h) \<and> br_fs rt' p = Some bytes
            \<and> br_global_hot_bytes rt' = br_global_hot_bytes rt)"

text \<open>A store that failed used up an id and may have left a file of that id.\<close>

definition store_failed :: "blob_runtime \<Rightarrow> blob_runtime \<Rightarrow> bool" where
  "store_failed rt rt' \<longleftrightarrow>
     br_cfg rt' = br_cfg rt \<and> br_next_id rt' = br_next_id rt + 1
     \<and> br_removed rt' = br_removed rt \<and> br_global_hot_bytes rt' = br_global_hot_bytes rt
     \<and> (\<forall>p. p \<noteq> spill_path (br_cfg rt) (br_next_id rt) \<longrightarrow> br_fs rt' p = br_fs rt p)"

lemma touches_only_write_spilled: "touches_only path (write_spilled_bytes io path bytes)"
  by (simp add: write_spilled_bytes_def touches_only_then touches_only_ops)

lemma touches_onlyD: "touches_only path m \<Longrightarrow> m fs = (r, fs') \<Longrightarrow> p \<noteq> path \<Longrightarrow> fs' p = fs p"
  by (metis snd_conv touches_only_def)

lemma write_spilled_bytes_Ok:
  "write_spilled_bytes io path bytes fs = (Ok x, fs') \<Longrightarrow> fs' path = Some bytes"
  by (auto simp: write_spilled_bytes_def fs_then_def fs_mkdir_def fs_write_def split: option.splits)

lemma place_bytes_Ok:
  assumes "place_bytes (rt\<lparr>br_next_id := br_next_id rt + 1, br_fs := fs\<rparr>) io (br_next_id rt) bytes mime
      = (Ok h, rt')"
    and small: "length bytes < 2 ^ 64"
    and fs: "\<And>p. p \<noteq> spill_path (br_cfg rt) (br_next_id rt) \<Longrightarrow> fs p = br_fs rt p"
  shows "stored_as rt rt' h bytes \<and> bh_mime_type h = mime"
proof -
  let ?rt1 = "rt\<lparr>br_next_id := br_next_id rt + 1, br_fs := fs\<rparr>"
  let ?path = "spill_path (br_cfg rt) (br_next_id rt)"
  obtain ok rt2 where res: "try_inline_reserve ?rt1 (of_nat (length bytes)) = (ok, rt2)"
    by (cases "try_inline_reserve ?rt1 (of_nat (length bytes))")
  show ?thesis
  proof (cases ok)
    case True
    with res have "try_inline_reserve ?rt1 (of_nat (length bytes)) = (True, rt2)" by simp
    note r = try_inline_reserveD [OF this]
    show ?thesis
      using assms(1) True res r small fs
      by (auto simp: place_bytes_def build_handle_def stored_as_def Let_def)
  next
    case False
    with res have rt2: "rt2 = ?rt1" by (simp add: try_inline_reserve_False)
    obtain r fs' where w: "write_spilled_bytes io ?path bytes fs = (r, fs')"
      by (cases "write_spilled_bytes io ?path bytes fs")
    have other: "fs' p = br_fs rt p" if "p \<noteq> ?path" for p
      using touches_onlyD [OF touches_only_write_spilled w that] fs [OF that] by simp
    have "fs' ?path = Some bytes" if "r = Ok x" for x
      using write_spilled_bytes_Ok w that by blast
    then show ?thesis
      using assms(1) False res rt2 w other
      by (auto simp: place_bytes_def build_handle_def record_spill_def stored_as_def Let_def
          split: sum.splits)
  qed
qed

lemma place_bytes_Err:
  assumes "place_bytes (rt\<lparr>br_next_id := br_next_id rt + 1, br_fs := fs\<rparr>) io (br_next_id rt) bytes mime
      = (Err e, rt')"
    and fs: "\<And>p. p \<noteq> spill_path (br_cfg rt) (br_next_id rt) \<Longrightarrow> fs p = br_fs rt p"
  shows "store_failed rt rt'"
proof -
  let ?rt1 = "rt\<lparr>br_next_id := br_next_id rt + 1, br_fs := fs\<rparr>"
  let ?path = "spill_path (br_cfg rt) (br_next_id rt)"
  obtain ok rt2 where res: "try_inline_reserve ?rt1 (of_nat (length bytes)) = (ok, rt2)"
    by (cases "try_inline_reserve ?rt1 (of_nat (length bytes))")
  have no: "\<not> ok"
    using assms(1) res by (auto simp: place_bytes_def build_handle_def)
  with res have rt2: "rt2 = ?rt1" by (simp add: try_inline_reserve_False)
  obtain r fs' where w: "write_spilled_bytes io ?path bytes fs = (r, fs')"
    by (cases "write_spilled_bytes io ?path bytes fs")
  have "fs' p = br_fs rt p" if "p \<noteq> ?path" for p
    using touches_onlyD [OF touches_only_write_spilled w that] fs [OF that] by simp
  then show ?thesis
    using assms(1) no res rt2 w
    by (auto simp: place_bytes_def build_handle_def record_spill_def store_failed_def Let_def
        split: sum.splits)
qed

lemma store_bytes_eq:
  "store_bytes rt io bytes mime =
     place_bytes (rt\<lparr>br_next_id := br_next_id rt + 1, br_fs := br_fs rt\<rparr>) io (br_next_id rt) bytes mime"
  by (simp add: store_bytes_def next_id_def)

lemma store_bytes_Ok:
  assumes "store_bytes rt io bytes mime = (Ok h, rt')" "length bytes < 2 ^ 64"
  shows "stored_as rt rt' h bytes \<and> bh_mime_type h = mime"
  using assms by (intro place_bytes_Ok) (auto simp only: store_bytes_eq)

lemma store_bytes_Err: "store_bytes rt io bytes mime = (Err e, rt') \<Longrightarrow> store_failed rt rt'"
  by (rule place_bytes_Err) (auto simp only: store_bytes_eq)

lemma store_shared_eq: "store_shared_bytes = store_bytes"
  by (intro ext) (simp add: store_shared_bytes_def store_bytes_def)

lemma store_external_Ok:
  "store_external_shared_bytes rt bytes mime = (Ok h, rt') \<Longrightarrow> stored_as rt rt' h bytes \<and> bh_mime_type h = mime"
  by (auto simp: store_external_shared_bytes_def next_id_def build_handle_def stored_as_def)

lemma store_external_not_Err: "store_external_shared_bytes rt bytes mime \<noteq> (Err e, rt')"
  by (simp add: store_external_shared_bytes_def next_id_def build_handle_def)

section \<open>Streams\<close>

text \<open>The bytes a sequence of reads delivers, and whether it ends without an error.\<close>

fun stream_content :: "(string, string) result list \<Rightarrow> string option" where
  "stream_content [] = Some []"
| "stream_content (Inl e # reads) = None"
| "stream_content (Inr c # reads) =
     (if c = [] then Some [] else map_option (\<lambda>s. c @ s) (stream_content reads))"

lemma touches_only_spill_begin: "touches_only path (spill_begin io k path buffer chunk)"
  by (auto simp: spill_begin_def touches_only_def [of path "Pair _"]
      intro!: touches_only_then touches_only_ops)

lemma touches_only_stream_loop: "touches_only path (stream_loop io limit path reads k buffer sp)"
  by (induction io limit path reads k buffer sp rule: stream_loop.induct)
    (auto simp: touches_only_def [of _ "Pair _"]
      intro!: touches_only_then touches_only_ops touches_only_spill_begin)

lemma spill_begin_Ok:
  "spill_begin io k path buffer chunk fs = (Ok k', fs') \<Longrightarrow> fs' path = Some (buffer @ chunk)"
  by (auto simp: spill_begin_def fs_then_def fs_mkdir_def fs_write_def fs_append_def
      split: option.splits if_splits)

text \<open>
  The loop's invariant: what was read so far is the buffer or, once spilled, the file. The loop
  spills exactly when the content is longer than the limit.
\<close>

lemma stream_loop_Ok:
  assumes "stream_loop io limit path reads k buffer sp fs = (Ok (k', buffer', sp'), fs')"
    and "sp \<Longrightarrow> buffer = [] \<and> fs path = Some before \<and> limit < length before"
    and "\<not> sp \<Longrightarrow> before = buffer \<and> length buffer \<le> limit"
  shows "\<exists>content. stream_content reads = Some content
    \<and> (sp' \<longleftrightarrow> limit < length (before @ content))
    \<and> (if sp' then buffer' = [] \<and> fs' path = Some (before @ content) else buffer' = before @ content)"
  using assms
proof (induction io limit path reads k buffer sp arbitrary: fs before rule: stream_loop.induct)
  case (1 io limit path k buffer spilled)
  then show ?case by (cases spilled) auto
next
  case (2 io limit path e reads k buffer spilled)
  then show ?case by simp
next
  case (3 io limit path chunk reads k buffer spilled)
  show ?case
  proof (cases "chunk = []")
    case True
    with 3 show ?thesis by (cases spilled) auto
  next
    case chunk: False
    consider (spilled) spilled | (fits) "\<not> spilled" "length buffer + length chunk \<le> limit"
      | (start) "\<not> spilled" "limit < length buffer + length chunk" by linarith
    then show ?thesis
    proof cases
      case spilled
      obtain r fs1 where a: "fs_append io k path chunk fs = (r, fs1)"
        by (cases "fs_append io k path chunk fs")
      with 3 chunk spilled obtain u where r: "r = Ok u"
        by (cases r) (auto simp: fs_then_def)
      with a 3 spilled have "fs1 path = Some (before @ chunk)"
        by (auto simp: fs_append_def split: option.splits)
      with 3 chunk spilled a r show ?thesis
        by (fastforce simp: fs_then_def dest!: "3.IH"(1) [where before = "before @ chunk" and fs = fs1, rotated 2])
    next
      case fits
      with 3 chunk show ?thesis
        by (fastforce dest!: "3.IH"(2) [where before = "before @ chunk", rotated 3])
    next
      case start
      obtain r fs1 where a: "spill_begin io k path buffer chunk fs = (r, fs1)"
        by (cases "spill_begin io k path buffer chunk fs")
      with 3 chunk start obtain k1 where r: "r = Ok k1"
        by (cases r) (auto simp: fs_then_def)
      with a 3 start have "fs1 path = Some (before @ chunk)"
        by (auto dest: spill_begin_Ok)
      with 3 chunk start a r show ?thesis
        by (fastforce simp: fs_then_def dest!: "3.IH"(3) [where before = "before @ chunk" and fs = fs1, rotated 3])
    qed
  qed
qed

lemma spill_finish_Ok:
  "spill_finish io k path fs = (Ok len, fs') \<Longrightarrow> fs' = fs \<and> len = length (unwrap_or (fs path) [])"
  by (auto simp: spill_finish_def fs_then_def fs_mkdir_def split: option.splits)

lemma spill_finish_fs: "spill_finish io k path fs = (r, fs') \<Longrightarrow> fs' = fs"
  by (auto simp: spill_finish_def fs_then_def fs_mkdir_def split: option.splits)

lemma store_stream_Ok:
  assumes "store_stream rt io reads mime = (Ok h, rt')"
  shows "\<exists>bytes. stream_content reads = Some bytes
    \<and> (length bytes < 2 ^ 64 \<longrightarrow> stored_as rt rt' h bytes \<and> bh_mime_type h = mime)"
proof -
  let ?path = "spill_path (br_cfg rt) (br_next_id rt)"
  let ?limit = "stream_inline_limit (br_cfg rt)"
  obtain r fs1 where loop: "stream_loop io ?limit ?path reads 0 [] False (br_fs rt) = (r, fs1)"
    by (cases "stream_loop io ?limit ?path reads 0 [] False (br_fs rt)")
  with assms obtain k buffer sp where r: "r = Ok (k, buffer, sp)"
    by (cases r) (auto simp: store_stream_def next_id_def Let_def)
  obtain bytes where c: "stream_content reads = Some bytes" "sp \<longleftrightarrow> ?limit < length bytes"
    and b: "if sp then buffer = [] \<and> fs1 ?path = Some bytes else buffer = bytes"
    using stream_loop_Ok [OF loop [unfolded r], of "[]"] by auto
  have other: "fs1 p = br_fs rt p" if "p \<noteq> ?path" for p
    using touches_onlyD [OF touches_only_stream_loop loop that] .
  have "stored_as rt rt' h bytes \<and> bh_mime_type h = mime" if small: "length bytes < 2 ^ 64"
  proof (cases sp)
    case True
    obtain f fs2 where f: "spill_finish io k ?path fs1 = (f, fs2)"
      by (cases "spill_finish io k ?path fs1")
    with assms loop r True obtain len where "f = Ok len"
      by (cases f) (auto simp: store_stream_def next_id_def Let_def)
    with spill_finish_Ok f b True have "fs2 = fs1" "f = Ok (length bytes)" by fastforce+
    with assms loop r True f b other show ?thesis
      by (auto simp: store_stream_def next_id_def Let_def build_handle_def record_spill_def stored_as_def)
  next
    case False
    with assms loop r b
    have "place_bytes (rt\<lparr>br_next_id := br_next_id rt + 1, br_fs := fs1\<rparr>) (\<lambda>n. io (k + n))
        (br_next_id rt) bytes mime = (Ok h, rt')"
      by (simp add: store_stream_def next_id_def)
    with small other show ?thesis by (intro place_bytes_Ok)
  qed
  with c show ?thesis by blast
qed

lemma store_stream_Err:
  assumes "store_stream rt io reads mime = (Err e, rt')"
  shows "store_failed rt rt'"
proof -
  let ?path = "spill_path (br_cfg rt) (br_next_id rt)"
  let ?limit = "stream_inline_limit (br_cfg rt)"
  obtain r fs1 where loop: "stream_loop io ?limit ?path reads 0 [] False (br_fs rt) = (r, fs1)"
    by (cases "stream_loop io ?limit ?path reads 0 [] False (br_fs rt)")
  have other: "fs1 p = br_fs rt p" if "p \<noteq> ?path" for p
    using touches_onlyD [OF touches_only_stream_loop loop that] .
  show ?thesis
  proof (cases r)
    case (Inl e')
    with assms loop other show ?thesis
      by (auto simp: store_stream_def next_id_def Let_def store_failed_def)
  next
    case (Inr x)
    then obtain k buffer sp where r: "r = Ok (k, buffer, sp)" by (cases x) auto
    show ?thesis
    proof (cases sp)
      case True
      obtain f fs2 where f: "spill_finish io k ?path fs1 = (f, fs2)"
        by (cases "spill_finish io k ?path fs1")
      with assms loop r True other spill_finish_fs [OF f] show ?thesis
        by (auto simp: store_stream_def next_id_def Let_def build_handle_def store_failed_def
            split: sum.splits)
    next
      case False
      with assms loop r
      have "place_bytes (rt\<lparr>br_next_id := br_next_id rt + 1, br_fs := fs1\<rparr>) (\<lambda>n. io (k + n))
          (br_next_id rt) buffer mime = (Err e, rt')"
        by (simp add: store_stream_def next_id_def)
      with other show ?thesis by (intro place_bytes_Err)
    qed
  qed
qed

text \<open>Without faults, streaming in any chunks is storing the whole at once.\<close>

lemma stream_loop_no_faults:
  assumes "stream_content reads = Some content"
    and "sp \<Longrightarrow> buffer = [] \<and> fs path = Some before \<and> limit < length before"
    and "\<not> sp \<Longrightarrow> before = buffer \<and> length buffer \<le> limit"
  shows "\<exists>k'. stream_loop no_faults limit path reads k buffer sp fs =
    (if limit < length (before @ content) then (Ok (k', [], True), fs(path \<mapsto> before @ content))
     else (Ok (k', before @ content, False), fs))"
  using assms
proof (induction no_faults limit path reads k buffer sp arbitrary: fs before content
    rule: stream_loop.induct)
  case (1 limit path k buffer spilled)
  then show ?case by (cases spilled) (auto simp: fun_upd_idem)
next
  case (2 limit path e reads k buffer spilled)
  then show ?case by simp
next
  case (3 limit path chunk reads k buffer spilled)
  show ?case
  proof (cases "chunk = []")
    case True
    with 3 show ?thesis by (cases spilled) (auto simp: fun_upd_idem)
  next
    case chunk: False
    with "3.prems"(1) obtain rest where rest: "stream_content reads = Some rest" "content = chunk @ rest"
      by auto
    consider (spilled) spilled | (fits) "\<not> spilled" "length buffer + length chunk \<le> limit"
      | (start) "\<not> spilled" "limit < length buffer + length chunk" by linarith
    then show ?thesis
    proof cases
      case spilled
      with 3 chunk rest show ?thesis
        using "3.hyps"(1) [OF chunk spilled rest(1), of "fs(path \<mapsto> before @ chunk)" "before @ chunk"]
        by (auto simp: fs_then_def fs_append_def no_faults_def)
    next
      case fits
      have "\<exists>k'. stream_loop no_faults limit path reads k (buffer @ chunk) False fs =
        (if limit < length ((buffer @ chunk) @ rest)
         then (Ok (k', [], True), fs(path \<mapsto> (buffer @ chunk) @ rest))
         else (Ok (k', (buffer @ chunk) @ rest, False), fs))"
        by (rule "3.hyps"(2) [OF chunk fits rest(1)]) (use fits in auto)
      with "3.prems" chunk rest fits show ?thesis
        by (cases "limit < length buffer + (length chunk + length rest)") simp_all
    next
      case start
      have beg: "spill_begin no_faults k path buffer chunk fs = (Ok (k + 4), fs(path \<mapsto> buffer @ chunk))"
        by (simp add: spill_begin_def fs_then_def fs_mkdir_def fs_write_def fs_append_def no_faults_def)
      have "\<not> length buffer + length chunk \<le> limit" using start by simp
      with 3 chunk rest start beg show ?thesis
        using "3.hyps"(3) [OF chunk start(1) _ rest(1), of "fs(path \<mapsto> buffer @ chunk)" "buffer @ chunk"]
        by (auto simp: fs_then_def)
    qed
  qed
qed

lemma unat_min_u64: "unat (min a b :: u64) = min (unat a) (unat b)"
  by (simp add: min_def word_le_nat_alt)

lemma store_stream_eq_store_bytes:
  assumes "stream_content reads = Some bytes" and small: "length bytes < 2 ^ 64"
  shows "store_stream rt no_faults reads mime = store_bytes rt no_faults bytes mime"
proof -
  let ?path = "spill_path (br_cfg rt) (br_next_id rt)"
  let ?limit = "stream_inline_limit (br_cfg rt)"
  obtain k where loop: "stream_loop no_faults ?limit ?path reads 0 [] False (br_fs rt) =
    (if ?limit < length bytes then (Ok (k, [], True), (br_fs rt)(?path \<mapsto> bytes))
     else (Ok (k, bytes, False), br_fs rt))"
    using stream_loop_no_faults [OF assms(1), of False "[]" "br_fs rt" ?path "[]" ?limit 0] by auto
  have nf: "(\<lambda>n. no_faults (k + n)) = no_faults" by (simp add: no_faults_def)
  show ?thesis
  proof (cases "?limit < length bytes")
    case True
    then have "try_inline_reserve r (of_nat (length bytes)) = (False, r)" if "br_cfg r = br_cfg rt" for r
      using small that
      by (auto simp: try_inline_reserve_def stream_inline_limit_def unat_min_u64 word_less_nat_alt
          min_def split: if_splits)
    with True loop show ?thesis
      by (simp add: store_stream_def store_bytes_def next_id_def place_bytes_def Let_def
          spill_finish_def fs_then_def fs_mkdir_def write_spilled_bytes_def fs_write_def
          no_faults_def)
  next
    case False
    with loop show ?thesis
      by (simp add: store_stream_def store_bytes_def next_id_def nf)
  qed
qed

end
