(* ===== verification/Blob_Safety.thy ===== *)
theory Blob_Safety
  imports Blob_Runtime
begin

text \<open>
  What the blob store promises. The invariant \<open>blob_inv\<close> ties the counter of hot bytes to the
  blobs that are alive; every operation keeps it. The interface \<open>blob_store\<close> is what the
  clients (request images, encoded bodies) rely on, interpreted on the store itself. The last
  section runs the reservation loop in many tasks at once.
\<close>

section \<open>Invariant\<close>

definition hot_len :: "blob_handle \<Rightarrow> nat" where
  "hot_len h = (case bh_storage h of Inline b \<Rightarrow> length b | _ \<Rightarrow> 0)"

text \<open>What reading the blob yields when no file operation fails.\<close>

definition blob_content :: "blob_runtime \<Rightarrow> blob_handle \<Rightarrow> string option" where
  "blob_content rt h = (case read_bytes rt no_faults h of Err _ \<Rightarrow> None | Ok b \<Rightarrow> Some b)"

definition handle_ok :: "blob_runtime \<Rightarrow> blob_handle \<Rightarrow> bool" where
  "handle_ok rt h \<longleftrightarrow>
     unat (bh_id h) < unat (br_next_id rt) \<and> bh_id h \<notin> br_removed rt
     \<and> (case blob_content rt h of None \<Rightarrow> False
        | Some b \<Rightarrow> length b < 2 ^ 64 \<and> bh_size_bytes h = of_nat (length b))
     \<and> (case bh_storage h of Spilled p \<Rightarrow> p = spill_path (br_cfg rt) (bh_id h) | _ \<Rightarrow> True)"

text \<open>The blobs alive, their ids, and the bytes they hold in memory.\<close>

definition blob_inv :: "blob_runtime \<Rightarrow> blob_handle set \<Rightarrow> bool" where
  "blob_inv rt H \<longleftrightarrow>
     finite H \<and> inj_on bh_id H \<and> (\<forall>h \<in> H. handle_ok rt h)
     \<and> unat (br_global_hot_bytes rt) = (\<Sum>h \<in> H. hot_len h)
     \<and> br_global_hot_bytes rt \<le> bc_global_hot_budget_bytes (br_cfg rt)"

text \<open>At least this many ids are left before the 64 bit id counter wraps.\<close>

definition ids_left :: "nat \<Rightarrow> blob_runtime \<Rightarrow> bool" where
  "ids_left n rt \<longleftrightarrow> unat (br_next_id rt) + n < 2 ^ 64"

lemma blob_content_simps:
  "bh_storage h = Inline b \<Longrightarrow> blob_content rt h = Some b"
  "bh_storage h = Shared b \<Longrightarrow> blob_content rt h = Some b"
  "bh_storage h = Spilled p \<Longrightarrow> blob_content rt h = br_fs rt p"
  by (auto simp: blob_content_def read_bytes_def no_faults_def split: option.splits)

lemma spill_path_inject: "spill_path cfg i = spill_path cfg j \<longleftrightarrow> i = j"
  by (simp add: spill_path_def show_nat_inject word_unat_eq_iff)

lemma blob_inv_new: "blob_inv (blob_runtime_new cfg fs) {}"
  by (simp add: blob_inv_def blob_runtime_new_def)

lemma ids_left_mono: "ids_left n rt \<Longrightarrow> m \<le> n \<Longrightarrow> ids_left m rt"
  by (simp add: ids_left_def)

text \<open>
  A change that takes the next id, leaves the other files alone and keeps the ids of \<open>H\<close>
  unremoved keeps every blob of \<open>H\<close> readable with the same content.
\<close>

lemma other_content:
  assumes "handle_ok rt h" "br_cfg rt' = br_cfg rt" "i \<noteq> bh_id h"
    and "\<And>p. p \<noteq> spill_path (br_cfg rt) i \<Longrightarrow> br_fs rt' p = br_fs rt p"
  shows "blob_content rt' h = blob_content rt h"
proof (cases "bh_storage h")
  case (Spilled p)
  with assms(1) have "p = spill_path (br_cfg rt) (bh_id h)" by (simp add: handle_ok_def)
  with assms(3) have "p \<noteq> spill_path (br_cfg rt) i" by (simp add: spill_path_inject)
  with Spilled assms(4) show ?thesis by (simp add: blob_content_simps)
qed (simp_all add: blob_content_simps)

lemma other_handle_ok:
  assumes ok: "handle_ok rt h" and "br_cfg rt' = br_cfg rt" "i \<noteq> bh_id h"
    and fs: "\<And>p. p \<noteq> spill_path (br_cfg rt) i \<Longrightarrow> br_fs rt' p = br_fs rt p"
    and "bh_id h \<notin> br_removed rt'" "unat (br_next_id rt) \<le> unat (br_next_id rt')"
  shows "handle_ok rt' h"
proof -
  have "blob_content rt' h = blob_content rt h"
    by (rule other_content [OF assms(1-3) fs])
  with assms show ?thesis by (auto simp: handle_ok_def split: blob_storage.splits)
qed

lemma fresh_id: "handle_ok rt h \<Longrightarrow> bh_id h \<noteq> br_next_id rt"
  by (auto simp: handle_ok_def)

text \<open>A successful store adds its blob and changes no other.\<close>

lemma stored_as_inv:
  assumes inv: "blob_inv rt H" and st: "stored_as rt rt' h bytes"
    and small: "length bytes < 2 ^ 64" and room: "ids_left 1 rt"
  shows "h \<notin> H \<and> blob_inv rt' (insert h H) \<and> blob_content rt' h = Some bytes
    \<and> (\<forall>g \<in> H. blob_content rt' g = blob_content rt g)"
proof -
  note st' = st [unfolded stored_as_def]
  have nx: "unat (br_next_id rt') = unat (br_next_id rt) + 1"
    using st' room by (simp add: ids_left_def unat_Suc_64)
  have i: "bh_id h = br_next_id rt" and cfg: "br_cfg rt' = br_cfg rt"
    and rem: "br_removed rt' = br_removed rt - {bh_id h}"
    and fs: "\<And>p. p \<noteq> spill_path (br_cfg rt) (bh_id h) \<Longrightarrow> br_fs rt' p = br_fs rt p"
    using st' by auto
  have other: "bh_id h \<noteq> bh_id g" "handle_ok rt' g" "blob_content rt' g = blob_content rt g"
    if "g \<in> H" for g
  proof -
    from that inv have g: "handle_ok rt g" by (simp add: blob_inv_def)
    from fresh_id [OF g] i show ne: "bh_id h \<noteq> bh_id g" by simp
    show "blob_content rt' g = blob_content rt g"
      by (rule other_content [OF g cfg ne fs])
    show "handle_ok rt' g"
      by (rule other_handle_ok [OF g cfg ne fs]) (use g rem nx in \<open>auto simp: handle_ok_def\<close>)
  qed
  have content: "blob_content rt' h = Some bytes"
    using st' by (auto simp: blob_content_simps split: blob_storage.splits)
  have hok: "handle_ok rt' h"
    using st' content small nx rem i by (auto simp: handle_ok_def split: blob_storage.splits)
  have hot: "unat (br_global_hot_bytes rt') = unat (br_global_hot_bytes rt) + hot_len h"
    using st' by (auto simp: hot_len_def split: blob_storage.splits)
  have budget: "br_global_hot_bytes rt' \<le> bc_global_hot_budget_bytes (br_cfg rt')"
    using st' inv by (auto simp: blob_inv_def split: blob_storage.splits)
  have notin: "h \<notin> H" using other(1) by blast
  have "blob_inv rt' (insert h H)"
    unfolding blob_inv_def
  proof (intro conjI)
    show "finite (insert h H)" using inv by (simp add: blob_inv_def)
    show "inj_on bh_id (insert h H)" using inv other(1) by (auto simp: blob_inv_def)
    show "\<forall>g \<in> insert h H. handle_ok rt' g" using hok other(2) by blast
    show "unat (br_global_hot_bytes rt') = (\<Sum>g \<in> insert h H. hot_len g)"
      using hot inv notin by (simp add: blob_inv_def)
  qed (rule budget)
  with notin content other(3) show ?thesis by blast
qed

lemma store_failed_inv:
  assumes inv: "blob_inv rt H" and st: "store_failed rt rt'" and room: "ids_left 1 rt"
  shows "blob_inv rt' H \<and> (\<forall>g \<in> H. blob_content rt' g = blob_content rt g)"
proof -
  note st' = st [unfolded store_failed_def]
  have nx: "unat (br_next_id rt') = unat (br_next_id rt) + 1"
    using st' room by (simp add: ids_left_def unat_Suc_64)
  have fs: "\<And>p. p \<noteq> spill_path (br_cfg rt) (br_next_id rt) \<Longrightarrow> br_fs rt' p = br_fs rt p"
    and cfg: "br_cfg rt' = br_cfg rt" using st' by auto
  have other: "handle_ok rt' g \<and> blob_content rt' g = blob_content rt g" if "g \<in> H" for g
  proof -
    from that inv have g: "handle_ok rt g" by (simp add: blob_inv_def)
    have "handle_ok rt' g"
      by (rule other_handle_ok [OF g cfg fresh_id [OF g, symmetric] fs])
        (use g st' nx in \<open>auto simp: handle_ok_def\<close>)
    with other_content [OF g cfg fresh_id [OF g, symmetric] fs] show ?thesis by simp
  qed
  then show ?thesis using inv st' by (auto simp: blob_inv_def)
qed

text \<open>Removing: the bytes are given back once, and no other blob is touched.\<close>

lemma remove_blob_state:
  assumes inv: "blob_inv rt H" and mem: "h \<in> H" and rm: "remove_blob rt io h = (r, rt')"
  shows "br_cfg rt' = br_cfg rt \<and> br_next_id rt' = br_next_id rt
    \<and> br_removed rt' = insert (bh_id h) (br_removed rt)
    \<and> (\<forall>p. p \<noteq> spill_path (br_cfg rt) (bh_id h) \<longrightarrow> br_fs rt' p = br_fs rt p)
    \<and> unat (br_global_hot_bytes rt') + hot_len h = unat (br_global_hot_bytes rt)
    \<and> unat (br_global_hot_bytes rt') \<le> unat (br_global_hot_bytes rt)"
proof -
  from inv mem have ok: "handle_ok rt h" and fin: "finite H" by (auto simp: blob_inv_def)
  have le: "hot_len h \<le> unat (br_global_hot_bytes rt)"
    using inv mem by (auto simp: blob_inv_def intro: member_le_sum)
  have sub: "unat (br_global_hot_bytes rt - of_nat (length b)) + hot_len h = unat (br_global_hot_bytes rt)"
    if "bh_storage h = Inline b" for b
  proof -
    have "length b < 2 ^ 64" using ok that by (auto simp: handle_ok_def blob_content_simps)
    moreover have "length b \<le> unat (br_global_hot_bytes rt)" using le that by (simp add: hot_len_def)
    ultimately have "(of_nat (length b) :: u64) \<le> br_global_hot_bytes rt"
      by (simp add: word_le_nat_alt)
    with \<open>length b < 2 ^ 64\<close> \<open>length b \<le> _\<close> that show ?thesis
      by (simp add: hot_len_def unat_sub_64)
  qed
  have nr: "bh_id h \<notin> br_removed rt" using ok by (simp add: handle_ok_def)
  show ?thesis
  proof (cases "bh_storage h")
    case (Inline b)
    with sub [OF Inline] rm nr show ?thesis
      by (auto simp: remove_blob_def release_inline_bytes_def Let_def)
  next
    case (Shared b)
    with rm nr show ?thesis by (auto simp: remove_blob_def hot_len_def Let_def)
  next
    case (Spilled p)
    with ok have "p = spill_path (br_cfg rt) (bh_id h)" by (simp add: handle_ok_def)
    with Spilled rm nr show ?thesis
      by (auto simp: remove_blob_def hot_len_def Let_def split: if_splits option.splits)
  qed
qed

lemma remove_blob_inv:
  assumes inv: "blob_inv rt H" and mem: "h \<in> H" and rm: "remove_blob rt io h = (r, rt')"
  shows "blob_inv rt' (H - {h}) \<and> (\<forall>g \<in> H - {h}. blob_content rt' g = blob_content rt g)
    \<and> br_next_id rt' = br_next_id rt"
proof -
  note st = remove_blob_state [OF assms]
  have cfg: "br_cfg rt' = br_cfg rt"
    and fs: "\<And>p. p \<noteq> spill_path (br_cfg rt) (bh_id h) \<Longrightarrow> br_fs rt' p = br_fs rt p"
    using st by auto
  have other: "handle_ok rt' g \<and> blob_content rt' g = blob_content rt g" if "g \<in> H - {h}" for g
  proof -
    from that inv have g: "handle_ok rt g" by (simp add: blob_inv_def)
    from that inv mem have ne: "bh_id h \<noteq> bh_id g" by (auto simp: blob_inv_def inj_on_def)
    have "handle_ok rt' g"
      by (rule other_handle_ok [OF g cfg ne fs]) (use g ne st in \<open>auto simp: handle_ok_def\<close>)
    with other_content [OF g cfg ne fs] show ?thesis by simp
  qed
  have "(\<Sum>g \<in> H. hot_len g) = hot_len h + (\<Sum>g \<in> H - {h}. hot_len g)"
    using inv mem by (intro sum.remove) (auto simp: blob_inv_def)
  then have "blob_inv rt' (H - {h})"
    using inv st other by (auto simp: blob_inv_def word_le_nat_alt intro: inj_on_subset)
  with other st show ?thesis by blast
qed

text \<open>A second removal of the same handle does nothing.\<close>

lemma remove_blob_twice:
  "remove_blob rt io h = (r, rt') \<Longrightarrow> remove_blob rt' io' h = (Ok (), rt')"
  by (auto simp: remove_blob_def release_inline_bytes_def Let_def
      split: if_splits blob_storage.splits option.splits)

section \<open>The interface of the store\<close>

locale blob_store =
  fixes inv :: "'rt \<Rightarrow> 'h set \<Rightarrow> bool"
    and room :: "nat \<Rightarrow> 'rt \<Rightarrow> bool"
    and content :: "'rt \<Rightarrow> 'h \<Rightarrow> string option"
    and hot :: "'rt \<Rightarrow> nat"
    and put :: "'rt \<Rightarrow> string \<Rightarrow> 'rt \<times> 'h option"
    and discard :: "'rt \<Rightarrow> 'h \<Rightarrow> 'rt"
  assumes put_Some: "inv rt H \<Longrightarrow> room 1 rt \<Longrightarrow> length b < 2 ^ 64 \<Longrightarrow> put rt b = (rt', Some h)
      \<Longrightarrow> h \<notin> H \<and> inv rt' (insert h H) \<and> content rt' h = Some b
          \<and> (\<forall>g \<in> H. content rt' g = content rt g)"
    and put_None: "inv rt H \<Longrightarrow> room 1 rt \<Longrightarrow> length b < 2 ^ 64 \<Longrightarrow> put rt b = (rt', None)
      \<Longrightarrow> inv rt' H \<and> (\<forall>g \<in> H. content rt' g = content rt g)"
    and put_room: "room (Suc n) rt \<Longrightarrow> put rt b = (rt', r) \<Longrightarrow> room n rt'"
    and room_mono: "room n rt \<Longrightarrow> m \<le> n \<Longrightarrow> room m rt"
    and discard_inv: "inv rt H \<Longrightarrow> h \<in> H \<Longrightarrow> inv (discard rt h) (H - {h})"
    and discard_content: "inv rt H \<Longrightarrow> h \<in> H \<Longrightarrow> g \<in> H - {h} \<Longrightarrow> content (discard rt h) g = content rt g"
    and hot_empty: "inv rt {} \<Longrightarrow> hot rt = 0"
begin

text \<open>Storing a list of contents; it stops at the first failure.\<close>

fun put_all :: "'rt \<Rightarrow> string list \<Rightarrow> 'rt \<times> 'h list \<times> bool" where
  "put_all rt [] = (rt, [], True)"
| "put_all rt (b # bs) =
     (case put rt b of
        (rt1, None) \<Rightarrow> (rt1, [], False)
      | (rt1, Some h) \<Rightarrow> (case put_all rt1 bs of (rt2, hs, ok) \<Rightarrow> (rt2, h # hs, ok)))"

lemma put_all_inv:
  assumes "inv rt H" "room (length bs) rt" "\<forall>b \<in> set bs. length b < 2 ^ 64"
    and "put_all rt bs = (rt', hs, ok)"
  shows "inv rt' (H \<union> set hs) \<and> set hs \<inter> H = {} \<and> distinct hs
    \<and> map (content rt') hs = map Some (take (length hs) bs) \<and> (ok \<longrightarrow> length hs = length bs)
    \<and> (\<forall>g \<in> H. content rt' g = content rt g)"
  using assms
proof (induction bs arbitrary: rt H rt' hs ok)
  case Nil
  then show ?case by simp
next
  case (Cons b bs)
  have room1: "room 1 rt" using Cons.prems(2) by (rule room_mono) simp
  obtain rt1 r where p: "put rt b = (rt1, r)" by (cases "put rt b")
  show ?case
  proof (cases r)
    case None
    with put_None [OF Cons.prems(1) room1] p Cons.prems show ?thesis by auto
  next
    case (Some h)
    have s: "h \<notin> H" "inv rt1 (insert h H)" "content rt1 h = Some b"
      "\<forall>g \<in> H. content rt1 g = content rt g"
      using put_Some [OF Cons.prems(1) room1, of b rt1 h] p Some Cons.prems(3) by auto
    obtain rt2 hs2 ok2 where a: "put_all rt1 bs = (rt2, hs2, ok2)" by (cases "put_all rt1 bs") auto
    with Cons.prems p Some have e: "rt' = rt2" "hs = h # hs2" "ok = ok2" by auto
    have "room (length bs) rt1" using put_room [of "length bs" rt b rt1 r] Cons.prems(2) p by simp
    with Cons.IH [OF s(2) _ _ a] Cons.prems(3) s e show ?thesis by auto
  qed
qed

lemma discard_all_inv:
  assumes "inv rt (H \<union> set hs)" "set hs \<inter> H = {}" "distinct hs"
  shows "inv (foldl discard rt hs) H \<and> (\<forall>g \<in> H. content (foldl discard rt hs) g = content rt g)"
  using assms
proof (induction hs arbitrary: rt)
  case (Cons h hs)
  have "inv (discard rt h) (H \<union> set (h # hs) - {h})"
    by (rule discard_inv) (use Cons.prems in auto)
  moreover have "H \<union> set (h # hs) - {h} = H \<union> set hs" using Cons.prems by auto
  ultimately have "inv (discard rt h) (H \<union> set hs)" by simp
  moreover have "content (discard rt h) g = content rt g" if "g \<in> H" for g
    by (rule discard_content [of rt "H \<union> set (h # hs)"]) (use Cons.prems that in auto)
  ultimately show ?case using Cons by auto
qed simp

text \<open>Storing and then discarding everything leaves no byte in memory.\<close>

lemma put_discard_hot:
  assumes "inv rt {}" "room (length bs) rt" "\<forall>b \<in> set bs. length b < 2 ^ 64"
    and "put_all rt bs = (rt', hs, ok)"
  shows "hot (foldl discard rt' hs) = 0"
  using put_all_inv [OF assms] discard_all_inv [of rt' "{}" hs] by (auto intro: hot_empty)

end

text \<open>The store of the program, with the faults and the type of the blob fixed.\<close>

definition runtime_put ::
  "fault_schedule \<Rightarrow> string \<Rightarrow> blob_runtime \<Rightarrow> string \<Rightarrow> blob_runtime \<times> blob_handle option" where
  "runtime_put io mime rt bytes =
     (case store_bytes rt io bytes mime of (Err _, rt') \<Rightarrow> (rt', None) | (Ok h, rt') \<Rightarrow> (rt', Some h))"

definition runtime_discard :: "fault_schedule \<Rightarrow> blob_runtime \<Rightarrow> blob_handle \<Rightarrow> blob_runtime" where
  "runtime_discard io rt h = snd (remove_blob rt io h)"

definition hot_bytes :: "blob_runtime \<Rightarrow> nat" where
  "hot_bytes rt = unat (br_global_hot_bytes rt)"

lemma stored_next: "stored_as rt rt' h b \<Longrightarrow> br_next_id rt' = br_next_id rt + 1"
  "store_failed rt rt' \<Longrightarrow> br_next_id rt' = br_next_id rt + 1"
  by (simp_all add: stored_as_def store_failed_def)

lemma place_bytes_next: "place_bytes rt io i b mime = (r, rt') \<Longrightarrow> br_next_id rt' = br_next_id rt"
  by (auto simp: place_bytes_def build_handle_def record_spill_def Let_def try_inline_reserve_def
      split: sum.splits prod.splits if_splits option.splits)

lemma store_bytes_next: "store_bytes rt io b mime = (r, rt') \<Longrightarrow> br_next_id rt' = br_next_id rt + 1"
  by (auto simp: store_bytes_def next_id_def dest: place_bytes_next)

interpretation program_store: blob_store blob_inv ids_left blob_content hot_bytes
  "runtime_put io mime" "runtime_discard io'"
proof unfold_locales
  fix rt H b rt' h
  assume "blob_inv rt H" "ids_left 1 rt" "length b < 2 ^ 64" "runtime_put io mime rt b = (rt', Some h)"
  then show "h \<notin> H \<and> blob_inv rt' (insert h H) \<and> blob_content rt' h = Some b
      \<and> (\<forall>g \<in> H. blob_content rt' g = blob_content rt g)"
    by (intro stored_as_inv)
      (auto simp: runtime_put_def dest: store_bytes_Ok split: prod.splits sum.splits)
next
  fix rt H b rt'
  assume "blob_inv rt H" "ids_left 1 rt" "runtime_put io mime rt b = (rt', None)"
  then show "blob_inv rt' H \<and> (\<forall>g \<in> H. blob_content rt' g = blob_content rt g)"
    by (intro store_failed_inv)
      (auto simp: runtime_put_def dest: store_bytes_Err split: prod.splits sum.splits)
next
  fix n rt b rt' r
  assume "ids_left (Suc n) rt" "runtime_put io mime rt b = (rt', r)"
  then show "ids_left n rt'"
    using store_bytes_next [of rt io b mime]
    by (auto simp: runtime_put_def ids_left_def unat_Suc_64 split: prod.splits sum.splits)
next
  fix rt H h
  assume "blob_inv rt H" "h \<in> H"
  then show "blob_inv (runtime_discard io' rt h) (H - {h})"
    using remove_blob_inv [of rt H h io'] by (metis prod.collapse runtime_discard_def)
next
  fix rt H h g
  assume "blob_inv rt H" "h \<in> H" "g \<in> H - {h}"
  then show "blob_content (runtime_discard io' rt h) g = blob_content rt g"
    using remove_blob_inv [of rt H h io'] by (metis prod.collapse runtime_discard_def)
next
  fix rt
  assume "blob_inv rt {}"
  then show "hot_bytes rt = 0" by (simp add: blob_inv_def hot_bytes_def)
qed (auto intro: ids_left_mono)

section \<open>Concurrent reservations\<close>

text \<open>
  Tasks run the loop of \<^verbatim>\<open>try_inline_reserve\<close> at the same time. One atomic access of the
  counter is one step: the load, the compare-and-exchange, and the release by \<^verbatim>\<open>remove\<close>.
\<close>

datatype reserver = Starting | Loaded u64 | Reserved | Refused | Released

record hot_state =
  hs_hot :: u64
  hs_tasks :: "nat \<Rightarrow> reserver"

definition admissible :: "blob_config \<Rightarrow> u64 \<Rightarrow> bool" where
  "admissible cfg sz \<longleftrightarrow> sz \<le> bc_inline_max_bytes cfg \<and> sz \<le> bc_request_hot_budget_bytes cfg"

inductive reserve_step ::
  "blob_config \<Rightarrow> (nat \<Rightarrow> u64) \<Rightarrow> nat \<Rightarrow> hot_state \<Rightarrow> hot_state \<Rightarrow> bool"
  for cfg :: blob_config and sz :: "nat \<Rightarrow> u64" and n :: nat
where
  too_big: "t < n \<Longrightarrow> hs_tasks s t = Starting \<Longrightarrow> \<not> admissible cfg (sz t)
    \<Longrightarrow> reserve_step cfg sz n s (s\<lparr>hs_tasks := (hs_tasks s)(t := Refused)\<rparr>)"
| load: "t < n \<Longrightarrow> hs_tasks s t = Starting \<Longrightarrow> admissible cfg (sz t)
    \<Longrightarrow> reserve_step cfg sz n s (s\<lparr>hs_tasks := (hs_tasks s)(t := Loaded (hs_hot s))\<rparr>)"
| overflow: "t < n \<Longrightarrow> hs_tasks s t = Loaded c \<Longrightarrow> checked_add c (sz t) = None
    \<Longrightarrow> reserve_step cfg sz n s (s\<lparr>hs_tasks := (hs_tasks s)(t := Refused)\<rparr>)"
| over_budget: "t < n \<Longrightarrow> hs_tasks s t = Loaded c \<Longrightarrow> checked_add c (sz t) = Some nxt
    \<Longrightarrow> bc_global_hot_budget_bytes cfg < nxt
    \<Longrightarrow> reserve_step cfg sz n s (s\<lparr>hs_tasks := (hs_tasks s)(t := Refused)\<rparr>)"
| exchange: "t < n \<Longrightarrow> hs_tasks s t = Loaded c \<Longrightarrow> checked_add c (sz t) = Some nxt
    \<Longrightarrow> nxt \<le> bc_global_hot_budget_bytes cfg \<Longrightarrow> hs_hot s = c
    \<Longrightarrow> reserve_step cfg sz n s \<lparr>hs_hot = nxt, hs_tasks = (hs_tasks s)(t := Reserved)\<rparr>"
| retry: "t < n \<Longrightarrow> hs_tasks s t = Loaded c \<Longrightarrow> checked_add c (sz t) = Some nxt
    \<Longrightarrow> nxt \<le> bc_global_hot_budget_bytes cfg \<Longrightarrow> hs_hot s \<noteq> c
    \<Longrightarrow> reserve_step cfg sz n s (s\<lparr>hs_tasks := (hs_tasks s)(t := Starting)\<rparr>)"
| release: "t < n \<Longrightarrow> hs_tasks s t = Reserved
    \<Longrightarrow> reserve_step cfg sz n s
          \<lparr>hs_hot = hs_hot s - sz t, hs_tasks = (hs_tasks s)(t := Released)\<rparr>"

definition reserve_start :: hot_state where
  "reserve_start = \<lparr>hs_hot = 0, hs_tasks = (\<lambda>_. Starting)\<rparr>"

definition holders :: "nat \<Rightarrow> hot_state \<Rightarrow> nat set" where
  "holders n s = {t. t < n \<and> hs_tasks s t = Reserved}"

definition reserved_bytes :: "(nat \<Rightarrow> u64) \<Rightarrow> nat \<Rightarrow> hot_state \<Rightarrow> nat" where
  "reserved_bytes sz n s = (\<Sum>t \<in> holders n s. unat (sz t))"

definition reserve_inv :: "blob_config \<Rightarrow> (nat \<Rightarrow> u64) \<Rightarrow> nat \<Rightarrow> hot_state \<Rightarrow> bool" where
  "reserve_inv cfg sz n s \<longleftrightarrow>
     unat (hs_hot s) = reserved_bytes sz n s \<and> hs_hot s \<le> bc_global_hot_budget_bytes cfg"

lemma finite_holders [simp]: "finite (holders n s)"
  by (simp add: holders_def)

lemma holders_other:
  "hs_tasks s t \<noteq> Reserved \<Longrightarrow> st \<noteq> Reserved
   \<Longrightarrow> holders n (s\<lparr>hs_tasks := (hs_tasks s)(t := st)\<rparr>) = holders n s"
  by (auto simp: holders_def)

lemma holders_exchange:
  "t < n \<Longrightarrow> hs_tasks s t \<noteq> Reserved
   \<Longrightarrow> holders n \<lparr>hs_hot = h, hs_tasks = (hs_tasks s)(t := Reserved)\<rparr> = insert t (holders n s)
       \<and> t \<notin> holders n s"
  by (auto simp: holders_def)

lemma holders_release:
  "holders n \<lparr>hs_hot = h, hs_tasks = (hs_tasks s)(t := Released)\<rparr> = holders n s - {t}"
  by (auto simp: holders_def)

lemma reserve_inv_step:
  assumes "reserve_step cfg sz n s s'" "reserve_inv cfg sz n s"
  shows "reserve_inv cfg sz n s'"
  using assms
proof (cases rule: reserve_step.cases)
  case (exchange t c nxt)
  then have "unat nxt = unat c + unat (sz t)" by (simp add: checked_add_SomeD)
  with exchange assms(2) holders_exchange [of t n s nxt] show ?thesis
    by (simp add: reserve_inv_def reserved_bytes_def)
next
  case (release t)
  then have mem: "t \<in> holders n s" by (simp add: holders_def)
  then have split: "reserved_bytes sz n s = unat (sz t) + (\<Sum>u \<in> holders n s - {t}. unat (sz u))"
    by (simp add: reserved_bytes_def sum.remove)
  with assms(2) have le: "sz t \<le> hs_hot s" by (simp add: reserve_inv_def word_le_nat_alt)
  with split release assms(2) show ?thesis
    by (auto simp: reserve_inv_def reserved_bytes_def holders_release unat_sub_64 word_le_nat_alt)
qed (auto simp: reserve_inv_def reserved_bytes_def holders_other)

lemma reserve_inv_start: "reserve_inv cfg sz n reserve_start"
  by (simp add: reserve_inv_def reserve_start_def reserved_bytes_def holders_def)

lemma reserve_inv_reachable:
  "(reserve_step cfg sz n)\<^sup>*\<^sup>* reserve_start s \<Longrightarrow> reserve_inv cfg sz n s"
  by (induction rule: rtranclp_induct) (auto intro: reserve_inv_start reserve_inv_step)

text \<open>The sequential definition is the run of one task with nothing in between.\<close>

lemma try_inline_reserve_refines:
  assumes "t < n" "hs_tasks s t = Starting" "hs_hot s = br_global_hot_bytes rt"
    and "try_inline_reserve rt (sz t) = (ok, rt')"
  shows "(reserve_step (br_cfg rt) sz n)\<^sup>*\<^sup>* s
    \<lparr>hs_hot = br_global_hot_bytes rt',
     hs_tasks = (hs_tasks s)(t := if ok then Reserved else Refused)\<rparr>"
proof (cases "admissible (br_cfg rt) (sz t)")
  case False
  with assms have "\<not> ok \<and> rt' = rt"
    by (auto simp: admissible_def try_inline_reserve_def not_le split: if_splits option.splits)
  with reserve_step.too_big [of t n s "br_cfg rt" sz] False assms show ?thesis
    by (cases s) (auto intro!: r_into_rtranclp)
next
  case True
  let ?s1 = "s\<lparr>hs_tasks := (hs_tasks s)(t := Loaded (hs_hot s))\<rparr>"
  have step1: "reserve_step (br_cfg rt) sz n s ?s1"
    using True assms by (intro reserve_step.load)
  have step2: "reserve_step (br_cfg rt) sz n ?s1
      \<lparr>hs_hot = br_global_hot_bytes rt', hs_tasks = (hs_tasks s)(t := if ok then Reserved else Refused)\<rparr>"
  proof (cases "checked_add (hs_hot s) (sz t)")
    case None
    with True assms have "\<not> ok \<and> rt' = rt"
      by (auto simp: admissible_def try_inline_reserve_def split: if_splits)
    with reserve_step.overflow [of t n ?s1 "hs_hot s" sz "br_cfg rt"] None assms show ?thesis
      by (cases s) (simp add: hot_state.defs)
  next
    case (Some nxt)
    show ?thesis
    proof (cases "bc_global_hot_budget_bytes (br_cfg rt) < nxt")
      case over: True
      with True Some assms have "\<not> ok \<and> rt' = rt"
        by (auto simp: admissible_def try_inline_reserve_def split: if_splits)
      with reserve_step.over_budget [of t n ?s1 "hs_hot s" sz nxt "br_cfg rt"] Some over assms show ?thesis
        by (cases s) (simp add: hot_state.defs)
    next
      case fits: False
      with True Some assms have "ok \<and> br_global_hot_bytes rt' = nxt"
        by (auto simp: admissible_def try_inline_reserve_def split: if_splits)
      with reserve_step.exchange [of t n ?s1 "hs_hot s" sz nxt "br_cfg rt"] Some fits assms show ?thesis
        by (cases s) (simp add: hot_state.defs)
    qed
  qed
  from step1 step2 show ?thesis by (rule converse_rtranclp_into_rtranclp [OF _ r_into_rtranclp])
qed

section \<open>Runs of the store\<close>

text \<open>The operations a client can do; a removal names a live blob by its position.\<close>

datatype blob_op =
    OpStore fault_schedule string string
  | OpShared fault_schedule string string
  | OpExternal string string
  | OpStream fault_schedule "(string, string) result list" string
  | OpRemove fault_schedule nat

text \<open>The store and the live blobs, each with the bytes it was stored from.\<close>

type_synonym store_run = "blob_runtime \<times> (blob_handle \<times> string) list"

definition keep_result :: "string \<Rightarrow> (blob_handle \<times> string) list \<Rightarrow> blob_handle blob_result \<Rightarrow> store_run" where
  "keep_result bytes live res =
     (case res of (Ok h, rt) \<Rightarrow> (rt, live @ [(h, bytes)]) | (Err _, rt) \<Rightarrow> (rt, live))"

fun run_op :: "blob_op \<Rightarrow> store_run \<Rightarrow> store_run" where
  "run_op (OpStore io bytes mime) (rt, live) = keep_result bytes live (store_bytes rt io bytes mime)"
| "run_op (OpShared io bytes mime) (rt, live) = keep_result bytes live (store_shared_bytes rt io bytes mime)"
| "run_op (OpExternal bytes mime) (rt, live) = keep_result bytes live (store_external_shared_bytes rt bytes mime)"
| "run_op (OpStream io reads mime) (rt, live) =
     keep_result (unwrap_or (stream_content reads) []) live (store_stream rt io reads mime)"
| "run_op (OpRemove io i) (rt, live) =
     (if i < length live then (snd (remove_blob rt io (fst (live ! i))), take i live @ drop (i + 1) live)
      else (rt, live))"

definition run_ops :: "blob_op list \<Rightarrow> blob_config \<Rightarrow> fsys \<Rightarrow> store_run" where
  "run_ops ops cfg fs = foldl (\<lambda>s op. run_op op s) (blob_runtime_new cfg fs, []) ops"

fun op_small :: "blob_op \<Rightarrow> bool" where
  "op_small (OpStore io bytes mime) \<longleftrightarrow> length bytes < 2 ^ 64"
| "op_small (OpShared io bytes mime) \<longleftrightarrow> length bytes < 2 ^ 64"
| "op_small (OpExternal bytes mime) \<longleftrightarrow> length bytes < 2 ^ 64"
| "op_small (OpStream io reads mime) \<longleftrightarrow> length (unwrap_or (stream_content reads) []) < 2 ^ 64"
| "op_small (OpRemove io i) \<longleftrightarrow> True"

definition run_inv :: "nat \<Rightarrow> store_run \<Rightarrow> bool" where
  "run_inv n s \<longleftrightarrow>
     blob_inv (fst s) (fst ` set (snd s)) \<and> distinct (map fst (snd s)) \<and> ids_left n (fst s)
     \<and> (\<forall>(h, b) \<in> set (snd s). blob_content (fst s) h = Some b)"

lemma ids_left_next: "ids_left (Suc n) rt \<Longrightarrow> br_next_id rt' = br_next_id rt + 1 \<Longrightarrow> ids_left n rt'"
  by (auto simp: ids_left_def unat_Suc_64)

lemma keep_stored:
  assumes inv: "run_inv (Suc n) (rt, live)" and small: "length b < 2 ^ 64"
    and ok: "\<And>h rt'. res = (Ok h, rt') \<Longrightarrow> stored_as rt rt' h b"
    and err: "\<And>e rt'. res = (Err e, rt') \<Longrightarrow> store_failed rt rt'"
  shows "run_inv n (keep_result b live res)"
proof -
  obtain r rt' where res: "res = (r, rt')" by (cases res)
  have bi: "blob_inv rt (fst ` set live)" and room: "ids_left 1 rt" and left: "ids_left (Suc n) rt"
    and d: "distinct (map fst live)" and c: "\<forall>(h, b) \<in> set live. blob_content rt h = Some b"
    using inv by (auto simp: run_inv_def intro: ids_left_mono)
  show ?thesis
  proof (cases r)
    case (Inl e)
    from err [OF res [unfolded Inl]] have st: "store_failed rt rt'" .
    from store_failed_inv [OF bi st room] ids_left_next [OF left stored_next(2) [OF st]] d c show ?thesis
      by (fastforce simp: run_inv_def keep_result_def res Inl)
  next
    case (Inr h)
    from ok [OF res [unfolded Inr]] have st: "stored_as rt rt' h b" .
    from stored_as_inv [OF bi st small room] ids_left_next [OF left stored_next(1) [OF st]] d c show ?thesis
      by (force simp: run_inv_def keep_result_def res Inr)
  qed
qed

lemma stream_stored:
  assumes "store_stream rt io reads mime = (Ok h, rt')" "length (unwrap_or (stream_content reads) []) < 2 ^ 64"
  shows "stored_as rt rt' h (unwrap_or (stream_content reads) [])"
  using store_stream_Ok [OF assms(1)] assms(2) by auto

lemma run_op_inv:
  assumes inv: "run_inv (Suc n) s" and small: "op_small op"
  shows "run_inv n (run_op op s)"
proof -
  obtain rt live where s: "s = (rt, live)" by (cases s)
  note inv' = inv [unfolded s]
  show ?thesis
  proof (cases op)
    case (OpStore io b mime)
    with small show ?thesis unfolding s OpStore run_op.simps
      by (intro keep_stored [OF inv']) (auto dest: store_bytes_Ok store_bytes_Err)
  next
    case (OpShared io b mime)
    with small show ?thesis unfolding s OpShared run_op.simps store_shared_eq
      by (intro keep_stored [OF inv']) (auto dest: store_bytes_Ok store_bytes_Err)
  next
    case (OpExternal b mime)
    with small show ?thesis unfolding s OpExternal run_op.simps
      by (intro keep_stored [OF inv']) (auto dest: store_external_Ok simp: store_external_not_Err)
  next
    case (OpStream io reads mime)
    with small show ?thesis unfolding s OpStream run_op.simps
      by (intro keep_stored [OF inv']) (auto dest: stream_stored store_stream_Err)
  next
    case (OpRemove io i)
    show ?thesis
    proof (cases "i < length live")
      case False
      with inv' show ?thesis unfolding s OpRemove by (auto simp: run_inv_def intro: ids_left_mono)
    next
      case True
      let ?h = "fst (live ! i)"
      have split: "live = take i live @ live ! i # drop (i + 1) live"
        using True by (simp add: id_take_nth_drop)
      obtain r rt' where rm: "remove_blob rt io ?h = (r, rt')" by (cases "remove_blob rt io ?h")
      have mem: "?h \<in> fst ` set live" using True by auto
      have bi: "blob_inv rt (fst ` set live)" and d: "distinct (map fst live)"
        and c: "\<forall>(h, b) \<in> set live. blob_content rt h = Some b" and left: "ids_left (Suc n) rt"
        using inv' by (auto simp: run_inv_def)
      have d': "distinct (map fst (take i live @ live ! i # drop (i + 1) live))"
        using d split by simp
      have ids: "fst ` set (take i live @ drop (i + 1) live) = fst ` set live - {?h}"
      proof -
        have "fst ` set live = insert ?h (fst ` set (take i live @ drop (i + 1) live))"
          by (subst split) auto
        moreover have "?h \<notin> fst ` set (take i live @ drop (i + 1) live)" using d' by auto
        ultimately show ?thesis by simp
      qed
      have "ids_left n rt'"
        using remove_blob_inv [OF bi mem rm] left by (simp add: ids_left_def)
      moreover have "\<forall>(h, b) \<in> set (take i live @ drop (i + 1) live). blob_content rt' h = Some b"
      proof safe
        fix h b assume hb: "(h, b) \<in> set (take i live @ drop (i + 1) live)"
        then have h: "h \<in> fst ` set live - {?h}" using ids by (metis fst_conv image_eqI)
        have "set (take i live @ drop (i + 1) live) \<subseteq> set live"
          by (simp add: set_take_subset set_drop_subset)
        with hb have "(h, b) \<in> set live" by (rule subsetD [rotated])
        have same: "\<forall>g \<in> fst ` set live - {?h}. blob_content rt' g = blob_content rt g"
          using remove_blob_inv [OF bi mem rm] by (elim conjE)
        have "blob_content rt' h = blob_content rt h" by (rule bspec [OF same h])
        moreover from bspec [OF c \<open>(h, b) \<in> set live\<close>] have "blob_content rt h = Some b" by simp
        ultimately show "blob_content rt' h = Some b" by simp
      qed
      moreover have "blob_inv rt' (fst ` set (take i live @ drop (i + 1) live))"
        unfolding ids using remove_blob_inv [OF bi mem rm] by blast
      moreover have "distinct (map fst (take i live @ drop (i + 1) live))"
        using d' by (simp only: map_append list.map distinct_append distinct.simps) auto
      moreover have "run_op op s = (rt', take i live @ drop (i + 1) live)"
        using rm True by (simp only: s OpRemove run_op.simps if_True snd_conv)
      ultimately show ?thesis by (simp only: run_inv_def fst_conv snd_conv)
    qed
  qed
qed

lemma run_ops_inv:
  assumes "length ops < 2 ^ 64 - 1" "\<forall>op \<in> set ops. op_small op"
  shows "run_inv 0 (run_ops ops cfg fs)"
proof -
  have "run_inv n (foldl (\<lambda>s op. run_op op s) s ops)"
    if "run_inv (n + length ops) s" "\<forall>op \<in> set ops. op_small op" for n s ops
    using that
  proof (induction ops arbitrary: s)
    case (Cons op ops)
    then have "run_inv (n + length ops) (run_op op s)" by (intro run_op_inv) auto
    with Cons show ?case by simp
  qed simp
  moreover have "run_inv (0 + length ops) (blob_runtime_new cfg fs, [])"
    using assms(1) blob_inv_new [of cfg fs]
    by (auto simp: run_inv_def ids_left_def blob_runtime_new_def)
  ultimately show ?thesis using assms(2) unfolding run_ops_def by blast
qed

text \<open>No operation changes the configuration.\<close>

lemma place_bytes_cfg: "br_cfg (snd (place_bytes rt io i b mime)) = br_cfg rt"
  by (auto simp: place_bytes_def build_handle_def record_spill_def Let_def try_inline_reserve_def
      split: sum.splits prod.splits if_splits option.splits)

lemma store_cfg:
  "br_cfg (snd (store_bytes rt io b mime)) = br_cfg rt"
  "br_cfg (snd (store_external_shared_bytes rt b mime)) = br_cfg rt"
  "br_cfg (snd (store_stream rt io reads mime)) = br_cfg rt"
  "br_cfg (snd (remove_blob rt io h)) = br_cfg rt"
  by (auto simp: store_bytes_def store_external_shared_bytes_def store_stream_def remove_blob_def
      next_id_def build_handle_def record_spill_def release_inline_bytes_def place_bytes_cfg Let_def
      split: sum.splits prod.splits if_splits option.splits blob_storage.splits)

lemma run_op_cfg: "br_cfg (fst (run_op op s)) = br_cfg (fst s)"
proof -
  have k: "br_cfg (fst (keep_result b live res)) = br_cfg (snd res)" for b live res
    by (auto simp: keep_result_def split: prod.splits sum.splits)
  show ?thesis by (cases op; cases s) (auto simp: k store_cfg store_shared_eq)
qed

lemma run_ops_cfg: "br_cfg (fst (run_ops ops cfg fs)) = cfg"
proof -
  have "br_cfg (fst (foldl (\<lambda>s op. run_op op s) s ops)) = br_cfg (fst s)" for s
    by (induction ops arbitrary: s) (auto simp: run_op_cfg)
  then show ?thesis by (simp add: run_ops_def blob_runtime_new_def)
qed

section \<open>Properties\<close>

text \<open>
  (C12) Whatever sequence of stores, streams and removals runs on a fresh store, with any file
  faults: the hot-byte counter is exactly the total size of the blobs alive in memory, it is
  within the global budget, and every blob alive reads back as the bytes it was stored from.
\<close>

theorem store_run_accounts_and_preserves:
  assumes "length ops < 2 ^ 64 - 1" "\<forall>op \<in> set ops. op_small op"
  shows "unat (br_global_hot_bytes (fst (run_ops ops cfg fs)))
      = (\<Sum>h \<in> fst ` set (snd (run_ops ops cfg fs)). hot_len h)
    \<and> br_global_hot_bytes (fst (run_ops ops cfg fs)) \<le> bc_global_hot_budget_bytes cfg
    \<and> (\<forall>(h, b) \<in> set (snd (run_ops ops cfg fs)). blob_content (fst (run_ops ops cfg fs)) h = Some b)"
  using run_ops_inv [OF assms, of cfg fs] run_ops_cfg [of ops cfg fs]
  by (auto simp: run_inv_def blob_inv_def)

text \<open>Evaluation of the store's operations on concrete inputs.\<close>

lemmas store_eval =
  blob_runtime_new_def store_bytes_def store_stream_def store_shared_bytes_def
  store_external_shared_bytes_def next_id_def place_bytes_def try_inline_reserve_def
  checked_add_def build_handle_def write_spilled_bytes_def fs_then_def fs_mkdir_def fs_write_def
  fs_append_def no_faults_def record_spill_def remove_blob_def release_inline_bytes_def
  stream_inline_limit_def spill_begin_def spill_finish_def Let_def

text \<open>A configuration with a global budget of ten bytes, used by the witnesses.\<close>

definition small_cfg :: blob_config where
  "small_cfg =
     \<lparr>bc_inline_max_bytes = 8, bc_request_hot_budget_bytes = 8, bc_global_hot_budget_bytes = 10,
      bc_spill_dir = ''/tmp/blobs''\<rparr>"

lemma store_run_accounts_and_preserves_witness:
  "let ops = [OpStore no_faults ''abcdef'' ''image/png'', OpStream no_faults [Inr ''uvw'', Inr ''xyz''] ''t'',
        OpExternal ''q'' ''image/png'', OpRemove no_faults 0];
      s = run_ops ops small_cfg (\<lambda>_. None)
   in length (snd s) = 2 \<and> (\<forall>(h, b) \<in> set (snd s). blob_content (fst s) h = Some b)
      \<and> br_global_hot_bytes (fst s) \<le> 10"
proof -
  let ?ops = "[OpStore no_faults ''abcdef'' ''image/png'',
    OpStream no_faults [Inr ''uvw'', Inr ''xyz''] ''t'', OpExternal ''q'' ''image/png'', OpRemove no_faults 0]"
  have "length (snd (run_ops ?ops small_cfg (\<lambda>_. None))) = 2"
    by (simp add: run_ops_def keep_result_def small_cfg_def store_eval)
  with store_run_accounts_and_preserves [of ?ops small_cfg "\<lambda>_. None"] show ?thesis
    by (simp add: Let_def small_cfg_def)
qed

text \<open>
  (C14) However the loads, exchanges and releases of concurrently reserving tasks interleave, the
  counter is at every moment the sum of the reservations held and never above the global budget.
\<close>

theorem concurrent_reservations_within_budget:
  assumes "(reserve_step cfg sz n)\<^sup>*\<^sup>* reserve_start s"
  shows "unat (hs_hot s) = (\<Sum>t \<in> {t. t < n \<and> hs_tasks s t = Reserved}. unat (sz t))
    \<and> hs_hot s \<le> bc_global_hot_budget_bytes cfg"
  using reserve_inv_reachable [OF assms] by (simp add: reserve_inv_def reserved_bytes_def holders_def)

text \<open>Two tasks that both loaded zero: one exchange succeeds, the other task must retry.\<close>

lemma concurrent_reservations_within_budget_witness:
  "\<exists>s. (reserve_step small_cfg (\<lambda>_. 6) 2)\<^sup>*\<^sup>* reserve_start s \<and> hs_tasks s 0 = Reserved
     \<and> hs_tasks s 1 = Starting \<and> unat (hs_hot s) = 6 \<and> hs_hot s \<le> 10"
proof -
  let ?step = "reserve_step small_cfg (\<lambda>_. 6) 2"
  let ?st = "\<lambda>h a b. \<lparr>hs_hot = h, hs_tasks = ((\<lambda>_. Starting)(0 := a, 1 := b))\<rparr>"
  have z: "reserve_start = ?st 0 Starting Starting"
    by (auto simp: reserve_start_def)
  have s1: "?step (?st 0 Starting Starting) (?st 0 (Loaded 0) Starting)"
    using reserve_step.load [of 0 2 "?st 0 Starting Starting" small_cfg "\<lambda>_. 6"]
    by (simp add: admissible_def small_cfg_def fun_upd_twist)
  have s2: "?step (?st 0 (Loaded 0) Starting) (?st 0 (Loaded 0) (Loaded 0))"
    using reserve_step.load [of 1 2 "?st 0 (Loaded 0) Starting" small_cfg "\<lambda>_. 6"]
    by (simp add: admissible_def small_cfg_def)
  have s3: "?step (?st 0 (Loaded 0) (Loaded 0)) (?st 6 Reserved (Loaded 0))"
    using reserve_step.exchange [of 0 2 "?st 0 (Loaded 0) (Loaded 0)" 0 "\<lambda>_. 6" 6 small_cfg]
    by (simp add: checked_add_def small_cfg_def fun_upd_twist)
  have s4: "?step (?st 6 Reserved (Loaded 0)) (?st 6 Reserved Starting)"
    using reserve_step.retry [of 1 2 "?st 6 Reserved (Loaded 0)" 0 "\<lambda>_. 6" 6 small_cfg]
    by (simp add: checked_add_def small_cfg_def)
  have r: "?step\<^sup>*\<^sup>* reserve_start (?st 6 Reserved Starting)"
    unfolding z using s1 s2 s3 s4 by (meson rtranclp.rtrancl_into_rtrancl rtranclp.rtrancl_refl)
  from concurrent_reservations_within_budget [OF r] r show ?thesis
    by (intro exI [of _ "?st 6 Reserved Starting"]) (simp add: small_cfg_def)
qed

text \<open>
  (C19) Without file faults, streaming a body in any pieces leaves the store in the same state and
  gives the same blob as storing the whole body at once.
\<close>

theorem stream_equals_whole:
  assumes "stream_content reads = Some bytes" "length bytes < 2 ^ 64"
  shows "store_stream rt no_faults reads mime = store_bytes rt no_faults bytes mime"
  by (rule store_stream_eq_store_bytes [OF assms])

lemma stream_equals_whole_witness:
  "store_stream (blob_runtime_new small_cfg (\<lambda>_. None)) no_faults [Inr ''ab'', Inr ''cdefghijk''] ''t''
   = store_bytes (blob_runtime_new small_cfg (\<lambda>_. None)) no_faults ''abcdefghijk'' ''t''"
  by (rule stream_equals_whole) simp_all

end
