(* ===== verification/Base64.thy ===== *)
theory Base64
  imports Http_Types
begin

text \<open>
  The crate \<^verbatim>\<open>base64\<close> (engine \<^verbatim>\<open>STANDARD\<close>) as an interface: \<open>base64_laws\<close> states the
  documented behaviour the proxy relies on, and \<open>base64_std\<close> is the encoding of RFC 4648
  with padding, which has it.
\<close>

record base64_api =
  b64_encode :: "string \<Rightarrow> string"
  b64_decode :: "string \<Rightarrow> (string, string) result"

definition b64_char :: "nat \<Rightarrow> char" where
  "b64_char n =
     (if n < 26 then char_of (65 + n) else if n < 52 then char_of (71 + n)
      else if n < 62 then char_of (n - 4) else if n = 62 then CHR ''+'' else CHR ''/'')"

definition b64_value :: "char \<Rightarrow> nat option" where
  "b64_value c =
     (let b = bval c in
      if 65 \<le> b \<and> b \<le> 90 then Some (b - 65) else if 97 \<le> b \<and> b \<le> 122 then Some (b - 71)
      else if 48 \<le> b \<and> b \<le> 57 then Some (b + 4) else if b = 43 then Some 62
      else if b = 47 then Some 63 else None)"

text \<open>A character of an encoded text.\<close>

definition b64_text_char :: "char \<Rightarrow> bool" where
  "b64_text_char c \<longleftrightarrow> b64_value c \<noteq> None \<or> c = CHR ''=''"

definition base64_laws :: "base64_api \<Rightarrow> bool" where
  "base64_laws B \<longleftrightarrow>
     b64_encode B [] = []
     \<and> (\<forall>a b. length a mod 3 = 0 \<longrightarrow> b64_encode B (a @ b) = b64_encode B a @ b64_encode B b)
     \<and> (\<forall>s. length (b64_encode B s) = 4 * ((length s + 2) div 3))
     \<and> (\<forall>s. list_all b64_text_char (b64_encode B s))
     \<and> (\<forall>s. b64_decode B (b64_encode B s) = Ok s)"

lemma base64_lawsD:
  assumes "base64_laws B"
  shows base64_nil: "b64_encode B [] = []"
    and base64_append: "length a mod 3 = 0 \<Longrightarrow> b64_encode B (a @ b) = b64_encode B a @ b64_encode B b"
    and base64_length: "length (b64_encode B s) = 4 * ((length s + 2) div 3)"
    and base64_chars: "list_all b64_text_char (b64_encode B s)"
    and base64_decode_encode: "b64_decode B (b64_encode B s) = Ok s"
  using assms by (auto simp: base64_laws_def)

section \<open>RFC 4648\<close>

definition quad :: "nat \<Rightarrow> nat \<Rightarrow> nat \<Rightarrow> nat list" where
  "quad a b c = [a div 4, a mod 4 * 16 + b div 16, b mod 16 * 4 + c div 64, c mod 64]"

fun std_encode :: "string \<Rightarrow> string" where
  "std_encode [] = []"
| "std_encode [a] = map b64_char (take 2 (quad (bval a) 0 0)) @ ''==''"
| "std_encode [a, b] = map b64_char (take 3 (quad (bval a) (bval b) 0)) @ ''=''"
| "std_encode (a # b # c # s) = map b64_char (quad (bval a) (bval b) (bval c)) @ std_encode s"

definition dec1 :: "nat \<Rightarrow> nat \<Rightarrow> string option" where
  "dec1 x y = (if y mod 16 = 0 then Some [char_of (x * 4 + y div 16)] else None)"

definition dec2 :: "nat \<Rightarrow> nat \<Rightarrow> nat \<Rightarrow> string option" where
  "dec2 x y z =
     (if z mod 4 = 0 then Some [char_of (x * 4 + y div 16), char_of (y mod 16 * 16 + z div 4)]
      else None)"

definition dec3 :: "nat \<Rightarrow> nat \<Rightarrow> nat \<Rightarrow> nat \<Rightarrow> string" where
  "dec3 x y z w =
     [char_of (x * 4 + y div 16), char_of (y mod 16 * 16 + z div 4), char_of (z mod 4 * 64 + w)]"

fun std_decode :: "string \<Rightarrow> string option" where
  "std_decode [] = Some []"
| "std_decode (a # b # c # d # s) =
     (case (b64_value a, b64_value b) of
        (Some x, Some y) \<Rightarrow>
          (if s = [] \<and> d = CHR ''='' then
             (if c = CHR ''='' then dec1 x y else Option.bind (b64_value c) (dec2 x y))
           else
             (case (b64_value c, b64_value d) of
                (Some z, Some w) \<Rightarrow> map_option (\<lambda>r. dec3 x y z w @ r) (std_decode s)
              | _ \<Rightarrow> None))
      | _ \<Rightarrow> None)"
| "std_decode _ = None"

definition base64_std :: base64_api where
  "base64_std =
     \<lparr>b64_encode = std_encode,
      b64_decode = (\<lambda>s. case std_decode s of None \<Rightarrow> Err ''Invalid input'' | Some b \<Rightarrow> Ok b)\<rparr>"

lemma b64_value_char: "n < 64 \<Longrightarrow> b64_value (b64_char n) = Some n"
  by (auto simp: b64_value_def b64_char_def bval_char_of Let_def bval_def)

lemma b64_char_not_pad: "n < 64 \<Longrightarrow> b64_char n \<noteq> CHR ''=''"
proof
  assume "n < 64" "b64_char n = CHR ''=''"
  then have "b64_value CHR ''='' = Some n" using b64_value_char by metis
  then show False by (simp add: b64_value_def bval_def)
qed

lemma quad_lt: "a < 256 \<Longrightarrow> b < 256 \<Longrightarrow> c < 256 \<Longrightarrow> list_all (\<lambda>n. n < 64) (quad a b c)"
proof -
  assume "a < 256" "b < 256" "c < 256"
  then have d: "a div 4 < 64" "b div 16 < 16" "c div 64 < 4" by auto
  have m: "a mod 4 < 4" "b mod 16 < 16" "c mod 64 < 64" by auto
  have "a mod 4 * 16 + b div 16 < 64" "b mod 16 * 4 + c div 64 < 64" using d m by linarith+
  with d m show ?thesis by (simp add: quad_def)
qed

lemma char_of_bval [simp]: "char_of (bval c) = c"
  by (simp add: bval_def)

lemma std_decode_encode: "std_decode (std_encode s) = Some s"
proof (induction s rule: std_encode.induct)
  case (2 a)
  have q: "list_all (\<lambda>n. n < 64) (quad (bval a) 0 0)" by (simp add: quad_lt bval_lt)
  then show ?case
    by (simp add: quad_def b64_value_char dec1_def)
next
  case (3 a b)
  have q: "list_all (\<lambda>n. n < 64) (quad (bval a) (bval b) 0)" by (simp add: quad_lt bval_lt)
  have "bval b div 16 < 16" using bval_lt [of b] by auto
  with q show ?case
    by (simp add: quad_def b64_value_char b64_char_not_pad dec2_def)
next
  case (4 a b c s)
  have q: "list_all (\<lambda>n. n < 64) (quad (bval a) (bval b) (bval c))" by (simp add: quad_lt bval_lt)
  have "bval b div 16 < 16" "bval c div 64 < 4" using bval_lt [of b] bval_lt [of c] by auto
  with q 4 show ?case
    by (simp add: quad_def b64_value_char b64_char_not_pad dec3_def)
qed simp

lemma std_encode_append: "length a mod 3 = 0 \<Longrightarrow> std_encode (a @ b) = std_encode a @ std_encode b"
  by (induction a rule: std_encode.induct) auto

lemma std_encode_length: "length (std_encode s) = 4 * ((length s + 2) div 3)"
proof (induction s rule: std_encode.induct)
  case (4 a b c s)
  have "(length s + 3 + 2) div 3 = (length s + 2) div 3 + 1" by presburger
  with 4 show ?case by (simp add: quad_def)
qed (auto simp: quad_def)

lemma b64_text_char_char: "n < 64 \<Longrightarrow> b64_text_char (b64_char n)"
  by (simp add: b64_text_char_def b64_value_char)

lemma std_encode_chars: "list_all b64_text_char (std_encode s)"
proof (induction s rule: std_encode.induct)
  case (2 a)
  have "list_all (\<lambda>n. n < 64) (quad (bval a) 0 0)" by (simp add: quad_lt bval_lt)
  then show ?case by (simp add: quad_def b64_text_char_char) (simp add: b64_text_char_def)
next
  case (3 a b)
  have "list_all (\<lambda>n. n < 64) (quad (bval a) (bval b) 0)" by (simp add: quad_lt bval_lt)
  then show ?case by (simp add: quad_def b64_text_char_char) (simp add: b64_text_char_def)
next
  case (4 a b c s)
  have "list_all (\<lambda>n. n < 64) (quad (bval a) (bval b) (bval c))" by (simp add: quad_lt bval_lt)
  with 4 show ?case by (simp add: quad_def b64_text_char_char)
qed simp

lemma base64_std_laws: "base64_laws base64_std"
  by (simp add: base64_laws_def base64_std_def std_encode_append std_encode_length
      std_encode_chars std_decode_encode)

end
