(* ===== verification/Request_Scan.thy ===== *)
theory Request_Scan
  imports Http_Types
begin

text \<open>
  \<^verbatim>\<open>src/request_scan.rs\<close>: finding the images a request refers to. The traversal collects the
  JSON pointer and URL of every \<^verbatim>\<open>inlineData\<close> object whose \<^verbatim>\<open>data\<close> is an http(s) URL and stops
  with an error at the eighth. \<open>inline_refs\<close> is the specification: all of them, in document
  order; pointers are related to their reference tokens.
\<close>

record image_ref =
  ir_json_pointer :: string
  ir_url :: string

definition MAX_INLINE_DATA_URLS :: nat where
  "MAX_INLINE_DATA_URLS = 7"

text \<open>The URL in the \<^verbatim>\<open>inlineData\<close> member, if there is one.\<close>

definition inline_url :: "jobject \<Rightarrow> string option" where
  "inline_url m =
     (case obj_get m ''inlineData'' of
        Some (JObject inline_data) \<Rightarrow>
          (case obj_get inline_data ''data'' of
             Some (JString d) \<Rightarrow> if is_http_url d then Some d else None
           | _ \<Rightarrow> None)
      | _ \<Rightarrow> None)"

fun walk :: "json \<Rightarrow> string \<Rightarrow> image_ref list \<Rightarrow> image_ref list fallible"
and walk_fields :: "jobject \<Rightarrow> string \<Rightarrow> image_ref list \<Rightarrow> image_ref list fallible"
and walk_items :: "json list \<Rightarrow> nat \<Rightarrow> string \<Rightarrow> image_ref list \<Rightarrow> image_ref list fallible" where
  "walk (JObject m) path matches =
     (case inline_url m of
        Some url \<Rightarrow>
          (let matches = matches @ [\<lparr>ir_json_pointer = path @ ''/inlineData'', ir_url = url\<rparr>] in
           if MAX_INLINE_DATA_URLS < length matches then Err (Message ''too many inlineData URLs'')
           else walk_fields m path matches)
      | None \<Rightarrow> walk_fields m path matches)"
| "walk (JArray items) path matches = walk_items items 0 path matches"
| "walk _ path matches = Ok matches"
| "walk_fields [] path matches = Ok matches"
| "walk_fields ((key, child) # m) path matches =
     (case walk child (path @ ''/'' @ escape_json_pointer_token key) matches of
        Err e \<Rightarrow> Err e
      | Ok matches \<Rightarrow> walk_fields m path matches)"
| "walk_items [] index path matches = Ok matches"
| "walk_items (child # items) index path matches =
     (case walk child (path @ ''/'' @ show_nat index) matches of
        Err e \<Rightarrow> Err e
      | Ok matches \<Rightarrow> walk_items items (index + 1) path matches)"

definition scan_request_image_urls :: "json \<Rightarrow> image_ref list fallible" where
  "scan_request_image_urls body = walk body [] []"

section \<open>Specification\<close>

text \<open>All references below a value, as token paths, in document order.\<close>

fun inline_refs :: "json \<Rightarrow> string list \<Rightarrow> (string list \<times> string) list"
and field_refs :: "jobject \<Rightarrow> string list \<Rightarrow> (string list \<times> string) list"
and item_refs :: "json list \<Rightarrow> nat \<Rightarrow> string list \<Rightarrow> (string list \<times> string) list" where
  "inline_refs (JObject m) path =
     (case inline_url m of None \<Rightarrow> [] | Some url \<Rightarrow> [(path @ [''inlineData''], url)])
     @ field_refs m path"
| "inline_refs (JArray items) path = item_refs items 0 path"
| "inline_refs _ path = []"
| "field_refs [] path = []"
| "field_refs ((key, child) # m) path = inline_refs child (path @ [key]) @ field_refs m path"
| "item_refs [] index path = []"
| "item_refs (child # items) index path =
     inline_refs child (path @ [show_nat index]) @ item_refs items (index + 1) path"

definition pointer_text :: "string list \<Rightarrow> string" where
  "pointer_text tokens = concat (map (\<lambda>t. ''/'' @ escape_json_pointer_token t) tokens)"

definition ref_of :: "string list \<times> string \<Rightarrow> image_ref" where
  "ref_of r = \<lparr>ir_json_pointer = pointer_text (fst r), ir_url = snd r\<rparr>"

section \<open>Pointers\<close>

lemma concat_map_singleton: "concat (map (\<lambda>c. [c]) s) = s"
  by (induction s) auto

lemma replace_char_absent: "c \<notin> set s \<Longrightarrow> replace_char c r s = s"
  by (induction s) (auto simp: replace_char_def)

lemma replace_char_Cons: "replace_char c r (x # s) = (if x = c then r else [x]) @ replace_char c r s"
  by (simp add: replace_char_def)

lemma replace_char_append: "replace_char c r (s @ t) = replace_char c r s @ replace_char c r t"
  by (simp add: replace_char_def)

text \<open>Character by character.\<close>

definition escape_char :: "char \<Rightarrow> string" where
  "escape_char c = (if c = CHR ''~'' then ''~0'' else if c = CHR ''/'' then ''~1'' else [c])"

lemma escape_eq: "escape_json_pointer_token t = concat (map escape_char t)"
  by (induction t)
    (auto simp: escape_json_pointer_token_def replace_char_def escape_char_def)

lemma escape_no_slash: "CHR ''/'' \<notin> set (escape_json_pointer_token t)"
  by (auto simp: escape_eq escape_char_def)

lemma escape_char_append_inject:
  "escape_char c @ x = escape_char d @ y \<Longrightarrow> c = d \<and> x = y"
  by (auto simp: escape_char_def split: if_splits)

lemma escape_char_not_Nil: "escape_char c \<noteq> []"
  by (simp add: escape_char_def)

lemma escape_inject: "escape_json_pointer_token t = escape_json_pointer_token u \<longleftrightarrow> t = u"
proof
  assume "escape_json_pointer_token t = escape_json_pointer_token u"
  then have "concat (map escape_char t) = concat (map escape_char u)" by (simp add: escape_eq)
  then show "t = u"
  proof (induction t arbitrary: u)
    case Nil
    then show ?case by (cases u) (auto simp: escape_char_not_Nil)
  next
    case (Cons c t)
    then obtain d v where u: "u = d # v" by (cases u) (auto simp: escape_char_not_Nil)
    with Cons.prems have "c = d" "concat (map escape_char t) = concat (map escape_char v)"
      using escape_char_append_inject by auto
    with Cons.IH u show ?case by simp
  qed
qed simp

lemma show_nat_escape: "escape_json_pointer_token (show_nat n) = show_nat n"
proof -
  have "escape_char c = [c]" if "c \<in> set (show_nat n)" for c
    using show_nat_digits [of n] that by (auto simp: list_all_iff escape_char_def is_digit_def bval_def)
  then have "map escape_char (show_nat n) = map (\<lambda>c. [c]) (show_nat n)" by (simp cong: map_cong)
  then show ?thesis unfolding escape_eq by (simp only: concat_map_singleton)
qed

lemma pointer_text_Nil [simp]: "pointer_text [] = []"
  by (simp add: pointer_text_def)

lemma pointer_text_snoc: "pointer_text (p @ [t]) = pointer_text p @ ''/'' @ escape_json_pointer_token t"
  by (simp add: pointer_text_def)

lemma slash_split_unique:
  "CHR ''/'' \<notin> set a \<Longrightarrow> CHR ''/'' \<notin> set b \<Longrightarrow> (r = [] \<or> hd r = CHR ''/'') \<Longrightarrow> (s = [] \<or> hd s = CHR ''/'')
   \<Longrightarrow> a @ r = b @ s \<Longrightarrow> a = b \<and> r = s"
proof -
  assume a: "CHR ''/'' \<notin> set a" and b: "CHR ''/'' \<notin> set b" and r: "r = [] \<or> hd r = CHR ''/''"
    and s: "s = [] \<or> hd s = CHR ''/''" and eq: "a @ r = b @ s"
  have tw: "takeWhile (\<lambda>c. c \<noteq> CHR ''/'') (x @ y) = x"
    if "CHR ''/'' \<notin> set x" "y = [] \<or> hd y = CHR ''/''" for x y
    using that by (cases y) (auto simp: takeWhile_append takeWhile_eq_all_conv)
  have "a = b" using tw [OF a r] tw [OF b s] eq by simp
  with eq show ?thesis by simp
qed

lemma pointer_text_inject: "pointer_text p = pointer_text q \<longleftrightarrow> p = q"
proof
  assume "pointer_text p = pointer_text q"
  then show "p = q"
  proof (induction p arbitrary: q)
    case Nil
    then show ?case by (cases q) (auto simp: pointer_text_def)
  next
    case (Cons t p)
    then obtain u q' where q: "q = u # q'" by (cases q) (auto simp: pointer_text_def)
    have hd: "pointer_text r = [] \<or> hd (pointer_text r) = CHR ''/''" for r
      by (cases r) (auto simp: pointer_text_def)
    have "escape_json_pointer_token t @ pointer_text p = escape_json_pointer_token u @ pointer_text q'"
      using Cons.prems q by (simp add: pointer_text_def)
    with slash_split_unique [OF escape_no_slash escape_no_slash hd hd]
    have "escape_json_pointer_token t = escape_json_pointer_token u" "pointer_text p = pointer_text q'"
      by blast+
    with Cons.IH q escape_inject show ?case by blast
  qed
qed simp

section \<open>The traversal computes the specification\<close>

definition within_limit :: "image_ref list \<Rightarrow> image_ref list fallible" where
  "within_limit refs =
     (if length refs \<le> MAX_INLINE_DATA_URLS then Ok refs else Err (Message ''too many inlineData URLs''))"

lemma walk_refs:
  "length matches \<le> MAX_INLINE_DATA_URLS \<Longrightarrow>
   walk v (pointer_text path) matches = within_limit (matches @ map ref_of (inline_refs v path))"
  "length matches \<le> MAX_INLINE_DATA_URLS \<Longrightarrow>
   walk_fields m (pointer_text path) matches = within_limit (matches @ map ref_of (field_refs m path))"
  "length matches \<le> MAX_INLINE_DATA_URLS \<Longrightarrow>
   walk_items xs i (pointer_text path) matches = within_limit (matches @ map ref_of (item_refs xs i path))"
proof (induction v path and m path and xs i path arbitrary: matches and matches and matches
    rule: inline_refs_field_refs_item_refs.induct)
  case (1 m path)
  show ?case
  proof (cases "inline_url m")
    case None
    with 1 show ?thesis by simp
  next
    case (Some url)
    have "pointer_text path @ ''/inlineData'' = pointer_text (path @ [''inlineData''])"
      by (simp add: pointer_text_snoc escape_eq escape_char_def)
    with Some 1 show ?thesis
      by (auto simp: ref_of_def within_limit_def Let_def)
  qed
next
  case (5 key child m path)
  show ?case
  proof (cases "length (matches @ map ref_of (inline_refs child (path @ [key]))) \<le> MAX_INLINE_DATA_URLS")
    case True
    with 5 show ?thesis by (simp add: pointer_text_snoc [symmetric, unfolded append_Cons append_Nil] within_limit_def)
  next
    case False
    with 5 show ?thesis
      by (simp add: pointer_text_snoc [symmetric, unfolded append_Cons append_Nil] within_limit_def)
  qed
next
  case (7 child items i path)
  have p: "pointer_text path @ ''/'' @ show_nat i = pointer_text (path @ [show_nat i])"
    by (simp add: pointer_text_snoc show_nat_escape)
  show ?case
  proof (cases "length (matches @ map ref_of (inline_refs child (path @ [show_nat i]))) \<le> MAX_INLINE_DATA_URLS")
    case True
    with 7 show ?thesis by (simp add: p [unfolded append_Cons append_Nil] within_limit_def)
  next
    case False
    with 7 show ?thesis by (simp add: p [unfolded append_Cons append_Nil] within_limit_def)
  qed
qed (auto simp: within_limit_def)

lemma scan_eq_refs:
  "scan_request_image_urls body = within_limit (map ref_of (inline_refs body []))"
  using walk_refs(1) [of "[]" body "[]"] by (simp add: scan_request_image_urls_def MAX_INLINE_DATA_URLS_def)

section \<open>Each reference points at its image\<close>

definition points_at_image :: "json \<Rightarrow> string list \<Rightarrow> string \<Rightarrow> bool" where
  "points_at_image v path url \<longleftrightarrow>
     (\<exists>m. jpointer path v = Some (JObject m) \<and> obj_get m ''data'' = Some (JString url)) \<and> is_http_url url"

lemma inline_url_points:
  "inline_url m = Some url \<Longrightarrow> points_at_image (JObject m) [''inlineData''] url"
  by (auto simp: inline_url_def points_at_image_def jstep_def split: option.splits json.splits if_splits)

lemma jpointer_field: "distinct (map fst m) \<Longrightarrow> (k, v) \<in> set m \<Longrightarrow> jpointer (k # p) (JObject m) = jpointer p v"
  by (simp add: jstep_def map_of_eq_Some_iff [THEN iffD2])

lemma show_nat_index: "i \<le> u64_max \<Longrightarrow> parse_index (show_nat i) = Some i"
proof -
  assume i: "i \<le> u64_max"
  have "hd (show_nat i) \<noteq> CHR ''+''"
    using show_nat_digits [of i] by (cases "show_nat i") (auto simp: is_digit_def bval_def)
  moreover have "\<not> (starts_with (show_nat i) ''0'' \<and> length (show_nat i) \<noteq> 1)"
  proof (induction i rule: show_nat.induct)
    case (1 n)
    show ?case
    proof (cases "n < 10")
      case True
      then show ?thesis by (simp add: show_nat.simps [of n])
    next
      case False
      show ?thesis
      proof
        assume a: "starts_with (show_nat n) ''0'' \<and> length (show_nat n) \<noteq> 1"
        have "show_nat n = show_nat (n div 10) @ [char_of (48 + n mod 10)]"
          using False by (simp add: show_nat.simps [of n])
        with a have "starts_with (show_nat (n div 10)) ''0''"
          by (cases "show_nat (n div 10)") (auto simp: starts_with_def)
        with 1 False have "length (show_nat (n div 10)) = 1" by blast
        moreover from this \<open>starts_with (show_nat (n div 10)) ''0''\<close> have "show_nat (n div 10) = ''0''"
          by (cases "show_nat (n div 10)") (auto simp: starts_with_def)
        ultimately have "digits_value (show_nat (n div 10)) = 0"
          by (simp add: digits_value_def digit_value_def bval_def)
        with False show False by (simp add: digits_value_show_nat)
      qed
    qed
  qed
  ultimately have "\<not> starts_with (show_nat i) ''+''"
    "\<not> (starts_with (show_nat i) ''0'' \<and> length (show_nat i) \<noteq> 1)"
    by (cases "show_nat i"; auto simp: starts_with_def)+
  with parse_show_nat [OF i] show ?thesis by (simp add: parse_index_def)
qed

lemma map_of_snd_lt: "i < length xs \<Longrightarrow> length xs \<le> u64_max \<Longrightarrow>
  jpointer (show_nat i # p) (JArray xs) = jpointer p (xs ! i)"
  by (simp add: jstep_def show_nat_index)

text \<open>Stated for a value, the fields of an object and the items of an array from an index on.\<close>

lemma refs_point:
  "json_wf v \<Longrightarrow> (p, url) \<in> set (inline_refs v path)
   \<Longrightarrow> \<exists>q. p = path @ q \<and> points_at_image v q url"
  "fields_wf m \<Longrightarrow> (p, url) \<in> set (field_refs m path)
   \<Longrightarrow> \<exists>k x q. (k, x) \<in> set m \<and> p = path @ k # q \<and> points_at_image x q url"
  "items_wf xs \<Longrightarrow> (p, url) \<in> set (item_refs xs i path)
   \<Longrightarrow> \<exists>j q. j < length xs \<and> p = path @ show_nat (i + j) # q \<and> points_at_image (xs ! j) q url"
proof (induction v path and m path and xs i path
    rule: inline_refs_field_refs_item_refs.induct)
  case (1 m path)
  then consider "inline_url m = Some url" "p = path @ [''inlineData'']"
    | "(p, url) \<in> set (field_refs m path)" by (auto split: option.splits)
  then show ?case
  proof cases
    case 1
    then show ?thesis by (auto intro: inline_url_points)
  next
    case 2
    with "1.IH" "1.prems" obtain k x q where
      x: "(k, x) \<in> set m" "p = path @ k # q" "points_at_image x q url" by auto
    with "1.prems" have "jpointer (k # q) (JObject m) = jpointer q x"
      by (intro jpointer_field) auto
    with x show ?thesis by (auto simp: points_at_image_def)
  qed
next
  case (2 items path)
  then obtain j q where j: "j < length items" "p = path @ show_nat j # q"
    "points_at_image (items ! j) q url" by auto
  with 2 have "jpointer (show_nat j # q) (JArray items) = jpointer q (items ! j)"
    by (intro map_of_snd_lt) auto
  with j show ?case by (auto simp: points_at_image_def)
next
  case (5 key child m path)
  then consider "(p, url) \<in> set (inline_refs child (path @ [key]))"
    | "(p, url) \<in> set (field_refs m path)" by auto
  then show ?case
  proof cases
    case 1
    with 5 show ?thesis by (auto intro!: exI [of _ key] exI [of _ child])
  next
    case 2
    with 5 obtain k x q where "(k, x) \<in> set m" "p = path @ k # q" "points_at_image x q url" by auto
    then show ?thesis by (intro exI [of _ k] exI [of _ x] exI [of _ q]) auto
  qed
next
  case (7 child items i path)
  then consider "(p, url) \<in> set (inline_refs child (path @ [show_nat i]))"
    | "(p, url) \<in> set (item_refs items (i + 1) path)" by auto
  then show ?case
  proof cases
    case 1
    with 7 show ?thesis by (auto intro!: exI [of _ 0])
  next
    case 2
    with 7 obtain j q where "j < length items" "p = path @ show_nat (i + 1 + j) # q"
      "points_at_image (items ! j) q url" by auto
    then show ?thesis by (intro exI [of _ "Suc j"] exI [of _ q]) auto
  qed
qed auto

section \<open>Properties\<close>

text \<open>
  (C20) The traversal with its accumulator and early exit finds exactly the images the
  specification lists, in document order, and fails exactly when there are more than seven.
\<close>

theorem scan_finds_every_image:
  "scan_request_image_urls body =
     (let refs = map ref_of (inline_refs body []) in
      if length refs \<le> 7 then Ok refs else Err (Message ''too many inlineData URLs''))"
  by (simp add: scan_eq_refs within_limit_def MAX_INLINE_DATA_URLS_def Let_def)

text \<open>
  Every reference found has a JSON pointer that leads, in the request, to an object whose
  \<^verbatim>\<open>data\<close> is the http(s) URL reported.
\<close>

theorem scanned_pointers_resolve:
  assumes "json_wf body" "scan_request_image_urls body = Ok refs" "r \<in> set refs"
  shows "\<exists>tokens m. ir_json_pointer r = pointer_text tokens \<and> jpointer tokens body = Some (JObject m)
    \<and> obj_get m ''data'' = Some (JString (ir_url r)) \<and> is_http_url (ir_url r)"
proof -
  from assms(2,3) obtain p url where r: "(p, url) \<in> set (inline_refs body [])" "r = ref_of (p, url)"
    by (auto simp: scan_eq_refs within_limit_def split: if_splits)
  from refs_point(1) [OF assms(1) r(1)] r(2) show ?thesis
    by (auto simp: points_at_image_def ref_of_def)
qed

definition sample_image_request :: json where
  "sample_image_request =
     JObject [(''contents'', JArray [JObject [(''parts'', JArray
       [JObject [(''text'', JString ''hi'')],
        JObject [(''inlineData'', JObject [(''mimeType'', JString ''image/png''),
                                           (''data'', JString ''https://x.example/a/b.png'')])]])]])]"

lemma sample_image_request_scan:
  "scan_request_image_urls sample_image_request =
     Ok [\<lparr>ir_json_pointer = ''/contents/0/parts/1/inlineData'', ir_url = ''https://x.example/a/b.png''\<rparr>]"
  by code_simp

lemma scanned_pointers_resolve_witness:
  "\<exists>tokens m. ''/contents/0/parts/1/inlineData'' = pointer_text tokens
     \<and> jpointer tokens sample_image_request = Some (JObject m)
     \<and> obj_get m ''data'' = Some (JString ''https://x.example/a/b.png'')"
  using scanned_pointers_resolve [OF _ sample_image_request_scan,
      of "\<lparr>ir_json_pointer = ''/contents/0/parts/1/inlineData'', ir_url = ''https://x.example/a/b.png''\<rparr>"]
  by (auto simp: sample_image_request_def u64_max_def)

end
