(* ===== verification/Request_Encode.thy ===== *)
theory Request_Encode
  imports Blob_Safety Base64 Request_Scan Samples
begin

text \<open>
  \<^verbatim>\<open>src/request_encode.rs\<close>: the request body is written piece by piece into a pipe whose other
  end goes to the blob store; where an image was found, the object \<^verbatim>\<open>{"mimeType", "data"}\<close> with
  the image's base64 is written in place of the value. Images are encoded in chunks with a carry
  of at most two bytes. The main lemma: the text is what \<^verbatim>\<open>serde_json\<close> prints for the request
  with these values replaced, and the length counted is its length.
\<close>

record request_replacement =
  rr_json_pointer :: string
  rr_mime_type :: string
  rr_blob :: blob_handle

record encoded_request_body =
  eb_body_blob :: blob_handle
  eb_content_length :: u64

text \<open>
  What the writers use: the JSON printer, base64, the store the images are in, how its reads are
  cut, and the faults of reading each blob.
\<close>

record encode_env =
  ee_serde :: serde
  ee_b64 :: base64_api
  ee_runtime :: blob_runtime
  ee_chunker :: chunker
  ee_faults :: "u64 \<Rightarrow> fault_schedule"

text \<open>What was written, and the counter \<^verbatim>\<open>content_length\<close>.\<close>

type_synonym writer = "string \<times> u64"

definition write_counted :: "writer \<Rightarrow> string \<Rightarrow> writer" where
  "write_counted w bytes = (fst w @ bytes, snd w + of_nat (length bytes))"

section \<open>Base64 in chunks\<close>

definition CHUNK_BYTES :: nat where
  "CHUNK_BYTES = 48 * 1024"

definition div_ceil3 :: "nat \<Rightarrow> nat" where
  "div_ceil3 n = (n + 2) div 3"

text \<open>\<^verbatim>\<open>encode_slice\<close> into a buffer of this size.\<close>

definition encode_slice :: "base64_api \<Rightarrow> string \<Rightarrow> nat \<Rightarrow> string fallible" where
  "encode_slice B bytes capacity =
     (let out = b64_encode B bytes in
      if length out \<le> capacity then Ok out else Err (Message ''Provided slice is too small''))"

definition write_base64_bytes :: "base64_api \<Rightarrow> string \<Rightarrow> writer \<Rightarrow> writer fallible" where
  "write_base64_bytes B bytes w =
     (if bytes = [] then Ok w
      else (case encode_slice B bytes (div_ceil3 (length bytes) * 4) of
          Err e \<Rightarrow> Err e
        | Ok out \<Rightarrow> Ok (write_counted w out)))"

text \<open>The loop; the result carries the bytes left over.\<close>

fun base64_loop ::
  "base64_api \<Rightarrow> (string, string) result list \<Rightarrow> string \<Rightarrow> writer \<Rightarrow> (writer \<times> string) fallible" where
  "base64_loop B [] carry w = Ok (w, carry)"
| "base64_loop B (Inl e # reads) carry w = Err (Message e)"
| "base64_loop B (Inr chunk # reads) carry w =
     (if chunk = [] then Ok (w, carry)
      else
        (let total = carry @ chunk; complete_len = length total div 3 * 3 in
         if complete_len = 0 then base64_loop B reads total w
         else (case encode_slice B (take complete_len total) (div_ceil3 (CHUNK_BYTES + 2) * 4) of
             Err e \<Rightarrow> Err e
           | Ok out \<Rightarrow> base64_loop B reads (drop complete_len total) (write_counted w out))))"

definition write_blob_as_base64 :: "encode_env \<Rightarrow> blob_handle \<Rightarrow> writer \<Rightarrow> writer fallible" where
  "write_blob_as_base64 E blob w =
     (case bh_storage blob of
        Inline bytes \<Rightarrow> write_base64_bytes (ee_b64 E) bytes w
      | _ \<Rightarrow>
          (case open_reader (ee_chunker E) (ee_runtime E) (ee_faults E (bh_id blob)) blob of
             Err e \<Rightarrow> Err (Message e)
           | Ok reads \<Rightarrow>
               (case base64_loop (ee_b64 E) reads [] w of
                  Err e \<Rightarrow> Err e
                | Ok (w, carry) \<Rightarrow>
                    if carry = [] then Ok w
                    else (case encode_slice (ee_b64 E) carry (div_ceil3 (CHUNK_BYTES + 2) * 4) of
                        Err e \<Rightarrow> Err e
                      | Ok out \<Rightarrow> Ok (write_counted w out)))))"

section \<open>Writing JSON\<close>

definition lift_text :: "(string, string) result \<Rightarrow> string fallible" where
  "lift_text r = map_sum Message id r"

definition write_replacement :: "encode_env \<Rightarrow> request_replacement \<Rightarrow> writer \<Rightarrow> writer fallible" where
  "write_replacement E r w =
     (case lift_text (to_vec (ee_serde E) (JString ''mimeType'')) of Err e \<Rightarrow> Err e
      | Ok mime_key \<Rightarrow>
     (case lift_text (to_vec (ee_serde E) (JString (rr_mime_type r))) of Err e \<Rightarrow> Err e
      | Ok mime_value \<Rightarrow>
     (case lift_text (to_vec (ee_serde E) (JString ''data'')) of Err e \<Rightarrow> Err e
      | Ok data_key \<Rightarrow>
          (let w = write_counted w ''{'';
               w = write_counted w mime_key;
               w = write_counted w '':'';
               w = write_counted w mime_value;
               w = write_counted w '','';
               w = write_counted w data_key;
               w = write_counted w [CHR '':'', CHR 0x22]
           in case write_blob_as_base64 E (rr_blob r) w of
                Err e \<Rightarrow> Err e
              | Ok w \<Rightarrow> Ok (write_counted w [CHR 0x22, CHR ''}''])))))"

definition write_primitive :: "encode_env \<Rightarrow> json \<Rightarrow> writer \<Rightarrow> writer fallible" where
  "write_primitive E v w =
     (case lift_text (to_vec (ee_serde E) v) of
        Err e \<Rightarrow> Err e
      | Ok bytes \<Rightarrow> Ok (write_counted w bytes))"

function (sequential) write_json_value ::
  "encode_env \<Rightarrow> (string \<Rightarrow> request_replacement option) \<Rightarrow> json \<Rightarrow> string \<Rightarrow> writer \<Rightarrow> writer fallible"
and write_fields ::
  "encode_env \<Rightarrow> (string \<Rightarrow> request_replacement option) \<Rightarrow> jobject \<Rightarrow> bool \<Rightarrow> string \<Rightarrow> writer
   \<Rightarrow> writer fallible"
and write_items ::
  "encode_env \<Rightarrow> (string \<Rightarrow> request_replacement option) \<Rightarrow> json list \<Rightarrow> nat \<Rightarrow> string \<Rightarrow> writer
   \<Rightarrow> writer fallible" where
  "write_json_value E repl (JObject m) path w =
     (case repl path of
        Some r \<Rightarrow> write_replacement E r w
      | None \<Rightarrow>
          (case write_fields E repl m True path (write_counted w ''{'') of
             Err e \<Rightarrow> Err e
           | Ok w \<Rightarrow> Ok (write_counted w ''}'')))"
| "write_json_value E repl (JArray items) path w =
     (case repl path of
        Some r \<Rightarrow> write_replacement E r w
      | None \<Rightarrow>
          (case write_items E repl items 0 path (write_counted w ''['') of
             Err e \<Rightarrow> Err e
           | Ok w \<Rightarrow> Ok (write_counted w '']'')))"
| "write_json_value E repl v path w =
     (case repl path of
        Some r \<Rightarrow> write_replacement E r w
      | None \<Rightarrow> write_primitive E v w)"
| "write_fields E repl [] first path w = Ok w"
| "write_fields E repl ((key, child) # m) first path w =
     (let w = (if first then w else write_counted w '','') in
      case lift_text (to_vec (ee_serde E) (JString key)) of
        Err e \<Rightarrow> Err e
      | Ok key_bytes \<Rightarrow>
          (case write_json_value E repl child (path @ ''/'' @ escape_json_pointer_token key)
              (write_counted (write_counted w key_bytes) '':'') of
             Err e \<Rightarrow> Err e
           | Ok w \<Rightarrow> write_fields E repl m False path w))"
| "write_items E repl [] index path w = Ok w"
| "write_items E repl (child # items) index path w =
     (let w = (if 0 < index then write_counted w '','' else w) in
      case write_json_value E repl child (path @ ''/'' @ show_nat index) w of
        Err e \<Rightarrow> Err e
      | Ok w \<Rightarrow> write_items E repl items (index + 1) path w)"
  by pat_completeness auto
termination
  by (relation "measure (\<lambda>x. case x of
        Inl (_, _, v, _) \<Rightarrow> size v
      | Inr (Inl (_, _, m, _)) \<Rightarrow> size_list (size_prod (\<lambda>_. 0) size) m
      | Inr (Inr (_, _, xs, _)) \<Rightarrow> size_list size xs)") auto

section \<open>The encoder\<close>

definition remove_output :: "json \<Rightarrow> json" where
  "remove_output v = (case v of JObject m \<Rightarrow> JObject (obj_remove ''output'' m) | _ \<Rightarrow> v)"

definition strip_output_from_value :: "json \<Rightarrow> json" where
  "strip_output_from_value body =
     (let body = remove_output body;
          body = jpointer_update [''generationConfig'', ''imageConfig''] remove_output body
      in jpointer_update [''generation_config'', ''image_config''] remove_output body)"

definition replacement_map :: "request_replacement list \<Rightarrow> string \<Rightarrow> request_replacement option" where
  "replacement_map rs = map_of (rev (map (\<lambda>r. (rr_json_pointer r, r)) rs))"

text \<open>
  What the other side of the pipe does when the writer fails: the storing task is aborted,
  either before it ran or after some reads.
\<close>

definition stream_abort ::
  "blob_runtime \<Rightarrow> fault_schedule \<Rightarrow> (string, string) result list \<Rightarrow> blob_runtime" where
  "stream_abort rt io reads =
     (let (i, rt) = next_id rt in
      rt\<lparr>br_fs := snd (stream_loop io (stream_inline_limit (br_cfg rt)) (spill_path (br_cfg rt) i)
            reads 0 [] False (br_fs rt))\<rparr>)"

record pipe_env =
  pe_pipe :: chunker
  pe_faults :: fault_schedule
  pe_broken :: "anyhow option"
  pe_aborted :: "(string, string) result list option"

definition encode_request_body ::
  "encode_env \<Rightarrow> pipe_env \<Rightarrow> json \<Rightarrow> request_replacement list
   \<Rightarrow> encoded_request_body fallible \<times> blob_runtime" where
  "encode_request_body E P request replacements =
     (let request = strip_output_from_value request; rt = ee_runtime E in
      case write_json_value E (replacement_map replacements) request [] ([], 0) of
        Err e \<Rightarrow> (Err e, case pe_aborted P of None \<Rightarrow> rt | Some reads \<Rightarrow> stream_abort rt (pe_faults P) reads)
      | Ok (text, content_length) \<Rightarrow>
          (case store_stream rt (pe_faults P) (pe_pipe P text) ''application/json'' of
             (Err e, rt') \<Rightarrow> (Err (unwrap_or (pe_broken P) (Message e)), rt')
           | (Ok body_blob, rt') \<Rightarrow>
               (Ok \<lparr>eb_body_blob = body_blob, eb_content_length = content_length\<rparr>, rt')))"

section \<open>Specification\<close>

text \<open>The value with the nodes the map selects replaced.\<close>

fun replace_at :: "(string list \<Rightarrow> json option) \<Rightarrow> json \<Rightarrow> string list \<Rightarrow> json"
and replace_fields :: "(string list \<Rightarrow> json option) \<Rightarrow> jobject \<Rightarrow> string list \<Rightarrow> jobject"
and replace_items :: "(string list \<Rightarrow> json option) \<Rightarrow> json list \<Rightarrow> nat \<Rightarrow> string list \<Rightarrow> json list" where
  "replace_at R (JObject m) p = unwrap_or (R p) (JObject (replace_fields R m p))"
| "replace_at R (JArray items) p = unwrap_or (R p) (JArray (replace_items R items 0 p))"
| "replace_at R v p = unwrap_or (R p) v"
| "replace_fields R [] p = []"
| "replace_fields R ((k, x) # m) p = (k, replace_at R x (p @ [k])) # replace_fields R m p"
| "replace_items R [] i p = []"
| "replace_items R (x # xs) i p = replace_at R x (p @ [show_nat i]) # replace_items R xs (i + 1) p"

text \<open>The compact printer of \<^verbatim>\<open>serde_json\<close>: never fails, composes, and quotes base64 unchanged.\<close>

definition json_text :: "serde \<Rightarrow> json \<Rightarrow> string" where
  "json_text S v = (case to_vec S v of Ok t \<Rightarrow> t | Err _ \<Rightarrow> [])"

definition serde_compact :: "serde \<Rightarrow> bool" where
  "serde_compact S \<longleftrightarrow>
     (\<forall>v. to_vec S v = Ok (json_text S v))
     \<and> (\<forall>m. json_text S (JObject m) =
          ''{'' @ join_with '','' (map (\<lambda>(k, v). json_text S (JString k) @ '':'' @ json_text S v) m) @ ''}'')
     \<and> (\<forall>xs. json_text S (JArray xs) = ''['' @ join_with '','' (map (json_text S) xs) @ '']'')
     \<and> (\<forall>s. list_all b64_text_char s \<longrightarrow> json_text S (JString s) = [CHR 0x22] @ s @ [CHR 0x22])"

text \<open>The value a replacement stands for, read from the store.\<close>

definition replacement_json :: "encode_env \<Rightarrow> request_replacement \<Rightarrow> json" where
  "replacement_json E r =
     JObject [(''mimeType'', JString (rr_mime_type r)),
              (''data'', JString (b64_encode (ee_b64 E)
                 (unwrap_or (blob_content (ee_runtime E) (rr_blob r)) [])))]"

definition replacement_values ::
  "encode_env \<Rightarrow> request_replacement list \<Rightarrow> string list \<Rightarrow> json option" where
  "replacement_values E rs =
     (\<lambda>p. map_option (replacement_json E) (replacement_map rs (pointer_text p)))"

definition replaced_request :: "encode_env \<Rightarrow> request_replacement list \<Rightarrow> json \<Rightarrow> json" where
  "replaced_request E rs request =
     replace_at (replacement_values E rs) request []"

text \<open>The reader delivers the content in reads of at most the buffer's free part, without error.\<close>

definition chunker_ok :: "chunker \<Rightarrow> bool" where
  "chunker_ok ch \<longleftrightarrow>
     (\<forall>b. stream_content (ch b) = Some b \<and> (\<forall>c. Inr c \<in> set (ch b) \<longrightarrow> length c \<le> CHUNK_BYTES))"

text \<open>Every image to be written can be read from the store.\<close>

definition encode_ready :: "encode_env \<Rightarrow> request_replacement list \<Rightarrow> bool" where
  "encode_ready E rs \<longleftrightarrow>
     serde_compact (ee_serde E) \<and> base64_laws (ee_b64 E) \<and> chunker_ok (ee_chunker E)
     \<and> (\<forall>r \<in> set rs. blob_content (ee_runtime E) (rr_blob r) \<noteq> None
          \<and> ee_faults E (bh_id (rr_blob r)) = no_faults)"

section \<open>Chunked base64 is base64\<close>

lemma write_counted_append: "write_counted (write_counted w a) b = write_counted w (a @ b)"
  by (simp add: write_counted_def)

lemma base64_loop_Ok:
  assumes "base64_laws B" and "stream_content reads = Some content"
    and "\<forall>c. Inr c \<in> set reads \<longrightarrow> length c \<le> CHUNK_BYTES" and "length carry < 3"
  shows "\<exists>done carry'. base64_loop B reads carry w = Ok (write_counted w (b64_encode B done), carry')
    \<and> done @ carry' = carry @ content \<and> length carry' < 3 \<and> length done mod 3 = 0"
  using assms
proof (induction B reads carry w arbitrary: content rule: base64_loop.induct)
  case (1 B carry w)
  then show ?case
    using base64_nil [OF "1.prems"(1)] by (intro exI [of _ "[]"] exI [of _ carry]) (auto simp: write_counted_def)
next
  case (2 B e reads carry w)
  then show ?case by simp
next
  case (3 B chunk reads carry w)
  note laws = "3.prems"(1)
  show ?case
  proof (cases "chunk = []")
    case True
    with "3.prems" show ?thesis
      using base64_nil [OF laws]
      by (intro exI [of _ "[]"] exI [of _ carry]) (auto simp: write_counted_def)
  next
    case chunk: False
    with "3.prems"(2) obtain rest where rest: "stream_content reads = Some rest" "content = chunk @ rest"
      by auto
    define total where "total = carry @ chunk"
    define n where "n = length total div 3 * 3"
    have unfold: "base64_loop B (Inr chunk # reads) carry w =
        (if n = 0 then base64_loop B reads total w
         else (case encode_slice B (take n total) (div_ceil3 (CHUNK_BYTES + 2) * 4) of
             Err e \<Rightarrow> Err e
           | Ok out \<Rightarrow> base64_loop B reads (drop n total) (write_counted w out)))"
      using chunk by (simp only: base64_loop.simps Let_def if_False total_def n_def)
    have bound: "length total \<le> CHUNK_BYTES + 2"
      using "3.prems"(3,4) by (auto simp: total_def)
    have small: "\<forall>c. Inr c \<in> set reads \<longrightarrow> length c \<le> CHUNK_BYTES"
      using "3.prems"(3) by simp
    show ?thesis
    proof (cases "n = 0")
      case True
      then have "length total < 3" by (auto simp: n_def)
      from "3.IH"(1) [OF chunk total_def n_def True laws rest(1) small this] show ?thesis
        unfolding unfold if_P [OF True] rest(2) total_def append.assoc .
    next
      case False
      have cap: "length (b64_encode B (take n total)) \<le> div_ceil3 (CHUNK_BYTES + 2) * 4"
      proof -
        have "length (take n total) \<le> length total" by simp
        with bound have "(length (take n total) + 2) div 3 \<le> (CHUNK_BYTES + 2 + 2) div 3"
          by (intro div_le_mono) linarith
        then show ?thesis by (simp add: base64_length [OF laws] div_ceil3_def)
      qed
      then have enc: "encode_slice B (take n total) (div_ceil3 (CHUNK_BYTES + 2) * 4)
          = Ok (b64_encode B (take n total))" by (simp add: encode_slice_def)
      let ?w = "write_counted w (b64_encode B (take n total))"
      have "length (drop n total) < 3" by (simp add: n_def minus_div_mult_eq_mod)
      from "3.IH"(2) [OF chunk total_def n_def False enc laws rest(1) small this] obtain d c where
        d: "base64_loop B reads (drop n total) ?w = Ok (write_counted ?w (b64_encode B d), c)"
          "d @ c = drop n total @ rest" "length c < 3" "length d mod 3 = 0" by (elim exE conjE)
      have "n \<le> length total" by (simp add: n_def)
      then have "length (take n total) = n" by (simp only: length_take min_absorb2)
      then have len: "length (take n total) mod 3 = 0" by (simp only: n_def mod_mult_self2_is_0)
      have "write_counted ?w (b64_encode B d) = write_counted w (b64_encode B (take n total @ d))"
        by (simp only: write_counted_append base64_append [OF laws len])
      moreover have "(take n total @ d) @ c = total @ rest"
        using d(2) by (metis append.assoc append_take_drop_id)
      moreover have "3 dvd length (take n total)" "3 dvd length d"
        using len d(4) unfolding mod_eq_0_iff_dvd by blast+
      then have "length (take n total @ d) mod 3 = 0"
        unfolding mod_eq_0_iff_dvd length_append by (rule dvd_add)
      moreover have "base64_loop B (Inr chunk # reads) carry w
          = Ok (write_counted ?w (b64_encode B d), c)"
        using False enc d(1) by (simp only: unfold if_False sum.case)
      ultimately show ?thesis
        using d(3) rest(2) total_def by (metis append.assoc)
    qed
  qed
qed

lemma write_blob_Ok:
  assumes laws: "base64_laws (ee_b64 E)" and ch: "chunker_ok (ee_chunker E)"
    and content: "blob_content (ee_runtime E) h = Some b" and nf: "ee_faults E (bh_id h) = no_faults"
  shows "write_blob_as_base64 E h w = Ok (write_counted w (b64_encode (ee_b64 E) b))"
proof (cases "\<exists>x. bh_storage h = Inline x")
  case True
  with content have "bh_storage h = Inline b" by (auto simp: blob_content_simps)
  then show ?thesis
    using base64_nil [OF laws] base64_length [OF laws, of b]
    by (auto simp: write_blob_as_base64_def write_base64_bytes_def encode_slice_def div_ceil3_def
        write_counted_def)
next
  case False
  have rd: "open_reader (ee_chunker E) (ee_runtime E) (ee_faults E (bh_id h)) h = Ok (ee_chunker E b)"
    using content nf by (auto simp: open_reader_def blob_content_def split: sum.splits)
  obtain d c where d: "base64_loop (ee_b64 E) (ee_chunker E b) [] w
      = Ok (write_counted w (b64_encode (ee_b64 E) d), c)"
    "d @ c = b" "length c < 3" "length d mod 3 = 0"
    using base64_loop_Ok [OF laws, of "ee_chunker E b" b "[]" w] ch by (auto simp: chunker_ok_def)
  have cap: "encode_slice (ee_b64 E) c (div_ceil3 (CHUNK_BYTES + 2) * 4) = Ok (b64_encode (ee_b64 E) c)"
    using d(3) by (simp add: encode_slice_def base64_length [OF laws] div_ceil3_def CHUNK_BYTES_def)
  have "write_counted (write_counted w (b64_encode (ee_b64 E) d)) (b64_encode (ee_b64 E) c)
      = write_counted w (b64_encode (ee_b64 E) b)"
    using base64_append [OF laws d(4), of c] d(2) by (simp add: write_counted_append)
  with False rd d cap base64_nil [OF laws] show ?thesis
    by (cases "bh_storage h") (auto simp: write_blob_as_base64_def write_counted_def)
qed

section \<open>The text written\<close>

lemma serde_compactD:
  assumes "serde_compact S"
  shows "to_vec S v = Ok (json_text S v)"
    and "json_text S (JObject m) =
      ''{'' @ join_with '','' (map (\<lambda>(k, v). json_text S (JString k) @ '':'' @ json_text S v) m) @ ''}''"
    and "json_text S (JArray xs) = ''['' @ join_with '','' (map (json_text S) xs) @ '']''"
    and "list_all b64_text_char s \<Longrightarrow> json_text S (JString s) = [CHR 0x22] @ s @ [CHR 0x22]"
  using assms unfolding serde_compact_def by blast+

lemma write_replacement_Ok:
  assumes ready: "encode_ready E rs" and mem: "r \<in> set rs"
  shows "write_replacement E r w = Ok (write_counted w (json_text (ee_serde E) (replacement_json E r)))"
proof -
  have S: "serde_compact (ee_serde E)" and laws: "base64_laws (ee_b64 E)"
    and ch: "chunker_ok (ee_chunker E)" using ready by (auto simp: encode_ready_def)
  obtain b where b: "blob_content (ee_runtime E) (rr_blob r) = Some b"
    "ee_faults E (bh_id (rr_blob r)) = no_faults"
    using ready mem by (auto simp: encode_ready_def)
  show ?thesis
    using serde_compactD(4) [OF S base64_chars [OF laws], of b]
    by (simp add: write_replacement_def serde_compactD(1,2) [OF S] lift_text_def
        write_blob_Ok [OF laws ch b] write_counted_append replacement_json_def b(1) Let_def)
qed

text \<open>Comma-separated pieces, the first with or without a comma before it.\<close>

fun comma_text :: "bool \<Rightarrow> string list \<Rightarrow> string" where
  "comma_text first [] = []"
| "comma_text first (t # ts) = (if first then t else '','' @ t) @ comma_text False ts"

lemma comma_text_join: "comma_text True ts = join_with '','' ts"
proof (induction ts)
  case (Cons t ts)
  then show ?case by (cases ts) auto
qed simp

lemma replacement_step:
  "encode_ready E rs \<Longrightarrow> replacement_map rs p = Some r \<Longrightarrow>
   write_replacement E r w = Ok (write_counted w (json_text (ee_serde E) (replacement_json E r)))"
  by (rule write_replacement_Ok) (auto simp: replacement_map_def dest: map_of_SomeD)

lemma write_value_Ok:
  assumes ready: "encode_ready E rs" and S: "serde_compact (ee_serde E)"
  shows "R = replacement_values E rs \<Longrightarrow>
      write_json_value E (replacement_map rs) v (pointer_text p) w
      = Ok (write_counted w (json_text (ee_serde E) (replace_at R v p)))"
    and "R = replacement_values E rs \<Longrightarrow>
      write_fields E (replacement_map rs) m first (pointer_text p) w
      = Ok (write_counted w (comma_text first
          (map (\<lambda>(k, v). json_text (ee_serde E) (JString k) @ '':'' @ json_text (ee_serde E) v)
            (replace_fields R m p))))"
    and "R = replacement_values E rs \<Longrightarrow>
      write_items E (replacement_map rs) xs i (pointer_text p) w
      = Ok (write_counted w (comma_text (i = 0) (map (json_text (ee_serde E)) (replace_items R xs i p))))"
proof (induction R v p and R m p and R xs i p arbitrary: w and first w and w
    rule: replace_at_replace_fields_replace_items.induct)
  case (1 R m p)
  then show ?case
    by (cases "replacement_map rs (pointer_text p)")
      (simp_all add: replacement_step [OF ready] write_counted_append replacement_values_def
        serde_compactD(2) [OF S] comma_text_join)
next
  case (2 R xs p)
  then show ?case
    by (cases "replacement_map rs (pointer_text p)")
      (simp_all add: replacement_step [OF ready] write_counted_append replacement_values_def
        serde_compactD(3) [OF S] comma_text_join)
next
  case (5 R k x m p)
  then show ?case
    by (simp add: pointer_text_snoc [symmetric, unfolded append_Cons append_Nil] lift_text_def
        serde_compactD(1) [OF S] write_counted_append Let_def)
next
  case (7 R x xs i p)
  have p: "pointer_text p @ ''/'' @ show_nat i = pointer_text (p @ [show_nat i])"
    by (simp add: pointer_text_snoc show_nat_escape)
  from 7 show ?case
    by (simp add: p [unfolded append_Cons append_Nil] write_counted_append Let_def)
qed (auto simp: write_counted_def replacement_values_def replacement_step [OF ready] write_primitive_def
    lift_text_def serde_compactD(1) [OF S] split: option.splits)

section \<open>The encoded body\<close>

text \<open>The body that goes upstream, as text.\<close>

definition encoded_text :: "encode_env \<Rightarrow> request_replacement list \<Rightarrow> json \<Rightarrow> string" where
  "encoded_text E rs request =
     json_text (ee_serde E) (replaced_request E rs (strip_output_from_value request))"

text \<open>The pipe delivers what was written, in some pieces.\<close>

definition pipe_ok :: "pipe_env \<Rightarrow> bool" where
  "pipe_ok P \<longleftrightarrow> (\<forall>t. stream_content (pe_pipe P t) = Some t)"

lemma write_request_Ok:
  assumes ready: "encode_ready E rs"
  shows "write_json_value E (replacement_map rs) (strip_output_from_value request) [] ([], 0)
    = Ok (encoded_text E rs request, of_nat (length (encoded_text E rs request)))"
proof -
  have S: "serde_compact (ee_serde E)" using ready by (simp add: encode_ready_def)
  show ?thesis
    using write_value_Ok(1) [OF ready S refl, of "strip_output_from_value request" "[]" "([], 0)"]
    by (simp add: encoded_text_def replaced_request_def write_counted_def)
qed

lemma store_bytes_no_faults: "\<exists>h rt'. store_bytes rt no_faults bytes mime = (Ok h, rt')"
  by (auto simp: store_bytes_def next_id_def place_bytes_def write_spilled_bytes_def fs_then_def
      fs_mkdir_def fs_write_def no_faults_def build_handle_def Let_def split: prod.splits)

lemma encode_request_body_text:
  assumes ready: "encode_ready E rs" and pipe: "pipe_ok P"
    and inv: "blob_inv (ee_runtime E) H" and room: "ids_left 1 (ee_runtime E)"
    and small: "length (encoded_text E rs request) < 2 ^ 64"
    and enc: "encode_request_body E P request rs = (r, rt')"
  shows "case r of
      Ok eb \<Rightarrow> eb_content_length eb = of_nat (length (encoded_text E rs request))
        \<and> eb_body_blob eb \<notin> H \<and> blob_inv rt' (insert (eb_body_blob eb) H)
        \<and> blob_content rt' (eb_body_blob eb) = Some (encoded_text E rs request)
        \<and> (\<forall>g \<in> H. blob_content rt' g = blob_content (ee_runtime E) g)
    | Err _ \<Rightarrow> pe_faults P \<noteq> no_faults \<and> blob_inv rt' H"
proof -
  let ?t = "encoded_text E rs request"
  have content: "stream_content (pe_pipe P ?t) = Some ?t" using pipe by (simp add: pipe_ok_def)
  obtain s rt1 where st: "store_stream (ee_runtime E) (pe_faults P) (pe_pipe P ?t) ''application/json'' = (s, rt1)"
    by (cases "store_stream (ee_runtime E) (pe_faults P) (pe_pipe P ?t) ''application/json''")
  show ?thesis
  proof (cases s)
    case (Inr h)
    with enc st have r: "r = Ok \<lparr>eb_body_blob = h, eb_content_length = of_nat (length ?t)\<rparr>" "rt' = rt1"
      by (auto simp: encode_request_body_def write_request_Ok [OF ready] Let_def)
    have "stored_as (ee_runtime E) rt1 h ?t"
      using store_stream_Ok [OF st [unfolded Inr]] content small by auto
    from stored_as_inv [OF inv this small room] r show ?thesis by simp
  next
    case (Inl e)
    with enc st obtain e' where r: "r = Err e'" "rt' = rt1"
      by (auto simp: encode_request_body_def write_request_Ok [OF ready] Let_def)
    have "store_failed (ee_runtime E) rt1" by (rule store_stream_Err [OF st [unfolded Inl]])
    from store_failed_inv [OF inv this room] have "blob_inv rt' H" using r by simp
    moreover have "pe_faults P \<noteq> no_faults"
    proof
      assume nf: "pe_faults P = no_faults"
      obtain h rt2 where "store_bytes (ee_runtime E) no_faults ?t ''application/json'' = (Ok h, rt2)"
        using store_bytes_no_faults by blast
      with st Inl nf store_stream_eq_store_bytes [OF content small, of "ee_runtime E" "''application/json''"]
      show False by simp
    qed
    ultimately show ?thesis using r by simp
  qed
qed

section \<open>Properties\<close>

text \<open>The instances of the witnesses: one PNG in the store and a request that refers to it.\<close>

lemma sample_serde_compact: "serde_compact (sample_serde table)"
proof -
  have f: "sample_fields m = join_with '','' (map (\<lambda>(k, v). (CHR 0x22 # k @ [CHR 0x22]) @ '':'' @ sample_print v) m)" for m
  proof (induction m)
    case (Cons e m)
    then show ?case by (cases e; cases m) auto
  qed simp
  have i: "sample_items xs = join_with '','' (map sample_print xs)" for xs
  proof (induction xs)
    case (Cons x xs)
    then show ?case by (cases xs) auto
  qed simp
  have t: "json_text (sample_serde table) = sample_print"
    by (intro ext) (simp add: json_text_def sample_serde_def)
  show ?thesis
    unfolding serde_compact_def t by (simp add: sample_serde_def f i)
qed

definition one_chunk :: chunker where
  "one_chunk b = (if b = [] then [] else map (\<lambda>c. Inr [c]) b)"

lemma one_chunk_content: "stream_content (one_chunk b) = Some b"
  by (induction b) (auto simp: one_chunk_def split: if_splits)

lemma one_chunk_ok: "chunker_ok one_chunk"
  by (auto simp: chunker_ok_def one_chunk_content) (auto simp: one_chunk_def CHUNK_BYTES_def split: if_splits)

definition sample_store :: "blob_handle \<times> blob_runtime" where
  "sample_store =
     (case store_bytes (blob_runtime_new small_cfg (\<lambda>_. None)) no_faults ''abcdefghi'' ''image/png'' of
        (Ok h, rt) \<Rightarrow> (h, rt)
      | (Err _, rt) \<Rightarrow> (\<lparr>bh_id = 0, bh_mime_type = [], bh_size_bytes = 0, bh_storage = Inline []\<rparr>, rt))"

definition sample_replacement :: request_replacement where
  "sample_replacement =
     \<lparr>rr_json_pointer = ''/contents/0/parts/1/inlineData'', rr_mime_type = ''image/png'',
      rr_blob = fst sample_store\<rparr>"

definition sample_encode_env :: encode_env where
  "sample_encode_env =
     \<lparr>ee_serde = sample_serde [], ee_b64 = base64_std, ee_runtime = snd sample_store,
      ee_chunker = one_chunk, ee_faults = (\<lambda>_. no_faults)\<rparr>"

definition sample_pipe :: pipe_env where
  "sample_pipe = \<lparr>pe_pipe = one_chunk, pe_faults = no_faults, pe_broken = None, pe_aborted = None\<rparr>"

lemma sample_store_inv:
  "blob_inv (snd sample_store) {fst sample_store} \<and> ids_left 1 (snd sample_store)
   \<and> blob_content (snd sample_store) (fst sample_store) = Some ''abcdefghi''"
proof -
  obtain h rt where st: "store_bytes (blob_runtime_new small_cfg (\<lambda>_. None)) no_faults ''abcdefghi'' ''image/png'' = (Ok h, rt)"
    using store_bytes_no_faults by blast
  have room: "ids_left 1 (blob_runtime_new small_cfg (\<lambda>_. None))"
    by (simp add: ids_left_def blob_runtime_new_def)
  have s: "sample_store = (h, rt)" by (simp add: sample_store_def st)
  have "br_next_id rt = 2" using store_bytes_next [OF st] by (simp add: blob_runtime_new_def)
  with stored_as_inv [OF blob_inv_new conjunct1 [OF store_bytes_Ok [OF st]] _ room]
  show ?thesis by (simp add: s ids_left_def)
qed

lemma sample_encode_ready: "encode_ready sample_encode_env [sample_replacement]"
  using sample_store_inv
  by (simp add: encode_ready_def sample_encode_env_def sample_serde_compact base64_std_laws one_chunk_ok
      sample_replacement_def)

text \<open>
  (C7) The piecewise writer produces exactly the JSON text of the request without its output
  fields in which every image reference is replaced by \<^verbatim>\<open>{mimeType, data}\<close> with the base64 of the
  stored image, however the store's reads and the pipe cut the data; the blob holding the body
  reads back as that text, its length is the announced content length, no other blob changes,
  and an error means that a file operation failed and leaves the store's accounts intact.
\<close>

theorem encoded_body_is_serialized_request:
  assumes "encode_ready E rs" "pipe_ok P"
    and "blob_inv (ee_runtime E) H" "ids_left 1 (ee_runtime E)"
    and "length (encoded_text E rs request) < 2 ^ 64"
    and "encode_request_body E P request rs = (r, rt')"
  shows "case r of
      Ok eb \<Rightarrow> eb_content_length eb = of_nat (length (encoded_text E rs request))
        \<and> blob_content rt' (eb_body_blob eb) = Some (encoded_text E rs request)
        \<and> eb_body_blob eb \<notin> H \<and> blob_inv rt' (insert (eb_body_blob eb) H)
        \<and> (\<forall>g \<in> H. blob_content rt' g = blob_content (ee_runtime E) g)
    | Err _ \<Rightarrow> pe_faults P \<noteq> no_faults \<and> blob_inv rt' H"
  using encode_request_body_text [OF assms] by (auto split: sum.splits)

lemma sample_encoded_text:
  "length (encoded_text sample_encode_env [sample_replacement] sample_image_request) = 102"
proof -
  have content: "blob_content (snd sample_store) (fst sample_store) = Some ''abcdefghi''"
    using sample_store_inv by simp
  have t: "json_text (sample_serde []) = sample_print"
    by (intro ext) (simp add: json_text_def sample_serde_def)
  have strip: "strip_output_from_value sample_image_request = sample_image_request" by code_simp
  have z: "show_nat 0 = ''0''" "show_nat (Suc 0) = ''1''" by code_simp+
  show ?thesis
    unfolding encoded_text_def strip
    by (simp add: replaced_request_def replacement_values_def sample_image_request_def sample_encode_env_def
        replacement_map_def sample_replacement_def pointer_text_def escape_eq escape_char_def t content z
        replacement_json_def base64_std_def quad_def b64_char_def bval_def)
qed

lemma encoded_body_is_serialized_request_witness:
  "\<exists>eb. fst (encode_request_body sample_encode_env sample_pipe sample_image_request [sample_replacement]) = Ok eb
     \<and> eb_content_length eb = 102"
proof -
  have "pipe_ok sample_pipe" by (simp add: pipe_ok_def sample_pipe_def one_chunk_content)
  moreover have "ee_runtime sample_encode_env = snd sample_store" "pe_faults sample_pipe = no_faults"
    by (simp_all add: sample_encode_env_def sample_pipe_def)
  ultimately show ?thesis
    using encoded_body_is_serialized_request [OF sample_encode_ready, of sample_pipe "{fst sample_store}"
        sample_image_request "fst (encode_request_body sample_encode_env sample_pipe sample_image_request
          [sample_replacement])" "snd (encode_request_body sample_encode_env sample_pipe
          sample_image_request [sample_replacement])"] sample_store_inv
    by (simp add: sample_encoded_text split: sum.splits)
qed

end
