(* ===== verification/Image_Io.thy ===== *)
theory Image_Io
  imports Blob_Runtime Samples
begin

text \<open>
  \<^verbatim>\<open>src/image_io.rs\<close>: fetching an image over HTTP with a size limit and a ban on private
  targets, MIME types, and re-encoding. The HTTP client's answer is a value (\<open>http_response\<close>,
  with the body as the sequence of chunks the client hands out), the image codecs are the
  interface \<open>image_api\<close>. \<^verbatim>\<open>IpAddr::from_str\<close> belongs to the standard library and is modelled.
\<close>

section \<open>Constants\<close>

definition DEFAULT_MAX_IMAGE_BYTES :: nat where
  "DEFAULT_MAX_IMAGE_BYTES = 35 * 1024 * 1024"

definition REQUEST_MAX_IMAGE_BYTES :: nat where
  "REQUEST_MAX_IMAGE_BYTES = 20 * 1024 * 1024"

definition REQUEST_PNG_WEBP_THRESHOLD_BYTES :: nat where
  "REQUEST_PNG_WEBP_THRESHOLD_BYTES = 10 * 1024 * 1024"

definition PNG_COMPRESSION_THRESHOLD_BYTES :: nat where
  "PNG_COMPRESSION_THRESHOLD_BYTES = 15 * 1024 * 1024"

definition REQUEST_PNG_WEBP_OPTIMIZATION_TIMEOUT :: nat where
  "REQUEST_PNG_WEBP_OPTIMIZATION_TIMEOUT = 15000"

definition DEFAULT_JPEG_QUALITY :: nat where
  "DEFAULT_JPEG_QUALITY = 97"

section \<open>IP addresses\<close>

text \<open>The value of a hexadecimal digit, and \<^verbatim>\<open>to_digit(radix)\<close>.\<close>

definition hex_value :: "char \<Rightarrow> nat option" where
  "hex_value c =
     (let b = bval c in
      if 48 \<le> b \<and> b \<le> 57 then Some (b - 48)
      else if 97 \<le> b \<and> b \<le> 102 then Some (b - 87)
      else if 65 \<le> b \<and> b \<le> 70 then Some (b - 55) else None)"

definition to_digit :: "nat \<Rightarrow> char \<Rightarrow> nat option" where
  "to_digit radix c = opt_filter (\<lambda>d. d < radix) (hex_value c)"

text \<open>\<^verbatim>\<open>read_number\<close> of the standard library's address parser.\<close>

definition read_number :: "nat \<Rightarrow> nat \<Rightarrow> nat \<Rightarrow> bool \<Rightarrow> string \<Rightarrow> (nat \<times> string) option" where
  "read_number radix max_digits max_value allow_zero_prefix s =
     (let ds = takeWhile (\<lambda>c. to_digit radix c \<noteq> None) s;
          v = foldl (\<lambda>n c. n * radix + unwrap_or (to_digit radix c) 0) 0 ds
      in if ds = [] \<or> max_digits < length ds \<or> max_value < v
            \<or> (\<not> allow_zero_prefix \<and> hd ds = CHR ''0'' \<and> 1 < length ds) then None
         else Some (v, drop (length ds) s))"

fun read_char_given :: "char \<Rightarrow> string \<Rightarrow> string option" where
  "read_char_given c [] = None"
| "read_char_given c (x # xs) = (if x = c then Some xs else None)"

definition read_octet :: "string \<Rightarrow> (nat \<times> string) option" where
  "read_octet s = read_number 10 3 255 False s"

definition read_dot_octet :: "string \<Rightarrow> (nat \<times> string) option" where
  "read_dot_octet s = Option.bind (read_char_given (CHR ''.'') s) read_octet"

definition read_ipv4_addr :: "string \<Rightarrow> (nat list \<times> string) option" where
  "read_ipv4_addr s =
     Option.bind (read_octet s) (\<lambda>(a, s). Option.bind (read_dot_octet s) (\<lambda>(b, s).
     Option.bind (read_dot_octet s) (\<lambda>(c, s). Option.bind (read_dot_octet s)
       (\<lambda>(d, s). Some ([a, b, c, d], s)))))"

definition read_group_separator :: "nat \<Rightarrow> string \<Rightarrow> string option" where
  "read_group_separator i s = (if i = 0 then Some s else read_char_given (CHR '':'') s)"

text \<open>
  The groups from index \<open>i\<close> below \<open>limit\<close>: the values read, whether an IPv4 tail ended them, and
  the rest.
\<close>

fun read_groups :: "nat \<Rightarrow> nat \<Rightarrow> nat \<Rightarrow> string \<Rightarrow> nat list \<times> bool \<times> string" where
  "read_groups 0 i limit s = ([], False, s)"
| "read_groups (Suc n) i limit s =
     (if limit \<le> i then ([], False, s)
      else
        (case (if i < limit - 1 then Option.bind (read_group_separator i s) read_ipv4_addr else None) of
           Some (v4, rest) \<Rightarrow> ([v4 ! 0 * 256 + v4 ! 1, v4 ! 2 * 256 + v4 ! 3], True, rest)
         | None \<Rightarrow>
             (case Option.bind (read_group_separator i s) (\<lambda>s. read_number 16 4 65535 True s) of
                None \<Rightarrow> ([], False, s)
              | Some (g, rest) \<Rightarrow>
                  (case read_groups n (i + 1) limit rest of (gs, v4, rest') \<Rightarrow> (g # gs, v4, rest')))))"

definition read_ipv6_addr :: "string \<Rightarrow> (nat list \<times> string) option" where
  "read_ipv6_addr s =
     (case read_groups 8 0 8 s of (head, head_v4, rest) \<Rightarrow>
        if length head = 8 then Some (head, rest)
        else if head_v4 then None
        else Option.bind (Option.bind (read_char_given (CHR '':'') rest) (read_char_given (CHR '':'')))
          (\<lambda>rest. let limit = 8 - (length head + 1) in
             case read_groups limit 0 limit rest of (tail, _, rest') \<Rightarrow>
               Some (head @ replicate (8 - length head - length tail) 0 @ tail, rest')))"

datatype ip_addr = V4 "nat list" | V6 "nat list"

text \<open>\<^verbatim>\<open>str::parse::<IpAddr>\<close>: the whole text must be one address.\<close>

definition parse_ip_addr :: "string \<Rightarrow> ip_addr option" where
  "parse_ip_addr s =
     (case (case read_ipv4_addr s of
              Some (a, rest) \<Rightarrow> Some (V4 a, rest)
            | None \<Rightarrow> map_option (\<lambda>(a, rest). (V6 a, rest)) (read_ipv6_addr s)) of
        Some (ip, rest) \<Rightarrow> (if rest = [] then Some ip else None)
      | None \<Rightarrow> None)"

definition v4_forbidden :: "nat list \<Rightarrow> bool" where
  "v4_forbidden ip \<longleftrightarrow>
     ip ! 0 = 10 \<or> (ip ! 0 = 172 \<and> 16 \<le> ip ! 1 \<and> ip ! 1 \<le> 31) \<or> (ip ! 0 = 192 \<and> ip ! 1 = 168)
     \<or> ip ! 0 = 127 \<or> (ip ! 0 = 169 \<and> ip ! 1 = 254) \<or> ip = [0, 0, 0, 0]"

definition v6_forbidden :: "nat list \<Rightarrow> bool" where
  "v6_forbidden ip \<longleftrightarrow>
     ip = [0, 0, 0, 0, 0, 0, 0, 1] \<or> ip = [0, 0, 0, 0, 0, 0, 0, 0]
     \<or> (64512 \<le> ip ! 0 \<and> ip ! 0 \<le> 65023) \<or> (65152 \<le> ip ! 0 \<and> ip ! 0 \<le> 65215)"

definition forbidden_host :: "string \<Rightarrow> bool" where
  "forbidden_host host =
     (let hostname = trim host in
      if eq_ignore_case hostname ''localhost'' then True
      else (case parse_ip_addr hostname of
          Some (V4 ip) \<Rightarrow> v4_forbidden ip
        | Some (V6 ip) \<Rightarrow> v6_forbidden ip
        | None \<Rightarrow> False))"

definition is_forbidden_fetch_target :: "'u url_api \<Rightarrow> 'u \<Rightarrow> bool" where
  "is_forbidden_fetch_target U url = forbidden_host (host_or_empty U url)"

section \<open>Domain patterns and MIME types\<close>

definition domain_pattern_matches :: "string \<Rightarrow> string \<Rightarrow> bool" where
  "domain_pattern_matches hostname pattern =
     (let pattern = to_lower (trim pattern) in
      if pattern = [] then False
      else (case strip_prefix pattern ''.'' of
          Some sfx \<Rightarrow> hostname = sfx \<or> ends_with hostname pattern
        | None \<Rightarrow> hostname = pattern))"

definition hostname_matches_domain_patterns :: "string \<Rightarrow> string list \<Rightarrow> bool" where
  "hostname_matches_domain_patterns hostname patterns =
     (let hostname = to_lower (trim hostname) in
      if hostname = [] then False else list_ex (domain_pattern_matches hostname) patterns)"

definition guess_image_mime_type_from_url :: "string \<Rightarrow> string" where
  "guess_image_mime_type_from_url raw_url =
     (let lower = to_lower raw_url in
      if ends_with lower ''.jpg'' \<or> ends_with lower ''.jpeg'' then ''image/jpeg''
      else if ends_with lower ''.webp'' then ''image/webp''
      else if ends_with lower ''.gif'' then ''image/gif''
      else ''image/png'')"

definition normalize_image_mime_type :: "string option \<Rightarrow> string \<Rightarrow> string" where
  "normalize_image_mime_type content_type raw_url =
     (let normalized = to_lower (trim (hd (split_on (CHR '';'') (unwrap_or content_type ''image/png''))))
      in if normalized = ''application/octet-stream'' \<or> normalized = []
         then guess_image_mime_type_from_url raw_url else normalized)"

definition sniff_image_mime_type :: "string \<Rightarrow> string option" where
  "sniff_image_mime_type bytes =
     (if starts_with bytes [CHR 0x89, CHR ''P'', CHR ''N'', CHR ''G'', CHR 0x0D, CHR 0x0A, CHR 0x1A, CHR 0x0A]
      then Some ''image/png''
      else if starts_with bytes [CHR 0xFF, CHR 0xD8, CHR 0xFF] then Some ''image/jpeg''
      else if 12 \<le> length bytes \<and> take 4 bytes = ''RIFF'' \<and> take 4 (drop 8 bytes) = ''WEBP''
      then Some ''image/webp''
      else if starts_with bytes ''GIF87a'' \<or> starts_with bytes ''GIF89a'' then Some ''image/gif''
      else None)"

section \<open>Fetching\<close>

text \<open>
  An HTTP answer as the client sees it: the announced length, the \<^verbatim>\<open>content-type\<close> header as
  text, and the results of the successive \<^verbatim>\<open>chunk()\<close> calls (the list's end is the body's end).
\<close>

record http_response =
  hr_status :: status
  hr_content_length :: "nat option"
  hr_content_type :: "string option"
  hr_chunks :: "string fallible list"

type_synonym 'u http_get = "'u \<Rightarrow> http_response fallible"

record fetched_inline_data =
  fi_mime_type :: string
  fi_bytes :: string

definition enforce_max_size :: "nat \<Rightarrow> nat \<Rightarrow> unit fallible" where
  "enforce_max_size actual limit =
     (if limit < actual
      then Err (Message (''image too large: '' @ show_nat actual @ '' > '' @ show_nat limit))
      else Ok ())"

definition enforce_max_size_u64 :: "nat \<Rightarrow> nat \<Rightarrow> unit fallible" where
  "enforce_max_size_u64 actual limit =
     (if limit < actual
      then Err (Message (''image too large: '' @ show_nat actual @ '' > '' @ show_nat limit))
      else Ok ())"

fun read_limited :: "nat \<Rightarrow> string fallible list \<Rightarrow> string \<Rightarrow> string fallible" where
  "read_limited limit [] acc = Ok acc"
| "read_limited limit (Inl e # chunks) acc = Err e"
| "read_limited limit (Inr chunk # chunks) acc =
     (case enforce_max_size (length acc + length chunk) limit of
        Err e \<Rightarrow> Err e
      | Ok _ \<Rightarrow> read_limited limit chunks (acc @ chunk))"

definition fetch_image_as_inline_data_with_options ::
  "'u url_api \<Rightarrow> 'u http_get \<Rightarrow> string \<Rightarrow> nat \<Rightarrow> bool \<Rightarrow> fetched_inline_data fallible" where
  "fetch_image_as_inline_data_with_options U get raw_url max_image_bytes allow_private_networks =
     (case url_parse U raw_url of
        Err e \<Rightarrow> Err (Message e)
      | Ok parsed \<Rightarrow>
          if \<not> is_http_scheme (url_scheme U parsed) \<or> host_or_empty U parsed = []
          then Err (Message ''invalid image url'')
          else if \<not> allow_private_networks \<and> is_forbidden_fetch_target U parsed
          then Err (Message (''forbidden target: '' @ host_or_empty U parsed))
          else
            (case get parsed of
               Err e \<Rightarrow> Err e
             | Ok response \<Rightarrow>
                 if \<not> is_success (hr_status response)
                 then Err (ImageFetchStatusError (hr_status response))
                 else
                   (case (case hr_content_length response of
                            None \<Rightarrow> Ok ()
                          | Some n \<Rightarrow> enforce_max_size_u64 n max_image_bytes) of
                      Err e \<Rightarrow> Err e
                    | Ok _ \<Rightarrow>
                        (case read_limited max_image_bytes (hr_chunks response) [] of
                           Err e \<Rightarrow> Err e
                         | Ok bytes \<Rightarrow>
                             Ok \<lparr>fi_mime_type =
                                   normalize_image_mime_type (hr_content_type response) raw_url,
                                 fi_bytes = bytes\<rparr>))))"

definition fetch_image_as_inline_data ::
  "'u url_api \<Rightarrow> 'u http_get \<Rightarrow> string \<Rightarrow> nat \<Rightarrow> fetched_inline_data fallible" where
  "fetch_image_as_inline_data U get raw_url max_image_bytes =
     fetch_image_as_inline_data_with_options U get raw_url max_image_bytes False"

section \<open>Re-encoding\<close>

text \<open>The codecs: reading a PNG, its dimensions, and the two encoders (an error is its text).\<close>

record 'i image_api =
  load_png :: "string \<Rightarrow> (string, 'i) result"
  img_width :: "'i \<Rightarrow> nat"
  img_height :: "'i \<Rightarrow> nat"
  jpeg_encode :: "nat \<Rightarrow> 'i \<Rightarrow> (string, string) result"
  webp_encode :: "'i \<Rightarrow> (string, string) result"

record optimized_image =
  oi_mime_type :: string
  oi_bytes :: string

datatype optimization_result = Unchanged string | Reencoded string string

fun is_unchanged :: "optimization_result \<Rightarrow> bool" where
  "is_unchanged (Unchanged _) = True"
| "is_unchanged (Reencoded _ _) = False"

fun result_mime_type :: "optimization_result \<Rightarrow> string" where
  "result_mime_type (Unchanged mime_type) = mime_type"
| "result_mime_type (Reencoded mime_type _) = mime_type"

fun into_optimized_image :: "optimization_result \<Rightarrow> string \<Rightarrow> optimized_image" where
  "into_optimized_image (Unchanged mime_type) original = \<lparr>oi_mime_type = mime_type, oi_bytes = original\<rparr>"
| "into_optimized_image (Reencoded mime_type bytes) original = \<lparr>oi_mime_type = mime_type, oi_bytes = bytes\<rparr>"

definition maybe_compress_png_bytes_result ::
  "'i image_api \<Rightarrow> string \<Rightarrow> string \<Rightarrow> bool \<Rightarrow> nat \<Rightarrow> nat \<Rightarrow> optimization_result fallible" where
  "maybe_compress_png_bytes_result I bytes mime_type enabled threshold_bytes jpeg_quality =
     (let normalized_mime = to_lower (trim mime_type) in
      if \<not> enabled \<or> normalized_mime \<noteq> ''image/png'' \<or> length bytes \<le> threshold_bytes
      then Ok (Unchanged normalized_mime)
      else (case load_png I bytes of
          Err e \<Rightarrow> Err (Message e)
        | Ok img \<Rightarrow>
            if u16_max < img_width I img then Err (Message ''image width too large'')
            else if u16_max < img_height I img then Err (Message ''image height too large'')
            else (case jpeg_encode I jpeg_quality img of
                Err e \<Rightarrow> Err (Message e)
              | Ok encoded \<Rightarrow>
                  if length bytes \<le> length encoded then Ok (Unchanged normalized_mime)
                  else Ok (Reencoded ''image/jpeg'' encoded))))"

definition maybe_compress_png_bytes_with_options ::
  "'i image_api \<Rightarrow> string \<Rightarrow> string \<Rightarrow> bool \<Rightarrow> nat \<Rightarrow> nat \<Rightarrow> optimized_image fallible" where
  "maybe_compress_png_bytes_with_options I bytes mime_type enabled threshold_bytes jpeg_quality =
     map_sum id (\<lambda>r. into_optimized_image r bytes)
       (maybe_compress_png_bytes_result I bytes mime_type enabled threshold_bytes jpeg_quality)"

definition maybe_compress_png_bytes_with_threshold ::
  "'i image_api \<Rightarrow> string \<Rightarrow> string \<Rightarrow> bool \<Rightarrow> nat \<Rightarrow> optimized_image fallible" where
  "maybe_compress_png_bytes_with_threshold I bytes mime_type enabled threshold_bytes =
     maybe_compress_png_bytes_with_options I bytes mime_type enabled threshold_bytes DEFAULT_JPEG_QUALITY"

definition maybe_compress_png_bytes ::
  "'i image_api \<Rightarrow> string \<Rightarrow> string \<Rightarrow> bool \<Rightarrow> optimized_image fallible" where
  "maybe_compress_png_bytes I bytes mime_type enabled =
     maybe_compress_png_bytes_with_options I bytes mime_type enabled PNG_COMPRESSION_THRESHOLD_BYTES
       DEFAULT_JPEG_QUALITY"

definition maybe_convert_png_bytes_to_lossless_webp_with_threshold ::
  "'i image_api \<Rightarrow> string \<Rightarrow> string \<Rightarrow> nat \<Rightarrow> optimized_image fallible" where
  "maybe_convert_png_bytes_to_lossless_webp_with_threshold I bytes mime_type threshold_bytes =
     (let normalized_mime = to_lower (trim mime_type) in
      if normalized_mime \<noteq> ''image/png'' \<or> length bytes \<le> threshold_bytes
      then Ok \<lparr>oi_mime_type = normalized_mime, oi_bytes = bytes\<rparr>
      else (case load_png I bytes of
          Err e \<Rightarrow> Err (Message e)
        | Ok img \<Rightarrow>
            (case webp_encode I img of
               Err e \<Rightarrow> Err (Message e)
             | Ok encoded \<Rightarrow>
                 if length bytes \<le> length encoded
                 then Ok \<lparr>oi_mime_type = normalized_mime, oi_bytes = bytes\<rparr>
                 else Ok \<lparr>oi_mime_type = ''image/webp'', oi_bytes = encoded\<rparr>)))"

definition convert_large_png_sync ::
  "'i image_api \<Rightarrow> fetched_inline_data \<Rightarrow> fetched_inline_data fallible" where
  "convert_large_png_sync I fetched =
     map_sum id (\<lambda>o'. \<lparr>fi_mime_type = oi_mime_type o', fi_bytes = oi_bytes o'\<rparr>)
       (maybe_convert_png_bytes_to_lossless_webp_with_threshold I (fi_bytes fetched)
          (fi_mime_type fetched) REQUEST_PNG_WEBP_THRESHOLD_BYTES)"

text \<open>The blocking task may fail to join (its error); its own error falls back to the input.\<close>

definition maybe_convert_large_png_to_lossless_webp ::
  "'i image_api \<Rightarrow> string option \<Rightarrow> fetched_inline_data \<Rightarrow> fetched_inline_data fallible" where
  "maybe_convert_large_png_to_lossless_webp I join_error fetched =
     (case join_error of
        Some err \<Rightarrow> Err (Message (''request image optimization task failed: '' @ err))
      | None \<Rightarrow>
          (case convert_large_png_sync I fetched of Err _ \<Rightarrow> Ok fetched | Ok optimized \<Rightarrow> Ok optimized))"

text \<open>The last argument says whether the timeout fires before the task is done.\<close>

definition maybe_convert_large_png_to_lossless_webp_with_timeout ::
  "'i image_api \<Rightarrow> string option \<Rightarrow> fetched_inline_data \<Rightarrow> nat \<Rightarrow> bool \<Rightarrow> fetched_inline_data fallible" where
  "maybe_convert_large_png_to_lossless_webp_with_timeout I join_error fetched timeout elapses =
     (if timeout \<noteq> 0 \<and> elapses then Ok fetched
      else maybe_convert_large_png_to_lossless_webp I join_error fetched)"

section \<open>Into the blob store\<close>

record fetched_blob =
  fb_mime_type :: string
  fb_blob :: blob_handle

definition lift_blob_error :: "(string, 'a) result \<Rightarrow> 'a fallible" where
  "lift_blob_error r = map_sum Message id r"

definition fetch_image_into_blob ::
  "'u url_api \<Rightarrow> 'u http_get \<Rightarrow> 'i image_api \<Rightarrow> string option \<Rightarrow> bool \<Rightarrow> fault_schedule
   \<Rightarrow> blob_runtime \<Rightarrow> string \<Rightarrow> nat \<Rightarrow> bool \<Rightarrow> fetched_blob fallible \<times> blob_runtime" where
  "fetch_image_into_blob U get I join_error elapses io rt raw_url max_image_bytes allow_private_networks =
     (case fetch_image_as_inline_data_with_options U get raw_url max_image_bytes allow_private_networks of
        Err e \<Rightarrow> (Err e, rt)
      | Ok fetched \<Rightarrow>
          (case maybe_convert_large_png_to_lossless_webp_with_timeout I join_error fetched
              REQUEST_PNG_WEBP_OPTIMIZATION_TIMEOUT elapses of
             Err e \<Rightarrow> (Err e, rt)
           | Ok fetched \<Rightarrow>
               (case store_shared_bytes rt io (fi_bytes fetched) (fi_mime_type fetched) of
                  (Err e, rt') \<Rightarrow> (Err (Message e), rt')
                | (Ok blob, rt') \<Rightarrow>
                    (Ok \<lparr>fb_mime_type = fi_mime_type fetched, fb_blob = blob\<rparr>, rt'))))"

section \<open>Properties of fetching\<close>

lemma enforce_max_size_Ok_iff [rust_simps]: "enforce_max_size a l = Ok x \<longleftrightarrow> a \<le> l"
  by (auto simp: enforce_max_size_def)

text \<open>All the chunks of a body that ends without an error.\<close>

fun chunks_content :: "string fallible list \<Rightarrow> string option" where
  "chunks_content [] = Some []"
| "chunks_content (Inl e # chunks) = None"
| "chunks_content (Inr c # chunks) = map_option (\<lambda>s. c @ s) (chunks_content chunks)"

lemma read_limited_Ok_iff:
  "length acc \<le> limit \<Longrightarrow>
   read_limited limit chunks acc = Ok bytes
   \<longleftrightarrow> (\<exists>content. chunks_content chunks = Some content \<and> bytes = acc @ content \<and> length bytes \<le> limit)"
proof (induction limit chunks acc rule: read_limited.induct)
  case (3 limit chunk chunks acc)
  show ?case
  proof (cases "length acc + length chunk \<le> limit")
    case True
    with 3 show ?thesis
      by (cases "chunks_content chunks") (auto simp: enforce_max_size_def)
  next
    case False
    then show ?thesis by (auto simp: enforce_max_size_def)
  qed
qed auto

text \<open>A compression never makes the image larger, and never fails on an image it leaves alone.\<close>

lemma compress_result_smaller:
  "maybe_compress_png_bytes_result I bytes mime en thr q = Ok r
   \<Longrightarrow> length (oi_bytes (into_optimized_image r bytes)) \<le> length bytes
       \<and> (is_unchanged r \<longrightarrow> result_mime_type r = to_lower (trim mime))
       \<and> (\<not> is_unchanged r \<longrightarrow> en \<and> to_lower (trim mime) = ''image/png'' \<and> thr < length bytes)"
  by (auto simp: maybe_compress_png_bytes_result_def Let_def split: if_splits sum.splits)

lemma webp_smaller:
  "maybe_convert_large_png_to_lossless_webp_with_timeout I j f t el = Ok g
   \<Longrightarrow> length (fi_bytes g) \<le> length (fi_bytes f)"
  by (auto simp: maybe_convert_large_png_to_lossless_webp_with_timeout_def
      maybe_convert_large_png_to_lossless_webp_def convert_large_png_sync_def
      maybe_convert_png_bytes_to_lossless_webp_with_threshold_def Let_def
      split: if_splits option.splits sum.splits)

lemma fetch_image_OkD:
  assumes "fetch_image_as_inline_data_with_options U get raw_url limit allow = Ok f"
  shows "\<exists>u resp. url_parse U raw_url = Ok u \<and> is_http_scheme (url_scheme U u) \<and> host_or_empty U u \<noteq> []
    \<and> (allow \<or> \<not> is_forbidden_fetch_target U u) \<and> get u = Ok resp \<and> is_success (hr_status resp)
    \<and> chunks_content (hr_chunks resp) = Some (fi_bytes f) \<and> length (fi_bytes f) \<le> limit
    \<and> fi_mime_type f = normalize_image_mime_type (hr_content_type resp) raw_url"
  using assms
  by (auto simp: fetch_image_as_inline_data_with_options_def read_limited_Ok_iff
      split: sum.splits if_splits option.splits)

section \<open>The ban on private targets\<close>

lemmas read_groups_numeral = read_groups.simps(2) [of "pred_numeral k" for k, folded numeral_eq_Suc]

lemma to_digit_bracket: "to_digit r (CHR ''['') = None"
  by (simp add: to_digit_def hex_value_def Let_def bval_def)

lemma read_number_bracket: "read_number r d m z (CHR ''['' # s) = None"
  by (simp add: read_number_def to_digit_bracket Let_def)

lemma read_ipv4_bracket: "read_ipv4_addr (CHR ''['' # s) = None"
  by (simp add: read_ipv4_addr_def read_octet_def read_number_bracket)

lemma read_groups_bracket: "read_groups n 0 limit (CHR ''['' # s) = ([], False, CHR ''['' # s)"
  by (cases n) (simp_all add: read_group_separator_def read_ipv4_bracket read_number_bracket)

lemma parse_ip_bracket: "parse_ip_addr (CHR ''['' # s) = None"
  by (simp add: parse_ip_addr_def read_ipv4_bracket read_ipv6_addr_def read_groups_bracket)

text \<open>
  \<^verbatim>\<open>host_str()\<close> of a URL with an IPv6 host is the address in brackets, which the address parser
  rejects: no such host is ever forbidden.
\<close>

lemma bracketed_host_not_forbidden:
  "trim host = CHR ''['' # s \<Longrightarrow> \<not> forbidden_host host"
  by (auto simp: forbidden_host_def parse_ip_bracket eq_ignore_case_def to_lower_def lower_char_def bval_def)

text \<open>Reading back the decimal form of an octet.\<close>

lemma takeWhile_to_digit:
  "list_all is_digit ds \<Longrightarrow> (case rest of [] \<Rightarrow> True | c # _ \<Rightarrow> to_digit 10 c = None)
   \<Longrightarrow> takeWhile (\<lambda>c. to_digit 10 c \<noteq> None) (ds @ rest) = ds"
proof -
  assume ds: "list_all is_digit ds" and rest: "case rest of [] \<Rightarrow> True | c # _ \<Rightarrow> to_digit 10 c = None"
  have "takeWhile (\<lambda>c. to_digit 10 c \<noteq> None) rest = []"
    using rest by (cases rest) auto
  moreover have "\<forall>c \<in> set ds. to_digit 10 c \<noteq> None"
    using ds by (auto simp: list_all_iff is_digit_def to_digit_def hex_value_def Let_def)
  ultimately show ?thesis by (simp add: takeWhile_append2)
qed

lemma show_nat_small:
  "n < 1000 \<Longrightarrow> length (show_nat n) \<le> 3 \<and> (hd (show_nat n) = CHR ''0'' \<longrightarrow> length (show_nat n) = 1)"
proof -
  assume n: "n < 1000"
  have d: "hd (show_nat k) = CHR ''0'' \<longleftrightarrow> k = 0" if "k < 10" for k
  proof -
    have "show_nat k = [char_of (48 + k)]" using that by (simp add: show_nat.simps [of k])
    moreover have "char_of (48 + k) = CHR ''0'' \<longleftrightarrow> k = 0"
    proof
      assume "char_of (48 + k) = CHR ''0''"
      then have "bval (char_of (48 + k)) = bval CHR ''0''" by simp
      with that show "k = 0" by (simp add: bval_def)
    qed (simp, code_simp)
    ultimately show ?thesis by simp
  qed
  consider "n < 10" | "10 \<le> n" "n < 100" | "100 \<le> n" by linarith
  then show ?thesis
  proof cases
    case 1
    then show ?thesis by (simp add: show_nat.simps [of n])
  next
    case 2
    then have "n div 10 < 10" "n div 10 \<noteq> 0" by auto
    with d [of "n div 10"] show ?thesis
      using 2 by (simp add: show_nat.simps [of n] show_nat.simps [of "n div 10"])
  next
    case 3
    with n have "n div 10 div 10 < 10" "n div 10 div 10 \<noteq> 0" "\<not> n div 10 < 10" by auto
    with d [of "n div 10 div 10"] show ?thesis
      using 3 n by (simp add: show_nat.simps [of n] show_nat.simps [of "n div 10"]
          show_nat.simps [of "n div 10 div 10"])
  qed
qed

lemma foldl_to_digit:
  "list_all is_digit ds \<Longrightarrow>
   foldl (\<lambda>n c. n * 10 + unwrap_or (to_digit 10 c) 0) k ds = foldl (\<lambda>n c. 10 * n + digit_value c) k ds"
proof (induction ds arbitrary: k)
  case (Cons c ds)
  then have "unwrap_or (to_digit 10 c) 0 = digit_value c"
    by (auto simp: is_digit_def to_digit_def hex_value_def digit_value_def Let_def)
  with Cons show ?case by (simp add: mult.commute)
qed simp

lemma read_octet_show:
  assumes "n \<le> 255" "case rest of [] \<Rightarrow> True | c # _ \<Rightarrow> to_digit 10 c = None"
  shows "read_octet (show_nat n @ rest) = Some (n, rest)"
proof -
  have t: "takeWhile (\<lambda>c. to_digit 10 c \<noteq> None) (show_nat n @ rest) = show_nat n"
    by (rule takeWhile_to_digit [OF show_nat_digits assms(2)])
  have v: "foldl (\<lambda>n c. n * 10 + unwrap_or (to_digit 10 c) 0) 0 (show_nat n) = n"
    using foldl_to_digit [OF show_nat_digits, of 0 n] digits_value_show_nat [of n]
    by (simp add: digits_value_def)
  show ?thesis
    using show_nat_small [of n] assms(1)
    unfolding read_octet_def read_number_def t Let_def v by auto
qed

definition show_v4 :: "nat \<Rightarrow> nat \<Rightarrow> nat \<Rightarrow> nat \<Rightarrow> string" where
  "show_v4 a b c d = show_nat a @ ''.'' @ show_nat b @ ''.'' @ show_nat c @ ''.'' @ show_nat d"

lemma to_digit_dot: "to_digit 10 (CHR ''.'') = None"
  by (simp add: to_digit_def hex_value_def Let_def bval_def)

lemma parse_ip_show_v4:
  assumes "a \<le> 255" "b \<le> 255" "c \<le> 255" "d \<le> 255"
  shows "parse_ip_addr (show_v4 a b c d) = Some (V4 [a, b, c, d])"
proof -
  have "read_ipv4_addr (show_v4 a b c d) = Some ([a, b, c, d], [])"
    using assms read_octet_show [of d "[]"]
    by (simp add: read_ipv4_addr_def read_dot_octet_def show_v4_def read_octet_show to_digit_dot)
  then show ?thesis by (simp add: parse_ip_addr_def)
qed

section \<open>Properties\<close>

text \<open>
  (C21) An image that was fetched came from an http(s) URL with a host that the ban does not cover
  (unless private networks are allowed), from an answer with a 2xx status; its bytes are the
  whole body in order, and never more than the limit however the body is cut into chunks and
  whatever length was announced.
\<close>

theorem fetched_image_checked:
  assumes "fetch_image_as_inline_data_with_options U get raw_url max_image_bytes allow = Ok f"
  shows "\<exists>u resp. url_parse U raw_url = Ok u \<and> is_http_scheme (url_scheme U u) \<and> host_or_empty U u \<noteq> []
    \<and> (\<not> allow \<longrightarrow> \<not> is_forbidden_fetch_target U u) \<and> get u = Ok resp \<and> is_success (hr_status resp)
    \<and> chunks_content (hr_chunks resp) = Some (fi_bytes f) \<and> length (fi_bytes f) \<le> max_image_bytes
    \<and> fi_mime_type f = normalize_image_mime_type (hr_content_type resp) raw_url"
  using fetch_image_OkD [OF assms] by blast

definition sample_get :: "sample_u http_get" where
  "sample_get u =
     Ok \<lparr>hr_status = 200, hr_content_length = None, hr_content_type = Some ''image/webp'',
         hr_chunks = [Inr ''abc'', Inr ''de'']\<rparr>"

lemmas sample_url_eval =
  sample_url_def sample_url_parse_def split_opt_def is_http_scheme_def host_or_empty_def
  to_lower_def lower_char_def trim_plain plain_char_def bval_def

lemma fetched_image_checked_witness:
  "\<exists>f (resp :: http_response). fetch_image_as_inline_data_with_options sample_url sample_get ''https://x.example/i.png'' 5 True = Ok f
     \<and> chunks_content (hr_chunks resp) = Some (fi_bytes f) \<and> length (fi_bytes f) \<le> 5"
proof -
  have "fetch_image_as_inline_data_with_options sample_url sample_get ''https://x.example/i.png'' 5 True
      = Ok \<lparr>fi_mime_type = normalize_image_mime_type (Some ''image/webp'') ''https://x.example/i.png'',
            fi_bytes = ''abcde''\<rparr>"
    by (simp add: fetch_image_as_inline_data_with_options_def sample_get_def sample_url_eval
        is_success_def enforce_max_size_def)
  note f = this
  from fetched_image_checked [OF f] have "\<exists>resp :: http_response. chunks_content (hr_chunks resp) = Some ''abcde''"
    by auto
  with f show ?thesis by (elim exE, intro exI conjI) auto
qed

text \<open>
  When private networks are not allowed, a URL whose host is a private, loopback, link-local
  or unspecified IPv4 address is refused, with the host in the message, and no request is made.
\<close>

theorem private_v4_target_refused:
  assumes "url_parse U raw_url = Ok u" "is_http_scheme (url_scheme U u)"
    and "a \<le> 255" "b \<le> 255" "c \<le> 255" "d \<le> 255" "v4_forbidden [a, b, c, d]"
    and "url_host U u = Some (show_v4 a b c d)"
  shows "fetch_image_as_inline_data_with_options U get raw_url max_image_bytes False
    = Err (Message (''forbidden target: '' @ show_v4 a b c d))"
proof -
  have plain: "plain_char (hd (show_nat n))" "plain_char (last (show_nat n))" for n
  proof -
    have "list_all plain_char (show_nat n)"
      using show_nat_digits [of n] by (auto simp: list_all_iff is_digit_def plain_char_def)
    then show "plain_char (hd (show_nat n))" "plain_char (last (show_nat n))"
      by (auto simp: list_all_iff)
  qed
  have "trim (show_v4 a b c d) = show_v4 a b c d"
    by (rule trim_plain) (simp_all add: show_v4_def plain)
  moreover have "show_v4 a b c d \<noteq> []" by (simp add: show_v4_def)
  ultimately have "is_forbidden_fetch_target U u"
    using assms parse_ip_show_v4 [of a b c d]
    by (simp add: is_forbidden_fetch_target_def forbidden_host_def host_or_empty_def)
  with assms \<open>show_v4 a b c d \<noteq> []\<close> show ?thesis
    by (simp add: fetch_image_as_inline_data_with_options_def host_or_empty_def)
qed

lemma private_v4_target_refused_witness:
  "fetch_image_as_inline_data_with_options sample_url sample_get ''http://172.16.0.1/i.png'' 5 False
   = Err (Message ''forbidden target: 172.16.0.1'')"
proof -
  have v4: "show_v4 172 16 0 1 = ''172.16.0.1''"
    by code_simp
  show ?thesis
    using private_v4_target_refused [of sample_url "''http://172.16.0.1/i.png''"
      "\<lparr>su_scheme = ''http'', su_host = ''172.16.0.1'', su_path = ''/i.png'', su_query = None, su_fragment = None\<rparr>"
      172 16 0 1 sample_get 5]
    unfolding v4 by (simp add: sample_url_eval v4_forbidden_def)
qed

text \<open>
  The ban does not cover IPv6: the host text of such a URL is the address in square brackets,
  which is not an address to the parser, so no bracketed host is ever refused, not even the
  loopback address.
\<close>

lemma bracketed_ipv6_never_banned:
  assumes "url_host U u = Some (''['' @ addr @ '']'')"
  shows "\<not> is_forbidden_fetch_target U u"
proof -
  have "trim (''['' @ addr @ '']'') = ''['' @ addr @ '']''"
    by (rule trim_plain) (simp_all add: plain_char_def bval_def)
  then show ?thesis
    using assms bracketed_host_not_forbidden [of "''['' @ addr @ '']''" "addr @ '']''"]
    by (simp add: is_forbidden_fetch_target_def host_or_empty_def)
qed

lemma bracketed_ipv6_never_banned_witness:
  "\<not> is_forbidden_fetch_target sample_url
      \<lparr>su_scheme = ''http'', su_host = ''[::1]'', su_path = ''/'', su_query = None, su_fragment = None\<rparr>
   \<and> parse_ip_addr ''::1'' = Some (V6 [0, 0, 0, 0, 0, 0, 0, 1]) \<and> v6_forbidden [0, 0, 0, 0, 0, 0, 0, 1]"
proof -
  have "\<not> is_forbidden_fetch_target sample_url
      \<lparr>su_scheme = ''http'', su_host = ''[::1]'', su_path = ''/'', su_query = None, su_fragment = None\<rparr>"
    by (rule bracketed_ipv6_never_banned [of _ _ "''::1''"]) (simp add: sample_url_def)
  moreover have "parse_ip_addr ''::1'' = Some (V6 [0, 0, 0, 0, 0, 0, 0, 1])"
    by (simp add: parse_ip_addr_def read_ipv4_addr_def read_octet_def read_dot_octet_def read_number_def
        to_digit_def hex_value_def bval_def read_ipv6_addr_def read_group_separator_def read_groups_numeral Let_def)
      (simp add: numeral_eq_Suc)
  ultimately show ?thesis by (simp add: v6_forbidden_def)
qed

end
