(* ===== verification/Lru.thy ===== *)
theory Lru
  imports Prelude
begin

text \<open>
  The crate \<^verbatim>\<open>lru\<close> as an interface. \<open>lru_api\<close> collects the operations of \<^verbatim>\<open>LruCache\<close> the
  sources call, the locale \<open>lru_cache\<close> their documented behaviour in terms of \<open>lru_items\<close>, the
  iteration from the most to the least recently used entry. The model takes the operations as an
  argument; \<open>lru_list\<close> keeps the iteration itself and satisfies the laws.
\<close>

record ('k, 'v, 'l) lru_api =
  lru_new :: "nat option \<Rightarrow> 'l"
  lru_get :: "'k \<Rightarrow> 'l \<Rightarrow> 'v option \<times> 'l"
  lru_put :: "'k \<Rightarrow> 'v \<Rightarrow> 'l \<Rightarrow> 'l"
  lru_pop :: "'k \<Rightarrow> 'l \<Rightarrow> 'v option \<times> 'l"
  lru_pop_lru :: "'l \<Rightarrow> ('k \<times> 'v) option \<times> 'l"
  lru_items :: "'l \<Rightarrow> ('k \<times> 'v) list"
  lru_capacity :: "'l \<Rightarrow> nat option"
  lru_valid :: "'l \<Rightarrow> bool"

definition without :: "'k \<Rightarrow> ('k \<times> 'v) list \<Rightarrow> ('k \<times> 'v) list" where
  "without k xs = filter (\<lambda>e. fst e \<noteq> k) xs"

definition take_capacity :: "nat option \<Rightarrow> 'a list \<Rightarrow> 'a list" where
  "take_capacity c xs = (case c of None \<Rightarrow> xs | Some n \<Rightarrow> take n xs)"

lemma set_without: "set (without k xs) = {e \<in> set xs. fst e \<noteq> k}"
  by (auto simp: without_def)

lemma map_of_without: "map_of (without k xs) k' = (if k' = k then None else map_of xs k')"
  by (induction xs) (auto simp: without_def)

lemma distinct_without: "distinct (map fst xs) \<Longrightarrow> distinct (map fst (without k xs))"
  by (induction xs) (auto simp: without_def)

lemma without_absent: "map_of xs k = None \<Longrightarrow> without k xs = xs"
  by (auto simp: without_def map_of_eq_None_iff filter_id_conv)

lemma length_without_le: "length (without k xs) \<le> length xs"
  by (simp add: without_def)

locale lru_cache =
  fixes L :: "('k, 'v, 'l) lru_api"
  assumes new: "lru_valid L (lru_new L c) \<and> lru_items L (lru_new L c) = [] \<and> lru_capacity L (lru_new L c) = c"
    and valid: "lru_valid L l \<Longrightarrow> distinct (map fst (lru_items L l))
      \<and> (case lru_capacity L l of None \<Rightarrow> True | Some n \<Rightarrow> length (lru_items L l) \<le> n)"
    and get: "lru_valid L l \<Longrightarrow> lru_get L k l = (r, l') \<Longrightarrow>
      lru_valid L l' \<and> lru_capacity L l' = lru_capacity L l \<and> r = map_of (lru_items L l) k
      \<and> lru_items L l' = (case r of None \<Rightarrow> lru_items L l | Some v \<Rightarrow> (k, v) # without k (lru_items L l))"
    and put: "lru_valid L l \<Longrightarrow> lru_capacity L l \<noteq> Some 0 \<Longrightarrow>
      lru_valid L (lru_put L k v l) \<and> lru_capacity L (lru_put L k v l) = lru_capacity L l
      \<and> lru_items L (lru_put L k v l) = take_capacity (lru_capacity L l) ((k, v) # without k (lru_items L l))"
    and pop: "lru_valid L l \<Longrightarrow> lru_pop L k l = (r, l') \<Longrightarrow>
      lru_valid L l' \<and> lru_capacity L l' = lru_capacity L l \<and> r = map_of (lru_items L l) k
      \<and> lru_items L l' = without k (lru_items L l)"
    and pop_lru: "lru_valid L l \<Longrightarrow> lru_pop_lru L l = (e, l') \<Longrightarrow>
      lru_valid L l' \<and> lru_capacity L l' = lru_capacity L l
      \<and> (if lru_items L l = [] then e = None \<and> lru_items L l' = []
         else e = Some (last (lru_items L l)) \<and> lru_items L l' = butlast (lru_items L l))"
begin

lemma items_distinct: "lru_valid L l \<Longrightarrow> distinct (map fst (lru_items L l))"
  using valid by blast

lemma get_content:
  assumes "lru_valid L l" "lru_get L k l = (r, l')"
  shows "map_of (lru_items L l') = map_of (lru_items L l)"
proof -
  have g: "r = map_of (lru_items L l) k"
    "lru_items L l' = (case r of None \<Rightarrow> lru_items L l | Some v \<Rightarrow> (k, v) # without k (lru_items L l))"
    using get [OF assms] by blast+
  show ?thesis
  proof (cases r)
    case None
    with g show ?thesis by simp
  next
    case (Some v)
    show ?thesis
    proof
      fix k'
      show "map_of (lru_items L l') k' = map_of (lru_items L l) k'"
        using g Some by (cases "map_of (lru_items L l) k") (auto simp: map_of_without)
    qed
  qed
qed

text \<open>A prefix of a list with distinct keys knows some of its entries, and no others.\<close>

lemma put_content:
  assumes "lru_valid L l" "lru_capacity L l \<noteq> Some 0"
    and "map_of (lru_items L (lru_put L k v l)) k' = Some w"
  shows "if k' = k then w = v else map_of (lru_items L l) k' = Some w"
proof -
  let ?full = "(k, v) # without k (lru_items L l)"
  have d: "distinct (map fst ?full)"
    using items_distinct [OF assms(1)] by (auto simp: distinct_without set_without)
  have "set (take_capacity (lru_capacity L l) ?full) \<subseteq> set ?full"
    by (auto simp: take_capacity_def set_take_subset split: option.splits dest: in_set_takeD)
  then have "(k', w) \<in> set ?full"
    using put [OF assms(1,2), of k v] assms(3) by (auto dest: map_of_SomeD)
  then have "map_of ?full k' = Some w" using d by (simp only: map_of_eq_Some_iff)
  then show ?thesis by (auto simp: map_of_without split: if_splits)
qed

lemma put_same:
  "lru_valid L l \<Longrightarrow> lru_capacity L l \<noteq> Some 0 \<Longrightarrow> map_of (lru_items L (lru_put L k v l)) k = Some v"
  using put [of l k v] by (auto simp: take_capacity_def take_Cons split: option.splits nat.splits)

end

section \<open>A cache that is the list of its entries\<close>

type_synonym ('k, 'v) lru_state = "nat option \<times> ('k \<times> 'v) list"

definition lru_list :: "('k, 'v, ('k, 'v) lru_state) lru_api" where
  "lru_list =
     \<lparr>lru_new = (\<lambda>c. (c, [])),
      lru_get = (\<lambda>k (c, xs). case map_of xs k of
          None \<Rightarrow> (None, (c, xs)) | Some v \<Rightarrow> (Some v, (c, (k, v) # without k xs))),
      lru_put = (\<lambda>k v (c, xs). (c, take_capacity c ((k, v) # without k xs))),
      lru_pop = (\<lambda>k (c, xs). (map_of xs k, (c, without k xs))),
      lru_pop_lru = (\<lambda>(c, xs). if xs = [] then (None, (c, xs)) else (Some (last xs), (c, butlast xs))),
      lru_items = snd, lru_capacity = fst,
      lru_valid = (\<lambda>(c, xs). distinct (map fst xs) \<and> (case c of None \<Rightarrow> True | Some n \<Rightarrow> length xs \<le> n))\<rparr>"

lemma distinct_take_map: "distinct (map f xs) \<Longrightarrow> distinct (map f (take n xs))"
  by (simp add: take_map [symmetric] distinct_take)

lemma distinct_butlast_map: "distinct (map f xs) \<Longrightarrow> distinct (map f (butlast xs))"
  by (simp add: map_butlast distinct_butlast)

lemma length_without_mem: "map_of xs k = Some v \<Longrightarrow> length (without k xs) < length xs"
  by (auto simp: without_def dest!: map_of_SomeD intro: length_filter_less)

interpretation lru_list: lru_cache lru_list
proof (unfold_locales, goal_cases)
  case (3 l k r l')
  then show ?case
    using length_without_mem [of "snd l" k]
    by (cases l; cases "map_of (snd l) k")
      (auto simp: lru_list_def distinct_without set_without Suc_le_eq split: option.splits,
        meson less_le_trans)
next
  case (4 l k v)
  have c: "distinct (map fst ((k, v) # without k (snd l)))" if "distinct (map fst (snd l))"
    using that by (auto simp: distinct_without set_without)
  from 4 show ?case
    using distinct_take_map [OF c]
    by (cases l) (auto simp: lru_list_def take_capacity_def set_without distinct_without
        simp del: take_Suc_Cons split: option.splits)
next
  case (5 l k r l')
  then show ?case
    using length_without_le [of k "snd l"]
    by (cases l) (auto simp: lru_list_def distinct_without split: option.splits)
next
  case (6 l r l')
  then show ?case
    by (cases l) (auto simp: lru_list_def distinct_butlast_map split: option.splits if_splits)
qed (auto simp: lru_list_def split: option.splits)

end
