(* ===== verification/Memory_Cache.thy ===== *)
theory Memory_Cache
  imports Lru Blob_Runtime
begin

text \<open>
  \<^verbatim>\<open>MemoryCache\<close> of \<^verbatim>\<open>src/cache.rs\<close>: an unbounded LRU cache of fetched images with a byte budget
  kept by the cache itself. \<open>cur_bytes\<close> is a \<open>u64\<close> word. The client lemmas are proved in the
  locale of the LRU interface.
\<close>

record cached_inline_data =
  cd_mime_type :: string
  cd_bytes :: string

record memory_entry =
  me_mime_type :: string
  me_bytes :: string
  me_size :: u64

record 'l memory_cache =
  mc_items :: 'l
  mc_max_bytes :: u64
  mc_cur_bytes :: u64

type_synonym 'l memory_lru = "(string, memory_entry, 'l) lru_api"

definition memory_cache_new :: "'l memory_lru \<Rightarrow> u64 \<Rightarrow> 'l memory_cache" where
  "memory_cache_new L max_bytes =
     \<lparr>mc_items = lru_new L None, mc_max_bytes = max_bytes, mc_cur_bytes = 0\<rparr>"

definition memory_get ::
  "'l memory_lru \<Rightarrow> 'l memory_cache \<Rightarrow> string \<Rightarrow> cached_inline_data option \<times> 'l memory_cache" where
  "memory_get L mc url =
     (case lru_get L url (mc_items mc) of
        (None, items) \<Rightarrow> (None, mc\<lparr>mc_items := items\<rparr>)
      | (Some item, items) \<Rightarrow>
          (Some \<lparr>cd_mime_type = me_mime_type item, cd_bytes = me_bytes item\<rparr>, mc\<lparr>mc_items := items\<rparr>))"

text \<open>
  The eviction loop. Each round pops an entry, so as many rounds as there are entries suffice
  (\<open>evict_rounds_state\<close>).
\<close>

fun evict_rounds :: "nat \<Rightarrow> 'l memory_lru \<Rightarrow> u64 \<Rightarrow> 'l memory_cache \<Rightarrow> 'l memory_cache" where
  "evict_rounds 0 L sz mc = mc"
| "evict_rounds (Suc n) L sz mc =
     (if mc_max_bytes mc < mc_cur_bytes mc + sz then
        (case lru_pop_lru L (mc_items mc) of
           (None, items) \<Rightarrow> mc\<lparr>mc_items := items\<rparr>
         | (Some (key, evicted), items) \<Rightarrow>
             evict_rounds n L sz
               (mc\<lparr>mc_items := items, mc_cur_bytes := saturating_sub (mc_cur_bytes mc) (me_size evicted)\<rparr>))
      else mc)"

definition evict :: "'l memory_lru \<Rightarrow> u64 \<Rightarrow> 'l memory_cache \<Rightarrow> 'l memory_cache" where
  "evict L sz mc = evict_rounds (length (lru_items L (mc_items mc))) L sz mc"

definition memory_pop :: "'l memory_lru \<Rightarrow> string \<Rightarrow> 'l memory_cache \<Rightarrow> 'l memory_cache" where
  "memory_pop L url mc =
     (case lru_pop L url (mc_items mc) of
        (None, items) \<Rightarrow> mc\<lparr>mc_items := items\<rparr>
      | (Some previous, items) \<Rightarrow>
          mc\<lparr>mc_items := items, mc_cur_bytes := saturating_sub (mc_cur_bytes mc) (me_size previous)\<rparr>)"

definition memory_set ::
  "'l memory_lru \<Rightarrow> 'l memory_cache \<Rightarrow> string \<Rightarrow> cached_inline_data \<Rightarrow> 'l memory_cache" where
  "memory_set L mc url data =
     (let sz = of_nat (length (cd_bytes data)) in
      if mc_max_bytes mc < sz then mc
      else
        (let mc = evict L sz (memory_pop L url mc) in
         mc\<lparr>mc_items := lru_put L url
                \<lparr>me_mime_type = cd_mime_type data, me_bytes = cd_bytes data, me_size = sz\<rparr> (mc_items mc),
            mc_cur_bytes := mc_cur_bytes mc + sz\<rparr>))"

section \<open>Invariant\<close>

definition entry_bytes :: "(string \<times> memory_entry) list \<Rightarrow> nat" where
  "entry_bytes items = sum_list (map (\<lambda>e. unat (me_size (snd e))) items)"

definition entries_ok :: "(string \<times> memory_entry) list \<Rightarrow> bool" where
  "entries_ok items \<longleftrightarrow>
     (\<forall>e \<in> set items. length (me_bytes (snd e)) < 2 ^ 64 \<and> me_size (snd e) = of_nat (length (me_bytes (snd e))))"

text \<open>
  The counter is the total size of the entries and within the budget. The budget is below
  2^63, so that the sum in the loop's condition cannot wrap.
\<close>

definition memory_inv :: "'l memory_lru \<Rightarrow> 'l memory_cache \<Rightarrow> bool" where
  "memory_inv L mc \<longleftrightarrow>
     lru_valid L (mc_items mc) \<and> lru_capacity L (mc_items mc) = None
     \<and> entries_ok (lru_items L (mc_items mc))
     \<and> unat (mc_cur_bytes mc) = entry_bytes (lru_items L (mc_items mc))
     \<and> mc_cur_bytes mc \<le> mc_max_bytes mc \<and> unat (mc_max_bytes mc) < 2 ^ 63"

text \<open>What the cache knows of a URL.\<close>

definition memory_content :: "'l memory_lru \<Rightarrow> 'l memory_cache \<Rightarrow> string \<Rightarrow> cached_inline_data option" where
  "memory_content L mc url =
     map_option (\<lambda>e. \<lparr>cd_mime_type = me_mime_type e, cd_bytes = me_bytes e\<rparr>)
       (map_of (lru_items L (mc_items mc)) url)"

lemma entry_bytes_without:
  "distinct (map fst items) \<Longrightarrow> map_of items k = Some e \<Longrightarrow>
   entry_bytes items = unat (me_size e) + entry_bytes (without k items)"
proof (induction items)
  case (Cons x items)
  show ?case
  proof (cases "fst x = k")
    case True
    with Cons have "without k items = items"
      by (intro without_absent) (auto simp: map_of_eq_None_iff)
    with True Cons show ?thesis by (cases x) (auto simp: entry_bytes_def without_def)
  next
    case False
    with Cons show ?thesis by (cases x) (auto simp: entry_bytes_def without_def)
  qed
qed simp

lemma entry_bytes_butlast:
  "items \<noteq> [] \<Longrightarrow> entry_bytes items = entry_bytes (butlast items) + unat (me_size (snd (last items)))"
  by (induction items rule: rev_induct) (auto simp: entry_bytes_def)

lemma map_of_butlast: "distinct (map fst xs) \<Longrightarrow> map_of (butlast xs) k = Some v \<Longrightarrow> map_of xs k = Some v"
  by (induction xs) (auto split: if_splits dest: map_of_SomeD in_set_butlastD)

lemma unat_saturating_sub: "unat (saturating_sub a b) = unat a - unat b"
  by (auto simp: saturating_sub_def unat_sub_64 word_le_nat_alt)

text \<open>The budget test does not wrap.\<close>

lemma unat_add_small: "unat (a :: u64) + unat b < 2 ^ 64 \<Longrightarrow> unat (a + b) = unat a + unat b"
  by (simp add: unat_word_ariths)

lemma over_budget_iff:
  assumes "cur \<le> mx" "sz \<le> mx" "unat (mx :: u64) < 2 ^ 63"
  shows "unat (cur + sz) = unat cur + unat sz"
    and "mx < cur + sz \<longleftrightarrow> unat mx < unat cur + unat sz"
proof -
  have "unat cur + unat sz < 2 ^ 64" using assms by (simp add: word_le_nat_alt)
  then show s: "unat (cur + sz) = unat cur + unat sz" by (rule unat_add_small)
  show "mx < cur + sz \<longleftrightarrow> unat mx < unat cur + unat sz" by (simp add: word_less_nat_alt s)
qed

text \<open>The LRU interface at the types of this cache.\<close>

locale memory_lru = lru_cache L for L :: "(string, memory_entry, 'l) lru_api"
begin

lemma memory_pop_state:
  assumes inv: "memory_inv L mc"
  shows "memory_inv L (memory_pop L url mc) \<and> mc_max_bytes (memory_pop L url mc) = mc_max_bytes mc
    \<and> lru_items L (mc_items (memory_pop L url mc)) = without url (lru_items L (mc_items mc))"
proof -
  have v: "lru_valid L (mc_items mc)" using inv by (simp add: memory_inv_def)
  obtain r l' where p: "lru_pop L url (mc_items mc) = (r, l')" by (cases "lru_pop L url (mc_items mc)")
  note st = pop [OF v p]
  show ?thesis
  proof (cases r)
    case None
    with st have "without url (lru_items L (mc_items mc)) = lru_items L (mc_items mc)"
      by (intro without_absent) simp
    with None st p inv show ?thesis by (simp add: memory_pop_def memory_inv_def)
  next
    case (Some e)
    have b: "entry_bytes (lru_items L (mc_items mc)) =
        unat (me_size e) + entry_bytes (without url (lru_items L (mc_items mc)))"
      by (rule entry_bytes_without [OF items_distinct [OF v]]) (use st Some in simp)
    have u: "unat (saturating_sub (mc_cur_bytes mc) (me_size e)) = entry_bytes (without url (lru_items L (mc_items mc)))"
      using b inv by (simp add: unat_saturating_sub memory_inv_def)
    have "entries_ok (without url (lru_items L (mc_items mc)))"
      using inv by (auto simp: memory_inv_def entries_ok_def set_without)
    with Some st p inv u b show ?thesis
      by (simp add: memory_pop_def memory_inv_def word_le_nat_alt)
  qed
qed

text \<open>
  The loop evicts from the least recently used end, and it stops because the new entry fits or
  nothing is left, in which case it fits too.
\<close>

lemma evict_rounds_state:
  assumes "memory_inv L mc" "sz \<le> mc_max_bytes mc" "length (lru_items L (mc_items mc)) \<le> n"
  shows "memory_inv L (evict_rounds n L sz mc) \<and> mc_max_bytes (evict_rounds n L sz mc) = mc_max_bytes mc
    \<and> unat (mc_cur_bytes (evict_rounds n L sz mc)) + unat sz \<le> unat (mc_max_bytes mc)
    \<and> prefix (lru_items L (mc_items (evict_rounds n L sz mc))) (lru_items L (mc_items mc))"
  using assms
proof (induction n arbitrary: mc)
  case 0
  then show ?case by (simp add: memory_inv_def entry_bytes_def word_le_nat_alt)
next
  case (Suc n)
  note budget = over_budget_iff [of "mc_cur_bytes mc" "mc_max_bytes mc" sz]
  have v: "lru_valid L (mc_items mc)" using Suc.prems by (simp add: memory_inv_def)
  show ?case
  proof (cases "mc_max_bytes mc < mc_cur_bytes mc + sz")
    case False
    with Suc.prems budget show ?thesis by (auto simp: memory_inv_def)
  next
    case over: True
    obtain r l' where p: "lru_pop_lru L (mc_items mc) = (r, l')" by (cases "lru_pop_lru L (mc_items mc)")
    note st = pop_lru [OF v p]
    have ne: "lru_items L (mc_items mc) \<noteq> []"
    proof
      assume e: "lru_items L (mc_items mc) = []"
      with Suc.prems have "mc_cur_bytes mc = 0"
        by (simp add: memory_inv_def entry_bytes_def unat_eq_zero)
      with over Suc.prems(2) show False by simp
    qed
    with st have r: "r = Some (last (lru_items L (mc_items mc)))"
      and l': "lru_items L l' = butlast (lru_items L (mc_items mc))" by auto
    let ?e = "snd (last (lru_items L (mc_items mc)))"
    let ?mc = "mc\<lparr>mc_items := l', mc_cur_bytes := saturating_sub (mc_cur_bytes mc) (me_size ?e)\<rparr>"
    have step: "evict_rounds (Suc n) L sz mc = evict_rounds n L sz ?mc"
      using over p r by (cases "last (lru_items L (mc_items mc))") simp
    have "unat (saturating_sub (mc_cur_bytes mc) (me_size ?e)) = entry_bytes (butlast (lru_items L (mc_items mc)))"
      using Suc.prems entry_bytes_butlast [OF ne] by (simp add: unat_saturating_sub memory_inv_def)
    moreover have "entries_ok (butlast (lru_items L (mc_items mc)))"
      using Suc.prems by (auto simp: memory_inv_def entries_ok_def dest: in_set_butlastD)
    ultimately have inv: "memory_inv L ?mc"
      using Suc.prems st l' entry_bytes_butlast [OF ne] by (simp add: memory_inv_def word_le_nat_alt)
    have "length (lru_items L (mc_items ?mc)) \<le> n" using Suc.prems(3) l' by simp
    from Suc.IH [OF inv _ this] Suc.prems(2) l' show ?thesis
      unfolding step by (auto intro: prefix_order.trans prefixeq_butlast)
  qed
qed

lemma memory_set_state:
  assumes inv: "memory_inv L mc" and small: "length (cd_bytes data) < 2 ^ 64"
  shows "memory_inv L (memory_set L mc url data)
    \<and> (of_nat (length (cd_bytes data)) \<le> mc_max_bytes mc \<longrightarrow> memory_content L (memory_set L mc url data) url = Some data)
    \<and> (\<forall>u d. u \<noteq> url \<longrightarrow> memory_content L (memory_set L mc url data) u = Some d \<longrightarrow> memory_content L mc u = Some d)"
proof (cases "mc_max_bytes mc < of_nat (length (cd_bytes data))")
  case True
  with inv show ?thesis by (auto simp: memory_set_def Let_def dest: leD)
next
  case False
  let ?sz = "of_nat (length (cd_bytes data)) :: u64"
  let ?p = "memory_pop L url mc"
  let ?ev = "evict L ?sz ?p"
  let ?e = "\<lparr>me_mime_type = cd_mime_type data, me_bytes = cd_bytes data, me_size = ?sz\<rparr>"
  have set: "memory_set L mc url data =
      ?ev\<lparr>mc_items := lru_put L url ?e (mc_items ?ev), mc_cur_bytes := mc_cur_bytes ?ev + ?sz\<rparr>"
    using False by (simp add: memory_set_def Let_def)
  note pop_st = memory_pop_state [OF inv, of url]
  have ev: "memory_inv L ?ev" "mc_max_bytes ?ev = mc_max_bytes mc"
    "unat (mc_cur_bytes ?ev) + unat ?sz \<le> unat (mc_max_bytes mc)"
    "prefix (lru_items L (mc_items ?ev)) (without url (lru_items L (mc_items mc)))"
    using evict_rounds_state [of ?p ?sz "length (lru_items L (mc_items ?p))"] pop_st False
    by (auto simp: evict_def)
  have v: "lru_valid L (mc_items ?ev)" "lru_capacity L (mc_items ?ev) \<noteq> Some 0"
    "lru_capacity L (mc_items ?ev) = None"
    using ev(1) by (auto simp: memory_inv_def)
  have sub: "set (lru_items L (mc_items ?ev)) \<subseteq> set (without url (lru_items L (mc_items mc)))"
    using ev(4) by (rule set_mono_prefix)
  then have absent: "map_of (lru_items L (mc_items ?ev)) url = None"
    by (auto simp: map_of_eq_None_iff set_without)
  have items: "lru_items L (lru_put L url ?e (mc_items ?ev)) = (url, ?e) # lru_items L (mc_items ?ev)"
    using put [OF v(1,2), of url ?e] v(3) without_absent [OF absent] by (simp add: take_capacity_def)
  have max: "unat (mc_max_bytes mc) < 2 ^ 63" using inv by (simp add: memory_inv_def)
  have cur: "unat (mc_cur_bytes ?ev + ?sz) = unat (mc_cur_bytes ?ev) + unat ?sz"
    using ev(3) max by (intro unat_add_small le_less_trans [OF ev(3)] less_trans [OF max]) simp
  have "memory_inv L (memory_set L mc url data)"
  proof -
    have "entries_ok ((url, ?e) # lru_items L (mc_items ?ev))"
      using ev(1) small by (simp add: memory_inv_def entries_ok_def)
    moreover have "unat (mc_cur_bytes ?ev + ?sz) = entry_bytes ((url, ?e) # lru_items L (mc_items ?ev))"
      using ev(1) unfolding cur by (simp add: memory_inv_def entry_bytes_def)
    moreover have "mc_cur_bytes ?ev + ?sz \<le> mc_max_bytes mc"
      unfolding word_le_nat_alt cur by (rule ev(3))
    ultimately show ?thesis
      using put [OF v(1,2), of url ?e] v(3) ev(2) max
      unfolding set memory_inv_def by (simp add: items del: unat_of_nat_64)
  qed
  moreover have "memory_content L (memory_set L mc url data) url = Some data"
    by (simp add: set memory_content_def items)
  moreover have "memory_content L mc u = Some d"
    if "u \<noteq> url" "memory_content L (memory_set L mc url data) u = Some d" for u d
  proof -
    from that obtain e where e: "map_of (lru_items L (mc_items ?ev)) u = Some e"
      "d = \<lparr>cd_mime_type = me_mime_type e, cd_bytes = me_bytes e\<rparr>"
      by (auto simp: set memory_content_def items split: if_splits)
    have "(u, e) \<in> set (lru_items L (mc_items mc))"
      using map_of_SomeD [OF e(1)] sub by (auto simp: set_without)
    moreover have "distinct (map fst (lru_items L (mc_items mc)))"
      using inv items_distinct by (simp add: memory_inv_def)
    ultimately have "map_of (lru_items L (mc_items mc)) u = Some e" by simp
    with e(2) show ?thesis by (simp add: memory_content_def)
  qed
  ultimately show ?thesis by blast
qed

lemma memory_get_state:
  assumes inv: "memory_inv L mc" and get: "memory_get L mc url = (r, mc')"
  shows "r = memory_content L mc url \<and> memory_inv L mc' \<and> memory_content L mc' = memory_content L mc"
proof -
  have v: "lru_valid L (mc_items mc)" using inv by (simp add: memory_inv_def)
  obtain e l' where g: "lru_get L url (mc_items mc) = (e, l')" by (cases "lru_get L url (mc_items mc)")
  note st = lru_cache.get [OF lru_cache_axioms v g]
  have mc': "mc' = mc\<lparr>mc_items := l'\<rparr>" and r: "r = memory_content L mc url"
    using get g st by (auto simp: memory_get_def memory_content_def split: option.splits)
  have "memory_content L mc' = memory_content L mc"
    by (intro ext) (simp add: memory_content_def mc' get_content [OF v g])
  moreover have "memory_inv L mc'"
  proof (cases e)
    case None
    with st inv show ?thesis by (simp add: mc' memory_inv_def)
  next
    case (Some x)
    with st have m: "map_of (lru_items L (mc_items mc)) url = Some x"
      and items: "lru_items L l' = (url, x) # without url (lru_items L (mc_items mc))" by auto
    have "entry_bytes (lru_items L l') = entry_bytes (lru_items L (mc_items mc))"
      using entry_bytes_without [OF items_distinct [OF v] m] by (simp add: items entry_bytes_def)
    moreover have "entries_ok (lru_items L l')"
      using inv map_of_SomeD [OF m] by (auto simp: items memory_inv_def entries_ok_def set_without)
    ultimately show ?thesis using st inv by (simp add: mc' memory_inv_def)
  qed
  ultimately show ?thesis using r by blast
qed

lemma memory_new_inv: "unat mx < 2 ^ 63 \<Longrightarrow> memory_inv L (memory_cache_new L mx)"
  using new [of None] by (simp add: memory_inv_def memory_cache_new_def entries_ok_def entry_bytes_def)

end

interpretation list_memory: memory_lru lru_list
  by unfold_locales

section \<open>Properties\<close>

text \<open>
  (C26) A \<^verbatim>\<open>set\<close> that fits the budget makes the image readable under its URL, evicts other images only
  (never changes one), and leaves the byte counter equal to the sizes held and within the
  budget; a following \<^verbatim>\<open>get\<close> returns exactly what the cache holds.
\<close>

theorem memory_cache_set_then_get:
  assumes "memory_lru L" "memory_inv L mc" "length (cd_bytes data) < 2 ^ 64"
    and "of_nat (length (cd_bytes data)) \<le> mc_max_bytes mc"
  shows "fst (memory_get L (memory_set L mc url data) url) = Some data
    \<and> unat (mc_cur_bytes (memory_set L mc url data))
        = entry_bytes (lru_items L (mc_items (memory_set L mc url data)))
    \<and> mc_cur_bytes (memory_set L mc url data) \<le> mc_max_bytes (memory_set L mc url data)
    \<and> (u \<noteq> url \<longrightarrow> fst (memory_get L (memory_set L mc url data) u) \<in> {None, fst (memory_get L mc u)})"
proof -
  note st = memory_lru.memory_set_state [OF assms(1-3), of url] and get = memory_lru.memory_get_state [OF assms(1)]
  have g: "fst (memory_get L m v) = memory_content L m v" if "memory_inv L m" for m v
    using get [OF that] by (metis prod.collapse)
  have "memory_content L (memory_set L mc url data) u \<in> {None, memory_content L mc u}" if "u \<noteq> url"
    using st that by (cases "memory_content L (memory_set L mc url data) u") auto
  moreover have "memory_inv L (memory_set L mc url data)" using st by blast
  ultimately show ?thesis
    using st assms(4) g [OF assms(2)] g [of "memory_set L mc url data"]
    by (simp add: memory_inv_def [of L "memory_set L mc url data"])
qed

lemma memory_cache_set_then_get_witness:
  "let a = \<lparr>cd_mime_type = ''image/png'', cd_bytes = ''aaaa''\<rparr>; b = \<lparr>cd_mime_type = ''image/gif'', cd_bytes = ''bbb''\<rparr>;
       mc = memory_set lru_list (memory_cache_new lru_list 6) ''u1'' a; mc' = memory_set lru_list mc ''u2'' b
   in fst (memory_get lru_list mc' ''u2'') = Some b \<and> fst (memory_get lru_list mc' ''u1'') = None
      \<and> mc_cur_bytes mc' \<le> mc_max_bytes mc'"
proof -
  let ?a = "\<lparr>cd_mime_type = ''image/png'', cd_bytes = ''aaaa''\<rparr>"
  let ?b = "\<lparr>cd_mime_type = ''image/gif'', cd_bytes = ''bbb''\<rparr>"
  let ?mc = "memory_set lru_list (memory_cache_new lru_list 6) ''u1'' ?a"
  have L: "memory_lru lru_list" by (rule list_memory.memory_lru_axioms)
  have inv: "memory_inv lru_list ?mc"
    using list_memory.memory_set_state [OF list_memory.memory_new_inv [of 6]] by simp
  have mx: "mc_max_bytes ?mc = 6"
    by (simp add: memory_set_def memory_cache_new_def lru_list_def evict_def memory_pop_def
        without_def Let_def)
  have "fst (memory_get lru_list (memory_set lru_list ?mc ''u2'' ?b) ''u1'') = None"
    by (simp add: memory_set_def memory_cache_new_def lru_list_def evict_def memory_pop_def memory_get_def
        without_def take_capacity_def saturating_sub_def Let_def)
  moreover from memory_cache_set_then_get [OF L inv, of ?b "''u2''" "''u1''"] mx
  have "fst (memory_get lru_list (memory_set lru_list ?mc ''u2'' ?b) ''u2'') = Some ?b
      \<and> mc_cur_bytes (memory_set lru_list ?mc ''u2'' ?b) \<le> mc_max_bytes (memory_set lru_list ?mc ''u2'' ?b)"
    by simp
  ultimately show ?thesis by (simp add: Let_def)
qed

end
