(* ===== verification/Disk_Cache.thy ===== *)
theory Disk_Cache
  imports Memory_Cache Messages
begin

text \<open>
  \<^verbatim>\<open>DiskCache\<close> of \<^verbatim>\<open>src/cache.rs\<close>: a directory with a \<^verbatim>\<open>.json\<close> description and a \<^verbatim>\<open>.bin\<close> body for each
  image, named by the hash of the URL. The directory is a map from file names to content and
  modification time; the lock makes every operation atomic. Removals whose result the code
  ignores may fail (\<open>rm_fails\<close>); the other file operations follow a fault schedule.
\<close>

record disk_cache =
  dc_ttl :: nat
  dc_max_bytes :: nat

record disk_meta =
  dm_mime_type :: string
  dm_expires_at_unix_ms :: nat
  dm_size_bytes :: nat

type_synonym dir_files = "string \<Rightarrow> (string \<times> nat) option"

text \<open>
  What the cache uses of its surroundings: JSON, the error text of a description of another
  shape, the hex SHA-256 digest, the clock, the faults, the order in which a directory is read.
\<close>

record disk_env =
  de_serde :: serde
  de_shape_error :: "json \<Rightarrow> string"
  de_sha256_hex :: "string \<Rightarrow> string"
  de_now :: nat
  de_faults :: fault_schedule
  de_rm_fails :: "string \<Rightarrow> bool"
  de_read_dir :: "string list"

section \<open>Descriptions\<close>

definition u64_of_json :: "json \<Rightarrow> nat option" where
  "u64_of_json v =
     (case v of JNumber (Integer i) \<Rightarrow> (if 0 \<le> i \<and> i \<le> int u64_max then Some (nat i) else None) | _ \<Rightarrow> None)"

definition meta_of_json :: "json \<Rightarrow> disk_meta option" where
  "meta_of_json v =
     (let field = struct_field [''mime_type'', ''expires_at_unix_ms'', ''size_bytes''] v in
      Option.bind (Option.bind (field ''mime_type'') as_str) (\<lambda>mime.
      Option.bind (Option.bind (field ''expires_at_unix_ms'') u64_of_json) (\<lambda>expires.
      Option.bind (Option.bind (field ''size_bytes'') u64_of_json) (\<lambda>sz.
        Some \<lparr>dm_mime_type = mime, dm_expires_at_unix_ms = expires, dm_size_bytes = sz\<rparr>))))"

definition meta_json :: "disk_meta \<Rightarrow> json" where
  "meta_json m =
     JObject [(''mime_type'', JString (dm_mime_type m)), (''expires_at_unix_ms'', jnat (dm_expires_at_unix_ms m)),
              (''size_bytes'', jnat (dm_size_bytes m))]"

definition meta_from_slice :: "disk_env \<Rightarrow> string \<Rightarrow> (string, disk_meta) result" where
  "meta_from_slice D bytes =
     (case from_slice (de_serde D) bytes of
        Err e \<Rightarrow> Err e
      | Ok v \<Rightarrow> (case meta_of_json v of None \<Rightarrow> Err (de_shape_error D v) | Some m \<Rightarrow> Ok m))"

section \<open>Files\<close>

definition cache_key :: "disk_env \<Rightarrow> string \<Rightarrow> string" where
  "cache_key D url = de_sha256_hex D url"

definition meta_path :: "string \<Rightarrow> string" where
  "meta_path stem = stem @ ''.json''"

definition body_path :: "string \<Rightarrow> string" where
  "body_path stem = stem @ ''.bin''"

text \<open>\<^verbatim>\<open>let _ = remove_file(path)\<close>.\<close>

definition try_remove :: "disk_env \<Rightarrow> string \<Rightarrow> dir_files \<Rightarrow> dir_files" where
  "try_remove D path files = (if de_rm_fails D path then files else files(path := None))"

definition disk_get :: "disk_env \<Rightarrow> dir_files \<Rightarrow> string \<Rightarrow> cached_inline_data option fallible \<times> dir_files" where
  "disk_get D files url =
     (let stem = cache_key D url; mp = meta_path stem; bp = body_path stem in
      case (files mp, files bp) of
        (Some (meta_bytes, _), Some (body, _)) \<Rightarrow>
          (case de_faults D 0 of
             Some (e, _) \<Rightarrow> (Err (Message e), files)
           | None \<Rightarrow>
               (case meta_from_slice D meta_bytes of
                  Err e \<Rightarrow> (Err (Message e), files)
                | Ok meta \<Rightarrow>
                    if dm_expires_at_unix_ms meta < de_now D
                    then (Ok None, try_remove D bp (try_remove D mp files))
                    else (case de_faults D 1 of
                        Some (e, _) \<Rightarrow> (Err (Message e), files)
                      | None \<Rightarrow>
                          (Ok (Some \<lparr>cd_mime_type = dm_mime_type meta, cd_bytes = body\<rparr>), files))))
      | _ \<Rightarrow> (Ok None, files))"

section \<open>Pruning\<close>

text \<open>The descriptions found, in directory order: modification time, file name, size.\<close>

definition prune_entry :: "disk_env \<Rightarrow> dir_files \<Rightarrow> string \<Rightarrow> (nat \<times> string \<times> nat) option" where
  "prune_entry D files name =
     (case (strip_suffix name ''.json'', files name) of
        (Some stem, Some (bytes, modified)) \<Rightarrow>
          (if stem = [] then None
           else (case meta_from_slice D bytes of
               Err _ \<Rightarrow> None
             | Ok meta \<Rightarrow> Some (modified, name, dm_size_bytes meta)))
      | _ \<Rightarrow> None)"

definition prune_entries :: "disk_env \<Rightarrow> dir_files \<Rightarrow> (nat \<times> string \<times> nat) list" where
  "prune_entries D files = filter_map (prune_entry D files) (de_read_dir D)"

text \<open>The running total is a \<open>u64\<close>.\<close>

definition entries_total :: "(nat \<times> string \<times> nat) list \<Rightarrow> nat" where
  "entries_total es = foldl (\<lambda>n e. (n + snd (snd e)) mod 2 ^ 64) 0 es"

definition body_of_meta :: "string \<Rightarrow> string" where
  "body_of_meta name = body_path (unwrap_or (strip_suffix name ''.json'') name)"

fun prune_loop :: "disk_env \<Rightarrow> nat \<Rightarrow> nat \<Rightarrow> (nat \<times> string \<times> nat) list \<Rightarrow> dir_files \<Rightarrow> dir_files" where
  "prune_loop D max_bytes total_bytes [] files = files"
| "prune_loop D max_bytes total_bytes ((_, name, sz) # es) files =
     (if total_bytes \<le> max_bytes then files
      else prune_loop D max_bytes (total_bytes - sz) es
        (try_remove D (body_of_meta name) (try_remove D name files)))"

definition prune_if_needed :: "disk_env \<Rightarrow> disk_cache \<Rightarrow> dir_files \<Rightarrow> unit fallible \<times> dir_files" where
  "prune_if_needed D dc files =
     (case de_faults D 3 of
        Some (e, _) \<Rightarrow> (Err (Message e), files)
      | None \<Rightarrow>
          (let entries = prune_entries D files; total_bytes = entries_total entries in
           if total_bytes \<le> dc_max_bytes dc then (Ok (), files)
           else (Ok (), prune_loop D (dc_max_bytes dc) total_bytes (sort_key fst entries) files)))"

definition disk_set ::
  "disk_env \<Rightarrow> disk_cache \<Rightarrow> dir_files \<Rightarrow> string \<Rightarrow> cached_inline_data \<Rightarrow> unit fallible \<times> dir_files" where
  "disk_set D dc files url data =
     (case de_faults D 0 of
        Some (e, _) \<Rightarrow> (Err (Message e), files)
      | None \<Rightarrow>
          (let stem = cache_key D url; bytes = cd_bytes data in
           case de_faults D 1 of
             Some (e, left) \<Rightarrow>
               (Err (Message e),
                case left of None \<Rightarrow> files
                | Some n \<Rightarrow> files(body_path stem \<mapsto> (take n bytes, de_now D)))
           | None \<Rightarrow>
               (let files = files(body_path stem \<mapsto> (bytes, de_now D));
                    meta = \<lparr>dm_mime_type = cd_mime_type data,
                            dm_expires_at_unix_ms = (de_now D + dc_ttl dc) mod 2 ^ 64,
                            dm_size_bytes = length bytes\<rparr>
                in case to_vec (de_serde D) (meta_json meta) of
                     Err e \<Rightarrow> (Err (Message e), files)
                   | Ok text \<Rightarrow>
                       (case de_faults D 2 of
                          Some (e, left) \<Rightarrow>
                            (Err (Message e),
                             case left of None \<Rightarrow> files
                             | Some n \<Rightarrow> files(meta_path stem \<mapsto> (take n text, de_now D)))
                        | None \<Rightarrow> prune_if_needed D dc (files(meta_path stem \<mapsto> (text, de_now D)))))))"

section \<open>Lookups after a store\<close>

lemma meta_roundtrip:
  assumes "dm_expires_at_unix_ms m \<le> u64_max" "dm_size_bytes m \<le> u64_max"
  shows "meta_of_json (meta_json m) = Some m"
  using assms by (simp add: meta_of_json_def meta_json_def jget_str_def u64_of_json_def)

lemma meta_body_path_neq: "meta_path a \<noteq> body_path b"
proof
  assume "meta_path a = body_path b"
  then have "rev (meta_path a) = rev (body_path b)" by simp
  then show False by (simp add: meta_path_def body_path_def)
qed

text \<open>
  A description that does not parse, for instance one cut short by a crash while it was
  written, makes the lookup fail and stays: every later lookup of that URL fails as well.
\<close>

lemma disk_get_corrupt:
  assumes "files (meta_path (cache_key D url)) = Some (bytes, t)"
    and "files (body_path (cache_key D url)) = Some b" "de_faults D 0 = None"
    and "meta_from_slice D bytes = Err e"
  shows "disk_get D files url = (Err (Message e), files)"
  using assms by (cases b) (simp add: disk_get_def Let_def)

lemma prune_skips_corrupt:
  assumes "meta_from_slice D bytes = Err e" "files name = Some (bytes, t)"
  shows "prune_entry D files name = None"
  using assms by (auto simp: prune_entry_def split: option.splits)

lemma disk_set_get:
  assumes nf: "de_faults D = no_faults"
    and sv: "to_vec (de_serde D) (meta_json m) = Ok text" "from_slice (de_serde D) text = Ok (meta_json m)"
    and m: "m = \<lparr>dm_mime_type = cd_mime_type data, dm_expires_at_unix_ms = (de_now D + dc_ttl dc) mod 2 ^ 64,
        dm_size_bytes = length (cd_bytes data)\<rparr>"
    and small: "length (cd_bytes data) \<le> u64_max"
    and st: "disk_set D dc files url data = (Ok (), files')"
    and fits: "entries_total (prune_entries D (files(body_path (cache_key D url) \<mapsto> (cd_bytes data, de_now D),
          meta_path (cache_key D url) \<mapsto> (text, de_now D)))) \<le> dc_max_bytes dc"
    and now: "now \<le> (de_now D + dc_ttl dc) mod 2 ^ 64"
  shows "disk_get (D\<lparr>de_now := now\<rparr>) files' url = (Ok (Some data), files')"
proof -
  have f': "files' = files(body_path (cache_key D url) \<mapsto> (cd_bytes data, de_now D),
          meta_path (cache_key D url) \<mapsto> (text, de_now D))"
    using st nf sv(1) fits by (simp add: disk_set_def prune_if_needed_def no_faults_def m Let_def)
  have "(de_now D + dc_ttl dc) mod 2 ^ 64 < 2 ^ 64" by (rule mod_less_divisor) simp
  then have exp: "dm_expires_at_unix_ms m \<le> u64_max" "dm_size_bytes m \<le> u64_max"
    using small by (simp_all add: m u64_max_def)
  have ms: "meta_from_slice (D\<lparr>de_now := now\<rparr>) text = Ok m"
    using sv(2) meta_roundtrip [OF exp] by (simp add: meta_from_slice_def)
  have ck: "cache_key (D\<lparr>de_now := now\<rparr>) url = cache_key D url" by (simp add: cache_key_def)
  show ?thesis
    using ms now meta_body_path_neq [symmetric] meta_body_path_neq
    by (simp add: disk_get_def f' ck nf no_faults_def m Let_def)
qed

end
