(* ===== verification/Fetch_Service.thy ===== *)
theory Fetch_Service
  imports Disk_Cache Image_Io Config
begin

text \<open>
  \<^verbatim>\<open>InlineDataUrlFetchService\<close> of \<^verbatim>\<open>src/cache.rs\<close>: images are looked up in memory, then on disk,
  then fetched by one background task per URL that any number of requests wait for. A call is the
  sequence of its atomic parts (lookup, the two looks at the table of tasks under its lock, the
  task's completion); what arrives from outside (HTTP answers, elapsed timeouts, when a waiter is
  notified) is an argument.
\<close>

section \<open>Errors\<close>

definition EXTERNAL_IMAGE_FETCH_PROXY_PREFIX :: string where
  "EXTERNAL_IMAGE_FETCH_PROXY_PREFIX = ''https://gemini.xinbaoai.com/proxy/image?url=''"

text \<open>\<^verbatim>\<open>err.to_string()\<close>.\<close>

definition anyhow_text :: "fmt_api \<Rightarrow> anyhow \<Rightarrow> string" where
  "anyhow_text F err =
     (case err of
        Message m \<Rightarrow> m
      | ImageFetchStatusError st \<Rightarrow> ''image fetch failed with status '' @ status_text F st
      | BackgroundFetchWaitTimeoutError wait total_ms \<Rightarrow>
          MSG_FETCH_BACKGROUND @ '': wait='' @ duration_text F wait @ '' total='' @ duration_text F total_ms
      | ReqwestError r \<Rightarrow> error_text r
      | StructuredProxyError s \<Rightarrow> se_detail s)"

definition should_retry_fetch_error :: "fmt_api \<Rightarrow> anyhow \<Rightarrow> bool" where
  "should_retry_fetch_error F err =
     (if anyhow_text F err = MSG_FETCH_TIMEOUT then False
      else (case err of
          ImageFetchStatusError st \<Rightarrow>
            st \<in> {REQUEST_TIMEOUT, TOO_EARLY, TOO_MANY_REQUESTS, INTERNAL_SERVER_ERROR, BAD_GATEWAY,
                   SERVICE_UNAVAILABLE, GATEWAY_TIMEOUT}
        | ReqwestError r \<Rightarrow>
            if is_body r \<or> is_decode r then False else is_connect r \<or> is_request r
        | _ \<Rightarrow> False))"

definition maybe_wrap_external_proxy_url :: "'u url_api \<Rightarrow> string \<Rightarrow> string list \<Rightarrow> string fallible" where
  "maybe_wrap_external_proxy_url U raw_url patterns =
     (if patterns = [] then Ok raw_url
      else (case url_parse U raw_url of
          Err e \<Rightarrow> Err (Message e)
        | Ok parsed \<Rightarrow>
            if \<not> hostname_matches_domain_patterns (host_or_empty U parsed) patterns then Ok raw_url
            else Ok (EXTERNAL_IMAGE_FETCH_PROXY_PREFIX @ byte_serialize U raw_url)))"

section \<open>The service\<close>

record fetch_service =
  sv_max_image_bytes :: nat
  sv_allow_private_networks :: bool
  sv_optimize_large_png_as_webp :: bool
  sv_external_proxy_domains :: "string list"
  sv_disk :: "disk_cache option"
  sv_wait_timeout :: nat
  sv_total_timeout :: nat
  sv_max_inflight :: nat
  sv_enable_background_bridge :: bool

type_synonym published = "(string, cached_inline_data) result"

text \<open>The mutable part: the caches, the table of running tasks, and what each task published.\<close>

record 'l fetch_state =
  st_memory :: "'l memory_cache option"
  st_files :: dir_files
  st_inflight :: "(string \<times> nat) list"
  st_published :: "nat \<Rightarrow> published option"
  st_next_task :: nat

record fetch_result =
  fr_mime_type :: string
  fr_bytes :: string
  fr_from_cache :: bool

definition from_config_with_png_optimization ::
  "'l memory_lru \<Rightarrow> config \<Rightarrow> dir_files \<Rightarrow> nat \<Rightarrow> bool \<Rightarrow> bool \<Rightarrow> nat \<Rightarrow> bool
   \<Rightarrow> (fetch_service \<times> 'l fetch_state) option" where
  "from_config_with_png_optimization L c files max_image_bytes allow_private_networks
       optimize_large_png_as_webp max_inflight enable_background_bridge =
     (if trim (inline_data_url_cache_dir c) = [] \<and> inline_data_url_background_fetch_total_timeout c = 0
         \<and> inline_data_url_memory_cache_max_bytes c = 0 then None
      else Some
        (\<lparr>sv_max_image_bytes = max_image_bytes, sv_allow_private_networks = allow_private_networks,
          sv_optimize_large_png_as_webp = optimize_large_png_as_webp,
          sv_external_proxy_domains = image_fetch_external_proxy_domains c,
          sv_disk =
            (if trim (inline_data_url_cache_dir c) \<noteq> [] \<and> inline_data_url_cache_ttl c \<noteq> 0
                \<and> 0 < inline_data_url_cache_max_bytes c
             then Some \<lparr>dc_ttl = inline_data_url_cache_ttl c, dc_max_bytes = inline_data_url_cache_max_bytes c\<rparr>
             else None),
          sv_wait_timeout = inline_data_url_background_fetch_wait_timeout c,
          sv_total_timeout = inline_data_url_background_fetch_total_timeout c,
          sv_max_inflight = max_inflight, sv_enable_background_bridge = enable_background_bridge\<rparr>,
         \<lparr>st_memory =
            (if 0 < inline_data_url_memory_cache_max_bytes c
             then Some (memory_cache_new L (of_nat (inline_data_url_memory_cache_max_bytes c))) else None),
          st_files = files, st_inflight = [], st_published = (\<lambda>_. None), st_next_task = 0\<rparr>))"

definition from_config ::
  "'l memory_lru \<Rightarrow> config \<Rightarrow> dir_files \<Rightarrow> nat \<Rightarrow> bool \<Rightarrow> (fetch_service \<times> 'l fetch_state) option" where
  "from_config L c files max_image_bytes allow_private_networks =
     from_config_with_png_optimization L c files max_image_bytes allow_private_networks
       (enable_request_image_webp_optimization c) (inline_data_url_background_fetch_max_inflight c) True"

definition from_response_config ::
  "'l memory_lru \<Rightarrow> config \<Rightarrow> dir_files \<Rightarrow> nat \<Rightarrow> bool \<Rightarrow> (fetch_service \<times> 'l fetch_state) option" where
  "from_response_config L c files max_image_bytes allow_private_networks =
     from_config_with_png_optimization L c files max_image_bytes allow_private_networks
       False (max (inline_data_url_background_fetch_max_inflight c) 1) False"

section \<open>Fetching directly\<close>

text \<open>What one attempt meets: the HTTP side, whether the total timeout fires, and the optimizer.\<close>

record ('u, 'i) attempt_env =
  at_get :: "'u http_get"
  at_total_elapses :: bool
  at_images :: "'i image_api"
  at_join_error :: "string option"
  at_webp_elapses :: bool

definition fetch_and_optimize_with_total_timeout ::
  "nat \<Rightarrow> bool \<Rightarrow> fetched_inline_data fallible \<Rightarrow> (fetched_inline_data \<Rightarrow> fetched_inline_data fallible)
   \<Rightarrow> fetched_inline_data fallible" where
  "fetch_and_optimize_with_total_timeout total_timeout elapses fetched optimize =
     (if total_timeout \<noteq> 0 \<and> elapses then Err (Message MSG_FETCH_TIMEOUT)
      else (case fetched of Err e \<Rightarrow> Err e | Ok f \<Rightarrow> optimize f))"

definition fetch_once ::
  "'u url_api \<Rightarrow> fetch_service \<Rightarrow> ('u, 'i) attempt_env \<Rightarrow> string \<Rightarrow> fetched_inline_data fallible" where
  "fetch_once U sv A fetch_url =
     fetch_and_optimize_with_total_timeout (sv_total_timeout sv) (at_total_elapses A)
       (fetch_image_as_inline_data_with_options U (at_get A) fetch_url (sv_max_image_bytes sv)
          (sv_allow_private_networks sv))
       (\<lambda>fetched.
          if sv_optimize_large_png_as_webp sv
          then maybe_convert_large_png_to_lossless_webp_with_timeout (at_images A) (at_join_error A) fetched
                 REQUEST_PNG_WEBP_OPTIMIZATION_TIMEOUT (at_webp_elapses A)
          else Ok fetched)"

text \<open>
  The loop over two attempts; the result carries how many were made. \<open>rounds\<close> counts the
  iterations left, and the loop always returns within them.
\<close>

fun attempt_loop ::
  "'u url_api \<Rightarrow> fmt_api \<Rightarrow> fetch_service \<Rightarrow> (nat \<Rightarrow> ('u, 'i) attempt_env) \<Rightarrow> string \<Rightarrow> nat \<Rightarrow> nat
   \<Rightarrow> (fetched_inline_data fallible \<times> nat) option" where
  "attempt_loop U F sv env fetch_url attempt 0 = None"
| "attempt_loop U F sv env fetch_url attempt (Suc rounds) =
     (case fetch_once U sv (env attempt) fetch_url of
        Ok fetched \<Rightarrow> Some (Ok fetched, attempt + 1)
      | Err err \<Rightarrow>
          if attempt = 0 \<and> should_retry_fetch_error F err
          then attempt_loop U F sv env fetch_url (attempt + 1) rounds
          else Some (Err err, attempt + 1))"

definition direct_fetch ::
  "'u url_api \<Rightarrow> fmt_api \<Rightarrow> fetch_service \<Rightarrow> (nat \<Rightarrow> ('u, 'i) attempt_env) \<Rightarrow> string
   \<Rightarrow> (fetched_inline_data fallible \<times> nat) option" where
  "direct_fetch U F sv env raw_url =
     (case maybe_wrap_external_proxy_url U raw_url (sv_external_proxy_domains sv) of
        Err e \<Rightarrow> Some (Err e, 0)
      | Ok fetch_url \<Rightarrow> attempt_loop U F sv env fetch_url 0 2)"

section \<open>Looking up and registering\<close>

definition cached_result :: "cached_inline_data \<Rightarrow> bool \<Rightarrow> fetch_result" where
  "cached_result hit from_cache =
     \<lparr>fr_mime_type = cd_mime_type hit, fr_bytes = cd_bytes hit, fr_from_cache = from_cache\<rparr>"

text \<open>The lookups at the start of \<^verbatim>\<open>fetch\<close>: a hit, an error of the disk cache, or neither.\<close>

definition fetch_lookup ::
  "'l memory_lru \<Rightarrow> disk_env \<Rightarrow> fetch_service \<Rightarrow> 'l fetch_state \<Rightarrow> string
   \<Rightarrow> fetch_result option fallible \<times> 'l fetch_state" where
  "fetch_lookup L D sv st url =
     (let (hit, mem) = (case st_memory st of
            None \<Rightarrow> (None, None)
          | Some m \<Rightarrow> (let (h, m') = memory_get L m url in (h, Some m')));
          st = st\<lparr>st_memory := mem\<rparr>
      in case hit of
           Some h \<Rightarrow> (Ok (Some (cached_result h True)), st)
         | None \<Rightarrow>
             (case sv_disk sv of
                None \<Rightarrow> (Ok None, st)
              | Some dc \<Rightarrow>
                  (case disk_get D (st_files st) url of
                     (Err e, files) \<Rightarrow> (Err e, st\<lparr>st_files := files\<rparr>)
                   | (Ok None, files) \<Rightarrow> (Ok None, st\<lparr>st_files := files\<rparr>)
                   | (Ok (Some h), files) \<Rightarrow>
                       (Ok (Some (cached_result h True)),
                        st\<lparr>st_files := files,
                           st_memory := map_option (\<lambda>m. memory_set L m url h) (st_memory st)\<rparr>))))"

datatype registration = Join nat | FetchHere | Spawned nat

text \<open>The second look at the table, under the lock that also inserts.\<close>

definition fetch_register :: "fetch_service \<Rightarrow> 'l fetch_state \<Rightarrow> string \<Rightarrow> registration \<times> 'l fetch_state" where
  "fetch_register sv st url =
     (case map_of (st_inflight st) url of
        Some t \<Rightarrow> (Join t, st)
      | None \<Rightarrow>
          if sv_max_inflight sv \<le> length (st_inflight st) then (FetchHere, st)
          else
            (let t = st_next_task st in
             (Spawned t, st\<lparr>st_inflight := (url, t) # st_inflight st, st_next_task := t + 1\<rparr>)))"

definition store_in_caches ::
  "'l memory_lru \<Rightarrow> disk_env \<Rightarrow> fetch_service \<Rightarrow> 'l fetch_state \<Rightarrow> string \<Rightarrow> cached_inline_data \<Rightarrow> 'l fetch_state" where
  "store_in_caches L D sv st url hit =
     (let st = st\<lparr>st_memory := map_option (\<lambda>m. memory_set L m url hit) (st_memory st)\<rparr> in
      case sv_disk sv of
        None \<Rightarrow> st
      | Some dc \<Rightarrow> st\<lparr>st_files := snd (disk_set D dc (st_files st) url hit)\<rparr>)"

text \<open>The background task: its result is published, its entry removed, and an image cached.\<close>

definition complete_task ::
  "'l memory_lru \<Rightarrow> disk_env \<Rightarrow> fmt_api \<Rightarrow> fetch_service \<Rightarrow> 'l fetch_state \<Rightarrow> nat \<Rightarrow> string
   \<Rightarrow> fetched_inline_data fallible \<Rightarrow> 'l fetch_state" where
  "complete_task L D F sv st task url result =
     (let cached = map_sum id (\<lambda>f. \<lparr>cd_mime_type = fi_mime_type f, cd_bytes = fi_bytes f\<rparr>) result;
          published = map_sum (anyhow_text F) id cached;
          st = st\<lparr>st_published := (st_published st)(task := Some published),
                  st_inflight := without url (st_inflight st)\<rparr>
      in case cached of Err _ \<Rightarrow> st | Ok hit \<Rightarrow> store_in_caches L D sv st url hit)"

text \<open>With too many tasks running the caller fetches itself and waits for nobody.\<close>

definition fetch_here ::
  "'l memory_lru \<Rightarrow> disk_env \<Rightarrow> fetch_service \<Rightarrow> 'l fetch_state \<Rightarrow> string \<Rightarrow> fetched_inline_data fallible
   \<Rightarrow> fetch_result fallible \<times> 'l fetch_state" where
  "fetch_here L D sv st url result =
     (case result of
        Err e \<Rightarrow> (Err e, st)
      | Ok f \<Rightarrow>
          (Ok \<lparr>fr_mime_type = fi_mime_type f, fr_bytes = fi_bytes f, fr_from_cache = False\<rparr>,
           store_in_caches L D sv st url \<lparr>cd_mime_type = fi_mime_type f, cd_bytes = fi_bytes f\<rparr>))"

section \<open>Waiting\<close>

definition published_result :: "published option \<Rightarrow> fetch_result option fallible" where
  "published_result p =
     (case p of
        Some (Ok hit) \<Rightarrow> Ok (Some (cached_result hit False))
      | Some (Err message) \<Rightarrow> Err (Message message)
      | None \<Rightarrow> Ok None)"

text \<open>
  What a waiter sees of its task: the result at its first look, after how many milliseconds the
  task notifies its waiters (never, if it is aborted), and the result at its last look.
\<close>

record task_view =
  tv_first :: "published option"
  tv_notified_ms :: "nat option"
  tv_last :: "published option"

definition last_look :: "published option \<Rightarrow> fetch_result fallible" where
  "last_look p =
     (case published_result p of
        Err e \<Rightarrow> Err e
      | Ok (Some r) \<Rightarrow> Ok r
      | Ok None \<Rightarrow> Err (Message ''background fetch finished without result''))"

text \<open>\<^verbatim>\<open>None\<close> as the outcome: the call never returns.\<close>

definition wait_for_task :: "fetch_service \<Rightarrow> task_view \<Rightarrow> fetch_result fallible option" where
  "wait_for_task sv v =
     (case published_result (tv_first v) of
        Err e \<Rightarrow> Some (Err e)
      | Ok (Some r) \<Rightarrow> Some (Ok r)
      | Ok None \<Rightarrow>
          if \<not> sv_enable_background_bridge sv then
            (case tv_notified_ms v of None \<Rightarrow> None | Some _ \<Rightarrow> Some (last_look (tv_last v)))
          else
            (let wait_timeout = (if sv_wait_timeout sv = 0 then sv_total_timeout sv else sv_wait_timeout sv);
                 in_time = (case tv_notified_ms v of None \<Rightarrow> False | Some ms \<Rightarrow> ms \<le> wait_timeout)
             in if \<not> in_time then
                  (case published_result (tv_last v) of
                     Err e \<Rightarrow> Some (Err e)
                   | Ok (Some r) \<Rightarrow> Some (Ok r)
                   | Ok None \<Rightarrow>
                       Some (Err (BackgroundFetchWaitTimeoutError wait_timeout (sv_total_timeout sv))))
                else Some (last_look (tv_last v))))"

text \<open>
  A whole call. \<open>interfere\<close> is what other tasks do to the shared state between the two looks at
  the table; \<open>view\<close> gives what a waiter sees of a task, \<open>direct\<close> the result of fetching directly.
\<close>

definition fetch ::
  "'l memory_lru \<Rightarrow> disk_env \<Rightarrow> fetch_service \<Rightarrow> ('l fetch_state \<Rightarrow> 'l fetch_state) \<Rightarrow> (nat \<Rightarrow> task_view)
   \<Rightarrow> fetched_inline_data fallible \<Rightarrow> 'l fetch_state \<Rightarrow> string
   \<Rightarrow> fetch_result fallible option \<times> 'l fetch_state" where
  "fetch L D sv interfere view direct st url =
     (case fetch_lookup L D sv st url of
        (Err e, st) \<Rightarrow> (Some (Err e), st)
      | (Ok (Some r), st) \<Rightarrow> (Some (Ok r), st)
      | (Ok None, st) \<Rightarrow>
          (case map_of (st_inflight st) url of
             Some t \<Rightarrow> (wait_for_task sv (view t), st)
           | None \<Rightarrow>
               (case fetch_register sv (interfere st) url of
                  (Join t, st) \<Rightarrow> (wait_for_task sv (view t), st)
                | (FetchHere, st) \<Rightarrow> (let (r, st) = fetch_here L D sv st url direct in (Some r, st))
                | (Spawned t, st) \<Rightarrow> (wait_for_task sv (view t), st))))"

section \<open>Lemmas\<close>

lemma direct_fetch_returns:
  "\<exists>r n. direct_fetch U F sv env url = Some (r, n) \<and> n \<le> 2"
  by (auto simp: direct_fetch_def numeral_2_eq_2 split: sum.splits)

text \<open>A task is registered at most once per URL, and no more than the limit at a time.\<close>

definition inflight_ok :: "fetch_service \<Rightarrow> 'l fetch_state \<Rightarrow> bool" where
  "inflight_ok sv st \<longleftrightarrow>
     distinct (map fst (st_inflight st)) \<and> distinct (map snd (st_inflight st))
     \<and> length (st_inflight st) \<le> sv_max_inflight sv
     \<and> (\<forall>t \<in> snd ` set (st_inflight st). t < st_next_task st)"

lemma fetch_lookup_inflight:
  "st_inflight (snd (fetch_lookup L D sv st url)) = st_inflight st
   \<and> st_next_task (snd (fetch_lookup L D sv st url)) = st_next_task st"
  by (auto simp: fetch_lookup_def Let_def split: option.splits prod.splits sum.splits)

lemma store_in_caches_inflight:
  "st_inflight (store_in_caches L D sv st url hit) = st_inflight st
   \<and> st_next_task (store_in_caches L D sv st url hit) = st_next_task st"
  by (auto simp: store_in_caches_def Let_def split: option.splits)

lemma register_inflight_ok [inv_intros]:
  "inflight_ok sv st \<Longrightarrow> inflight_ok sv (snd (fetch_register sv st url))"
  by (auto simp: inflight_ok_def fetch_register_def Let_def map_of_eq_None_iff split: option.splits)

lemma complete_inflight_ok [inv_intros]:
  assumes "inflight_ok sv st"
  shows "inflight_ok sv (complete_task L D F sv st t url r)"
proof -
  have d: "distinct (map snd (without url xs))" if "distinct (map snd xs)" for xs :: "(string \<times> nat) list"
    using that by (induction xs) (auto simp: without_def)
  have "length (without url (st_inflight st)) \<le> length (st_inflight st)" by (rule length_without_le)
  then show ?thesis
    using assms d distinct_without [of "st_inflight st" url]
    by (auto simp: complete_task_def inflight_ok_def store_in_caches_inflight set_without Let_def
        split: sum.splits)
qed

lemma fetch_inflight_ok [inv_intros]:
  assumes ok: "inflight_ok sv st" and int: "\<And>s. inflight_ok sv s \<Longrightarrow> inflight_ok sv (interfere s)"
  shows "inflight_ok sv (snd (fetch L D sv interfere view direct st url))"
proof -
  let ?st = "snd (fetch_lookup L D sv st url)"
  have st: "inflight_ok sv ?st" using ok by (simp add: inflight_ok_def fetch_lookup_inflight)
  have here: "inflight_ok sv (snd (fetch_here L D sv s url d))" if "inflight_ok sv s" for s d
    using that by (auto simp: fetch_here_def inflight_ok_def store_in_caches_inflight split: sum.splits)
  have reg: "inflight_ok sv (snd (fetch_register sv (interfere ?st) url))"
    using st int by (intro register_inflight_ok) blast
  show ?thesis
    using st reg here
    by (auto simp: fetch_def Let_def split: prod.splits sum.splits option.splits registration.splits)
      (metis snd_conv)+
qed

lemma fetch_once_retry: "should_retry_fetch_error F (Message MSG_FETCH_TIMEOUT) = False"
  by (simp add: should_retry_fetch_error_def anyhow_text_def)

section \<open>Properties\<close>


text \<open>A wait for a background fetch that is cut off by a timeout, or whose fetch tells its waiters of its end.\<close>

definition fetches_end :: "fetch_service option \<Rightarrow> (nat \<Rightarrow> task_view) \<Rightarrow> bool" where
  "fetches_end service view \<longleftrightarrow>
     (case service of
        None \<Rightarrow> True
      | Some sv \<Rightarrow> sv_enable_background_bridge sv \<or> (\<forall>t. tv_notified_ms (view t) \<noteq> None))"

lemma fetch_returns:
  assumes "fetches_end (Some sv) view"
  shows "fst (fetch L D sv interfere view direct st url) \<noteq> None"
proof -
  have "wait_for_task sv (view t) \<noteq> None" for t
  proof -
    have "sv_enable_background_bridge sv \<or> tv_notified_ms (view t) \<noteq> None" using assms by (auto simp: fetches_end_def)
    then show ?thesis by (auto simp: wait_for_task_def Let_def split: sum.splits option.splits)
  qed
  then show ?thesis
    by (auto simp: fetch_def Let_def simp del: not_None_eq split: sum.splits option.splits prod.splits registration.splits)
qed

definition sample_service :: fetch_service where
  "sample_service =
     \<lparr>sv_max_image_bytes = 100, sv_allow_private_networks = False, sv_optimize_large_png_as_webp = False,
      sv_external_proxy_domains = [], sv_disk = Some \<lparr>dc_ttl = 1000, dc_max_bytes = 100\<rparr>,
      sv_wait_timeout = 0, sv_total_timeout = 0, sv_max_inflight = 1, sv_enable_background_bridge = True\<rparr>"

definition sample_disk_env :: disk_env where
  "sample_disk_env =
     \<lparr>de_serde = sample_serde [], de_shape_error = (\<lambda>_. ''invalid type''), de_sha256_hex = id, de_now = 0,
      de_faults = no_faults, de_rm_fails = (\<lambda>_. False), de_read_dir = []\<rparr>"

definition sample_state :: "(string, memory_entry) lru_state fetch_state" where
  "sample_state =
     \<lparr>st_memory = Some (memory_cache_new lru_list 10), st_files = (\<lambda>_. None), st_inflight = [],
      st_published = (\<lambda>_. None), st_next_task = 0\<rparr>"

definition sample_view :: task_view where
  "sample_view = \<lparr>tv_first = None, tv_notified_ms = Some 5, tv_last = None\<rparr>"

text \<open>
  (C24) An image a task fetched is served from memory afterwards: once the task has completed, the
  next call for the URL returns the image, marked as cached, without waiting or fetching.
\<close>

theorem fetched_image_served_from_memory:
  assumes "memory_lru L" "st_memory st = Some mc" "memory_inv L mc"
    and "length (fi_bytes f) < 2 ^ 64" "of_nat (length (fi_bytes f)) \<le> mc_max_bytes mc"
  shows "fst (fetch L D' sv interfere view direct (complete_task L D F sv st t url (Ok f)) url)
    = Some (Ok \<lparr>fr_mime_type = fi_mime_type f, fr_bytes = fi_bytes f, fr_from_cache = True\<rparr>)"
proof -
  let ?d = "\<lparr>cd_mime_type = fi_mime_type f, cd_bytes = fi_bytes f\<rparr>"
  let ?st = "complete_task L D F sv st t url (Ok f)"
  have m: "st_memory ?st = Some (memory_set L mc url ?d)"
    using assms(2) by (simp add: complete_task_def store_in_caches_def Let_def split: option.splits)
  note set = memory_lru.memory_set_state [OF assms(1,3), of ?d url]
  obtain mc' where "memory_get L (memory_set L mc url ?d) url = (Some ?d, mc')"
    using memory_lru.memory_get_state [OF assms(1), of "memory_set L mc url ?d" url] set assms(4,5)
    by (metis cached_inline_data.select_convs(2) prod.collapse)
  then show ?thesis
    by (simp add: fetch_def fetch_lookup_def m cached_result_def Let_def)
qed

lemma fetched_image_served_from_memory_witness:
  "fst (fetch lru_list sample_disk_env sample_service id (\<lambda>_. sample_view) (Err (Message ''e''))
      (complete_task lru_list sample_disk_env sample_fmt sample_service sample_state 0 ''u''
        (Ok \<lparr>fi_mime_type = ''image/png'', fi_bytes = ''abc''\<rparr>)) ''u'')
   = Some (Ok \<lparr>fr_mime_type = ''image/png'', fr_bytes = ''abc'', fr_from_cache = True\<rparr>)"
  using fetched_image_served_from_memory [OF list_memory.memory_lru_axioms, of sample_state
      "memory_cache_new lru_list 10" "\<lparr>fi_mime_type = ''image/png'', fi_bytes = ''abc''\<rparr>"]
    list_memory.memory_new_inv [of 10]
  by (simp add: sample_state_def memory_cache_new_def)

text \<open>
  The atomic steps of any number of concurrent calls, in any order: lookups, registrations,
  completions, and callers that fetch by themselves.
\<close>

datatype service_op =
    LookUp string
  | Register string
  | Complete nat string "fetched_inline_data fallible"
  | FetchAlone string "fetched_inline_data fallible"

fun service_step ::
  "'l memory_lru \<Rightarrow> disk_env \<Rightarrow> fmt_api \<Rightarrow> fetch_service \<Rightarrow> 'l fetch_state \<Rightarrow> service_op \<Rightarrow> 'l fetch_state" where
  "service_step L D F sv st (LookUp url) = snd (fetch_lookup L D sv st url)"
| "service_step L D F sv st (Register url) = snd (fetch_register sv st url)"
| "service_step L D F sv st (Complete t url r) = complete_task L D F sv st t url r"
| "service_step L D F sv st (FetchAlone url r) = snd (fetch_here L D sv st url r)"

lemma service_step_ok: "inflight_ok sv st \<Longrightarrow> inflight_ok sv (service_step L D F sv st op)"
proof (cases op)
  case (LookUp url)
  then show "inflight_ok sv st \<Longrightarrow> ?thesis" by (simp add: inflight_ok_def fetch_lookup_inflight)
next
  case (FetchAlone url r)
  then show "inflight_ok sv st \<Longrightarrow> ?thesis"
    by (auto simp: fetch_here_def inflight_ok_def store_in_caches_inflight split: sum.splits)
qed (simp_all add: inv_intros)

text \<open>
  However the steps of concurrent calls interleave, a URL never has two running tasks, no task
  serves two URLs, and the number of tasks stays within the configured limit.
\<close>

lemma running_tasks_bounded:
  assumes "from_config L c files max_image_bytes allow = Some (sv, st)"
  shows "let s = foldl (service_step L D F sv) st ops in
    distinct (map fst (st_inflight s)) \<and> distinct (map snd (st_inflight s))
    \<and> length (st_inflight s) \<le> inline_data_url_background_fetch_max_inflight c"
proof -
  have start: "inflight_ok sv st" "sv_max_inflight sv = inline_data_url_background_fetch_max_inflight c"
    using assms
    by (auto simp: from_config_def from_config_with_png_optimization_def inflight_ok_def split: if_splits)
  have "inflight_ok sv (foldl (service_step L D F sv) s ops)" if "inflight_ok sv s" for s
    using that by (induction ops arbitrary: s) (auto intro: service_step_ok)
  with start show ?thesis by (auto simp: inflight_ok_def Let_def)
qed

lemma running_tasks_bounded_witness:
  "\<exists>c sv st. from_config lru_list c (\<lambda>_. None) 100 False = Some (sv, st)
     \<and> inline_data_url_background_fetch_max_inflight c = 1
     \<and> (let s = foldl (service_step lru_list sample_disk_env sample_fmt sv) st
                [Register ''u1'', Register ''u1'', Register ''u2'']
        in distinct (map fst (st_inflight s)) \<and> distinct (map snd (st_inflight s))
           \<and> length (st_inflight s) \<le> 1 \<and> st_inflight s = [(''u1'', 0)])"
proof -
  let ?c = "(config_from_env sample_url r2_env)\<lparr>inline_data_url_memory_cache_max_bytes := 5,
      inline_data_url_background_fetch_max_inflight := 1\<rparr>"
  let ?ops = "[Register ''u1'', Register ''u1'', Register ''u2'']"
  obtain sv st where c: "from_config lru_list ?c (\<lambda>_. None) 100 False = Some (sv, st)"
    "st_inflight st = []" "st_next_task st = 0" "sv_max_inflight sv = 1"
    by (simp add: from_config_def from_config_with_png_optimization_def)
  have "st_inflight (foldl (service_step lru_list sample_disk_env sample_fmt sv) st ?ops) = [(''u1'', 0)]"
    using c(2,3,4) by (simp add: fetch_register_def Let_def)
  with c running_tasks_bounded [OF c(1), of sample_disk_env sample_fmt ?ops]
  show ?thesis by (intro exI [of _ ?c] exI [of _ sv] exI [of _ st]) (simp add: Let_def)
qed

text \<open>
  A disk description that cannot be read back (cut short by a crash, say) makes every call for
  its URL fail with the parse error for as long as it is on disk, before any fetch is tried, and
  neither the lookup nor a later prune removes it.
\<close>

lemma unreadable_description_blocks_url:
  assumes "sv_disk sv = Some dc" "de_faults D 0 = None"
    and "fst (memory_get L m url) = None" "st_memory st = Some m"
    and "st_files st (meta_path (cache_key D url)) = Some (bytes, t)"
    and "st_files st (body_path (cache_key D url)) = Some b"
    and "meta_from_slice D bytes = Err e"
  shows "fst (fetch L D sv interfere view direct st url) = Some (Err (Message e))
    \<and> st_files (snd (fetch L D sv interfere view direct st url)) = st_files st
    \<and> prune_entry D (st_files st) (meta_path (cache_key D url)) = None"
proof -
  have "disk_get D (st_files st) url = (Err (Message e), st_files st)"
    using disk_get_corrupt [of "st_files st" D url, OF assms(5,6,2,7)] .
  then show ?thesis
    using assms prune_skips_corrupt [of D bytes e "st_files st", OF assms(7,5)]
    by (cases "memory_get L m url") (simp add: fetch_def fetch_lookup_def Let_def)
qed

lemma unreadable_description_blocks_url_witness:
  "fst (fetch lru_list sample_disk_env sample_service id (\<lambda>_. sample_view) (Err (Message ''e''))
      (sample_state\<lparr>st_files := [''u.json'' \<mapsto> (''{'', 0), ''u.bin'' \<mapsto> (''abc'', 0)]\<rparr>) ''u'')
   = Some (Err (Message ''expected value''))"
  using unreadable_description_blocks_url [of sample_service "\<lparr>dc_ttl = 1000, dc_max_bytes = 100\<rparr>"
      sample_disk_env lru_list "memory_cache_new lru_list 10" "''u''"
      "sample_state\<lparr>st_files := [''u.json'' \<mapsto> (''{'', 0), ''u.bin'' \<mapsto> (''abc'', 0)]\<rparr>"
      "''{''" 0 "(''abc'', 0)" "''expected value''"]
  by (simp add: sample_state_def sample_service_def sample_disk_env_def no_faults_def memory_get_def
      memory_cache_new_def lru_list_def cache_key_def meta_path_def body_path_def meta_from_slice_def
      sample_serde_def)

text \<open>
  With both timeouts configured as zero, which for the fetch itself means no limit, a caller of
  the bridge does not wait at all: unless the task publishes at once, the call fails with a wait
  timeout of zero although the task is still running.
\<close>

lemma zero_timeouts_give_up_at_once:
  assumes "sv_enable_background_bridge sv" "sv_wait_timeout sv = 0" "sv_total_timeout sv = 0"
    and "tv_first v = None" "tv_notified_ms v = Some ms" "0 < ms" "tv_last v = None"
  shows "wait_for_task sv v = Some (Err (BackgroundFetchWaitTimeoutError 0 0))
    \<and> fetch_and_optimize_with_total_timeout (sv_total_timeout sv) True fetched optimize
        = fetch_and_optimize_with_total_timeout (sv_total_timeout sv) False fetched optimize"
  using assms by (simp add: wait_for_task_def published_result_def fetch_and_optimize_with_total_timeout_def)

lemma zero_timeouts_give_up_at_once_witness:
  "wait_for_task sample_service sample_view = Some (Err (BackgroundFetchWaitTimeoutError 0 0))"
  using zero_timeouts_give_up_at_once [of sample_service sample_view 5]
  by (simp add: sample_service_def sample_view_def)

end
