(* ===== verification/Fetch_Waiters.thy ===== *)
theory Fetch_Waiters
  imports Prelude
begin

text \<open>
  The concurrent side of \<^verbatim>\<open>InlineDataUrlFetchService\<close> (\<^verbatim>\<open>src/cache.rs\<close>): callers that want the same
  URL share one background task, counted by \<^verbatim>\<open>FetchTaskWaiter\<close>; without the background bridge the
  last caller to leave aborts the task. A step is one atomic access to the shared state: the table
  under its lock, the waiter counter, the abort handle, the published result. One URL, any number
  of callers, any number of tasks over time.
\<close>

section \<open>States and steps\<close>

text \<open>
  Where a caller is: before its look at the table; having spawned a task and not stored its abort handle yet; holding
  the task it found or made; registered
  as a waiter; past the decrement that found it the last one; past the abort; returned.
\<close>

datatype caller = Arriving | Spawning nat | Holding nat | Waiting nat | Aborting nat | Unlinking nat | Returned

record wait_sys =
  wq_callers :: "caller list"
  wq_entry :: "nat option"
  wq_next :: nat
  wq_count :: "nat \<Rightarrow> nat"
  wq_handles :: "nat set"
  wq_aborted :: "nat set"
  wq_published :: "nat set"

definition wait_start :: "nat \<Rightarrow> wait_sys" where
  "wait_start n = \<lparr>wq_callers = replicate n Arriving, wq_entry = None, wq_next = 0,
                   wq_count = (\<lambda>_. 0), wq_handles = {}, wq_aborted = {}, wq_published = {}\<rparr>"

text \<open>
  \<^verbatim>\<open>FetchTaskWaiter::drop\<close>, up to its early return: only the last waiter of a service without the
  bridge goes on to abort.
\<close>

definition leave :: "bool \<Rightarrow> wait_sys \<Rightarrow> nat \<Rightarrow> nat \<Rightarrow> wait_sys" where
  "leave bridge s i t =
     (let previous = wq_count s t;
          s = s\<lparr>wq_count := (wq_count s)(t := previous - 1)\<rparr>
      in if previous \<noteq> 1 \<or> bridge then s\<lparr>wq_callers := (wq_callers s)[i := Returned]\<rparr>
         else s\<lparr>wq_callers := (wq_callers s)[i := Aborting t]\<rparr>)"

text \<open>The second half of the drop: the entry is removed only while it is this very task.\<close>

definition unlink :: "wait_sys \<Rightarrow> nat \<Rightarrow> nat \<Rightarrow> wait_sys" where
  "unlink s i t =
     s\<lparr>wq_callers := (wq_callers s)[i := Returned],
       wq_entry := (if wq_entry s = Some t then None else wq_entry s)\<rparr>"

text \<open>
  \<open>cancel\<close> is a caller whose future is dropped (its client went away, or its wait timed out),
  \<open>observe\<close> one that finds the result; both drop their \<^verbatim>\<open>FetchTaskWaiter\<close>.
\<close>

inductive wstep :: "bool \<Rightarrow> wait_sys \<Rightarrow> wait_sys \<Rightarrow> bool" for bridge where
  join: "i < length (wq_callers s) \<Longrightarrow> wq_callers s ! i = Arriving \<Longrightarrow> wq_entry s = Some t \<Longrightarrow>
     wstep bridge s (s\<lparr>wq_callers := (wq_callers s)[i := Holding t]\<rparr>)"
| spawn: "i < length (wq_callers s) \<Longrightarrow> wq_callers s ! i = Arriving \<Longrightarrow> wq_entry s = None \<Longrightarrow>
     wstep bridge s (s\<lparr>wq_callers := (wq_callers s)[i := Spawning (wq_next s)],
                       wq_entry := Some (wq_next s), wq_next := wq_next s + 1\<rparr>)"
| hand_over: "i < length (wq_callers s) \<Longrightarrow> wq_callers s ! i = Spawning t \<Longrightarrow>
     wstep bridge s (s\<lparr>wq_handles := insert t (wq_handles s),
                       wq_callers := (wq_callers s)[i := Holding t]\<rparr>)"
| register: "i < length (wq_callers s) \<Longrightarrow> wq_callers s ! i = Holding t \<Longrightarrow>
     wstep bridge s (s\<lparr>wq_callers := (wq_callers s)[i := Waiting t],
                       wq_count := (wq_count s)(t := wq_count s t + 1)\<rparr>)"
| observe: "i < length (wq_callers s) \<Longrightarrow> wq_callers s ! i = Waiting t \<Longrightarrow> t \<in> wq_published s \<Longrightarrow>
     wstep bridge s (leave bridge s i t)"
| cancel: "i < length (wq_callers s) \<Longrightarrow> wq_callers s ! i = Waiting t \<Longrightarrow>
     wstep bridge s (leave bridge s i t)"
| abort: "i < length (wq_callers s) \<Longrightarrow> wq_callers s ! i = Aborting t \<Longrightarrow>
     wstep bridge s (s\<lparr>wq_aborted := (if t \<in> wq_handles s then insert t (wq_aborted s) else wq_aborted s),
                       wq_handles := wq_handles s - {t},
                       wq_callers := (wq_callers s)[i := Unlinking t]\<rparr>)"
| unlinks: "i < length (wq_callers s) \<Longrightarrow> wq_callers s ! i = Unlinking t \<Longrightarrow>
     wstep bridge s (unlink s i t)"
| publish: "t < wq_next s \<Longrightarrow> t \<notin> wq_aborted s \<Longrightarrow>
     wstep bridge s (s\<lparr>wq_published := insert t (wq_published s)\<rparr>)"
| finish: "t \<in> wq_published s \<Longrightarrow> t \<notin> wq_aborted s \<Longrightarrow>
     wstep bridge s (s\<lparr>wq_entry := None\<rparr>)"

inductive_cases wstep_cases [consumes 1]: "wstep bridge s s'"

definition reaches :: "bool \<Rightarrow> wait_sys \<Rightarrow> wait_sys \<Rightarrow> bool" where
  "reaches bridge = (wstep bridge)\<^sup>*\<^sup>*"

section \<open>Invariants\<close>

text \<open>The counter of a task is the number of its registered waiters.\<close>

definition waiters :: "wait_sys \<Rightarrow> nat \<Rightarrow> nat" where
  "waiters s t = count_list (wq_callers s) (Waiting t)"

text \<open>The callers that will still see to it that the task is not forgotten.\<close>

definition involved :: "caller list \<Rightarrow> nat \<Rightarrow> bool" where
  "involved cs t \<longleftrightarrow> Spawning t \<in> set cs \<or> Holding t \<in> set cs \<or> Waiting t \<in> set cs
     \<or> Aborting t \<in> set cs"

definition wait_inv :: "bool \<Rightarrow> wait_sys \<Rightarrow> bool" where
  "wait_inv bridge s \<longleftrightarrow>
     (\<forall>t. wq_count s t = waiters s t)
     \<and> (\<forall>t. wq_entry s = Some t \<longrightarrow> t < wq_next s)
     \<and> (bridge \<longrightarrow> wq_aborted s = {} \<and> (\<forall>t. Aborting t \<notin> set (wq_callers s)))
     \<and> (\<forall>t. t < wq_next s \<or> involved (wq_callers s) t \<longrightarrow> Spawning t \<in> set (wq_callers s) \<or>
          t \<in> wq_handles s \<or> t \<in> wq_aborted s)
     \<and> (\<not> bridge \<longrightarrow> (\<forall>t < wq_next s. involved (wq_callers s) t \<or> t \<in> wq_aborted s))"

lemma count_list_update:
  "i < length xs \<Longrightarrow>
   count_list (xs[i := x]) y + (if xs ! i = y then 1 else 0) = count_list xs y + (if x = y then 1 else 0)"
proof (induction xs arbitrary: i)
  case Nil
  then show ?case by simp
next
  case (Cons a xs)
  then show ?case by (cases i) force+
qed

lemma in_update: "i < length xs \<Longrightarrow> y \<noteq> xs ! i \<Longrightarrow> y \<in> set xs \<Longrightarrow> y \<in> set (xs[i := x])"
  by (metis in_set_conv_nth length_list_update nth_list_update_neq)

lemma count_list_pos: "0 < count_list xs x \<longleftrightarrow> x \<in> set xs"
  by (metis count_list_0_iff gr0I less_numeral_extra(3))

text \<open>Replacing a caller keeps a task involved, unless it is the caller that leaves it.\<close>

lemma involved_update:
  assumes "involved cs t" "i < length cs"
    "cs ! i \<notin> {Spawning t, Holding t, Waiting t, Aborting t} \<or> c \<in> {Spawning t, Holding t, Waiting t, Aborting t}"
  shows "involved (cs[i := c]) t"
  using assms in_update [OF assms(2)] set_update_memI [OF assms(2), of c]
  unfolding involved_def by auto

lemma involved_updateD:
  "involved (cs[i := c]) t \<Longrightarrow> involved cs t \<or> c \<in> {Spawning t, Holding t, Waiting t, Aborting t}"
  using set_update_subset_insert [of cs i c] unfolding involved_def by blast

lemma wait_inv_start: "wait_inv bridge (wait_start n)"
  by (simp add: wait_inv_def wait_start_def waiters_def count_list_0_iff involved_def)

lemma waiting_count:
  assumes "wait_inv bridge s" "i < length (wq_callers s)" "wq_callers s ! i = Waiting t"
  shows "0 < wq_count s t"
  using assms nth_mem [of i "wq_callers s"] by (simp add: wait_inv_def waiters_def count_list_pos)

text \<open>A caller that moves without touching counters, table or abort handles.\<close>

lemma wait_inv_move:
  assumes inv: "wait_inv bridge s" and i: "i < length (wq_callers s)"
    and c: "\<And>t. wq_callers s ! i \<noteq> Waiting t" "\<And>t. c \<noteq> Waiting t" "\<And>t. c \<noteq> Aborting t"
    and keep: "\<And>t. wq_callers s ! i \<in> {Spawning t, Holding t, Aborting t} \<Longrightarrow>
        c = Spawning t \<or> c = Holding t \<or> t \<in> wq_aborted s \<or> (wq_callers s ! i = Aborting t \<and> Spawning t \<in> set (wq_callers s))"
    and handle: "\<And>t. wq_callers s ! i = Spawning t \<Longrightarrow> t \<in> wq_handles s"
    and known: "\<And>t. c = Holding t \<Longrightarrow> t < wq_next s \<or> involved (wq_callers s) t"
  shows "wait_inv bridge (s\<lparr>wq_callers := (wq_callers s)[i := c]\<rparr>)"
proof -
  have count: "count_list ((wq_callers s)[i := c]) (Waiting t) = count_list (wq_callers s) (Waiting t)" for t
    using count_list_update [OF i, of c "Waiting t"] c by simp
  have ab: "Aborting t \<in> set ((wq_callers s)[i := c]) \<Longrightarrow> Aborting t \<in> set (wq_callers s)" for t
    using set_update_subset_insert [of "wq_callers s" i c] c(3) by blast
  have inv': "involved ((wq_callers s)[i := c]) t \<or> t \<in> wq_aborted s" if "involved (wq_callers s) t" for t
  proof (cases "wq_callers s ! i \<in> {Spawning t, Holding t, Aborting t}")
    case True
    from keep [OF this] consider "c \<in> {Spawning t, Holding t}" | "t \<in> wq_aborted s"
      | "wq_callers s ! i = Aborting t" "Spawning t \<in> set (wq_callers s)" by blast
    then show ?thesis
    proof cases
      case 1
      then show ?thesis using involved_update [OF that i, of c] by blast
    next
      case 3
      then show ?thesis using in_update [OF i, of "Spawning t" c] by (simp add: involved_def)
    qed simp
  next
    case False
    then show ?thesis using involved_update [OF that i, of c] c(1) by blast
  qed
  have h: "Spawning t \<in> set ((wq_callers s)[i := c]) \<or> t \<in> wq_handles s" if "Spawning t \<in> set (wq_callers s)" for t
    using in_update [OF i _ that] handle [of t] by metis
  have k: "Spawning t \<in> set ((wq_callers s)[i := c]) \<or> t < wq_next s \<or> involved (wq_callers s) t"
    if "involved ((wq_callers s)[i := c]) t" for t
    using involved_updateD [OF that] known [of t] c set_update_memI [OF i, of c] by auto
  have "Spawning t \<in> set ((wq_callers s)[i := c]) \<or> t \<in> wq_handles s \<or> t \<in> wq_aborted s"
    if "t < wq_next s \<or> involved ((wq_callers s)[i := c]) t" for t
    using that k [of t] h [of t] inv unfolding wait_inv_def by blast
  then show ?thesis
    using inv count ab inv' unfolding wait_inv_def waiters_def by simp blast
qed

lemma wait_inv_leave:
  assumes inv: "wait_inv bridge s" and i: "i < length (wq_callers s)" and w: "wq_callers s ! i = Waiting t"
  shows "wait_inv bridge (leave bridge s i t)"
proof -
  define c where "c = (if wq_count s t \<noteq> 1 \<or> bridge then Returned else Aborting t)"
  have eq: "leave bridge s i t =
      s\<lparr>wq_count := (wq_count s)(t := wq_count s t - 1), wq_callers := (wq_callers s)[i := c]\<rparr>"
    by (simp add: leave_def c_def Let_def)
  have pos: "0 < wq_count s t" using waiting_count [OF inv i w] .
  have count: "count_list ((wq_callers s)[i := c]) (Waiting u) = ((wq_count s)(t := wq_count s t - 1)) u" for u
    using count_list_update [OF i, of c "Waiting u"] inv w pos
    by (auto simp: wait_inv_def waiters_def c_def split: if_splits)
  have inv': "involved ((wq_callers s)[i := c]) u" if u: "involved (wq_callers s) u" and nb: "\<not> bridge" for u
  proof (cases "u = t \<and> c = Returned")
    case True
    then have "0 < count_list ((wq_callers s)[i := c]) (Waiting t)"
      using count [of t] pos nb by (simp add: c_def split: if_splits)
    then show ?thesis using True by (simp add: involved_def count_list_pos)
  next
    case False
    then show ?thesis using involved_update [OF u i, of c] w nb unfolding c_def by (cases "t = u") (auto split: if_splits)
  qed
  have ab: "bridge \<Longrightarrow> Aborting u \<notin> set ((wq_callers s)[i := c])" for u
    using inv set_update_subset_insert [of "wq_callers s" i c] by (auto simp: wait_inv_def c_def)
  have "Spawning u \<in> set ((wq_callers s)[i := c])" if "Spawning u \<in> set (wq_callers s)" for u
    using in_update [OF i _ that] w by simp
  moreover have "involved (wq_callers s) u" if "involved ((wq_callers s)[i := c]) u" for u
    using involved_updateD [OF that] nth_mem [OF i] w by (auto simp: c_def involved_def split: if_splits)
  ultimately have h: "Spawning u \<in> set ((wq_callers s)[i := c]) \<or> u \<in> wq_handles s \<or> u \<in> wq_aborted s"
    if "u < wq_next s \<or> involved ((wq_callers s)[i := c]) u" for u
    using that inv unfolding wait_inv_def by blast
  show ?thesis
    unfolding wait_inv_def waiters_def eq using count ab h inv' inv by (simp add: wait_inv_def) blast
qed

lemma wstep_inv [inv_intros]:
  assumes "wstep bridge s s'" "wait_inv bridge s"
  shows "wait_inv bridge s'"
  using assms
proof (induction rule: wstep.induct)
  case (join i s t)
  then show ?case by (intro wait_inv_move) (auto simp: wait_inv_def)
next
  case (spawn i s)
  then have "wait_inv bridge (s\<lparr>wq_callers := (wq_callers s)[i := Spawning (wq_next s)]\<rparr>)"
    by (intro wait_inv_move) auto
  moreover have "Spawning (wq_next s) \<in> set ((wq_callers s)[i := Spawning (wq_next s)])"
    using spawn.hyps by (simp add: set_update_memI)
  ultimately show ?case
    by (auto simp: wait_inv_def waiters_def involved_def less_Suc_eq)
next
  case (hand_over i s t)
  then have "wait_inv bridge (s\<lparr>wq_handles := insert t (wq_handles s)\<rparr>)"
    by (auto simp: wait_inv_def waiters_def)
  moreover have "involved (wq_callers s) t"
    using nth_mem [OF hand_over.hyps(1)] hand_over.hyps(2) by (simp add: involved_def)
  ultimately show ?case using wait_inv_move [of bridge "s\<lparr>wq_handles := insert t (wq_handles s)\<rparr>" i "Holding t"]
      hand_over.hyps by simp
next
  case (register i s t)
  have count: "count_list ((wq_callers s)[i := Waiting t]) (Waiting u) = ((wq_count s)(t := wq_count s t + 1)) u" for u
    using count_list_update [OF register.hyps(1), of "Waiting t" "Waiting u"] register.prems register.hyps
    by (auto simp: wait_inv_def waiters_def)
  have "involved ((wq_callers s)[i := Waiting t]) u" if "involved (wq_callers s) u" for u
    using involved_update [OF that register.hyps(1), of "Waiting t"] register.hyps by auto
  moreover have "Spawning u \<in> set ((wq_callers s)[i := Waiting t])" if "Spawning u \<in> set (wq_callers s)" for u
    using in_update [OF register.hyps(1) _ that] register.hyps(2) by simp
  moreover have "Aborting u \<in> set ((wq_callers s)[i := Waiting t]) \<Longrightarrow> Aborting u \<in> set (wq_callers s)" for u
    using set_update_subset_insert [of "wq_callers s" i "Waiting t"] by blast
  moreover have "involved (wq_callers s) u" if "involved ((wq_callers s)[i := Waiting t]) u" for u
    using involved_updateD [OF that] nth_mem [OF register.hyps(1)] register.hyps(2) by (auto simp: involved_def)
  ultimately show ?case
    using register.prems count unfolding wait_inv_def waiters_def by simp blast
next
  case (observe i s t)
  then show ?case by (intro wait_inv_leave)
next
  case (cancel i s t)
  then show ?case by (intro wait_inv_leave)
next
  case (abort i s t)
  then have nb: "\<not> bridge" using nth_mem [of i "wq_callers s"] by (auto simp: wait_inv_def)
  have inv: "wait_inv bridge (s\<lparr>wq_aborted := (if t \<in> wq_handles s then insert t (wq_aborted s) else wq_aborted s),
      wq_handles := wq_handles s - {t}\<rparr>)"
    using abort.prems nb by (auto simp: wait_inv_def waiters_def)
  have t: "Spawning t \<in> set (wq_callers s) \<or> t \<in> wq_handles s \<or> t \<in> wq_aborted s"
    using abort.prems nth_mem [OF abort.hyps(1)] abort.hyps(2) by (auto simp: wait_inv_def involved_def)
  let ?s = "s\<lparr>wq_aborted := (if t \<in> wq_handles s then insert t (wq_aborted s) else wq_aborted s),
      wq_handles := wq_handles s - {t}\<rparr>"
  have "wait_inv bridge (?s\<lparr>wq_callers := (wq_callers ?s)[i := Unlinking t]\<rparr>)"
    by (rule wait_inv_move [OF inv]) (use abort.hyps t in \<open>auto split: if_splits\<close>)
  then show ?case by (simp split del: if_split)
next
  case (unlinks i s t)
  then have "wait_inv bridge (s\<lparr>wq_callers := (wq_callers s)[i := Returned]\<rparr>)"
    by (intro wait_inv_move) auto
  then show ?case by (auto simp: wait_inv_def waiters_def unlink_def)
next
  case (publish t s)
  then show ?case by (simp add: wait_inv_def waiters_def)
next
  case (finish t s)
  then show ?case by (simp add: wait_inv_def waiters_def)
qed

lemma reaches_inv:
  assumes "reaches bridge (wait_start n) s"
  shows "wait_inv bridge s"
  using assms unfolding reaches_def
  by (induction rule: rtranclp_induct) (auto intro: wait_inv_start inv_intros)

text \<open>
  (C22) Without the bridge no background fetch is left behind: whenever nobody holds, waits for or
  is about to abort a task, the task has been aborted. With the bridge no task is ever aborted, so
  one that a caller waits for can still publish its result.
\<close>

theorem abandoned_task_is_aborted:
  assumes "reaches bridge (wait_start n) s" "t < wq_next s"
  shows "if bridge then wq_aborted s = {}
         else involved (wq_callers s) t \<or> t \<in> wq_aborted s"
  using reaches_inv [OF assms(1)] assms(2) by (simp add: wait_inv_def)

theorem abandoned_task_is_aborted_witness:
  "\<exists>s. reaches False (wait_start 1) s \<and> wq_next s = 1 \<and> 0 \<in> wq_aborted s"
proof -
  let ?s0 = "wait_start 1"
  let ?sp = "?s0\<lparr>wq_callers := [Spawning 0], wq_entry := Some 0, wq_next := 1\<rparr>"
  let ?s1 = "?sp\<lparr>wq_handles := {0}, wq_callers := [Holding 0]\<rparr>"
  let ?s2 = "?s1\<lparr>wq_callers := [Waiting 0], wq_count := (\<lambda>_. 0)(0 := 1)\<rparr>"
  let ?s3 = "leave False ?s2 0 0"
  let ?s4 = "?s3\<lparr>wq_aborted := {0}, wq_handles := {}, wq_callers := [Unlinking 0]\<rparr>"
  let ?s5 = "unlink ?s4 0 0"
  have "wstep False ?s0 ?sp" using wstep.spawn [of 0 ?s0 False] by (simp add: wait_start_def)
  moreover have "wstep False ?sp ?s1" using wstep.hand_over [of 0 ?sp 0 False] by (simp add: wait_start_def)
  moreover have "wstep False ?s1 ?s2" using wstep.register [of 0 ?s1 0 False] by (simp add: wait_start_def)
  moreover have "wstep False ?s2 ?s3" using wstep.cancel [of 0 ?s2 0 False] by (simp add: wait_start_def)
  moreover have "wstep False ?s3 ?s4" using wstep.abort [of 0 ?s3 0 False] by (simp add: wait_start_def leave_def)
  moreover have "wstep False ?s4 ?s5" using wstep.unlinks [of 0 ?s4 0 False] by (simp add: wait_start_def leave_def)
  ultimately have r: "reaches False ?s0 ?s5"
    unfolding reaches_def by (meson converse_rtranclp_into_rtranclp rtranclp.rtrancl_refl)
  have n: "wq_next ?s5 = 1" "wq_callers ?s5 = [Returned]" by (simp_all add: unlink_def leave_def wait_start_def)
  then have "0 \<in> wq_aborted ?s5"
    using abandoned_task_is_aborted [OF r, of 0] by (simp add: involved_def)
  then show ?thesis using r n by blast
qed

text \<open>
  A waiter is stranded when its task was aborted without a result: nothing but its own
  cancellation can end its wait.
\<close>

definition stranded :: "wait_sys \<Rightarrow> nat \<Rightarrow> bool" where
  "stranded s i \<longleftrightarrow> i < length (wq_callers s)
     \<and> (\<exists>t. wq_callers s ! i = Waiting t \<and> t \<in> wq_aborted s \<and> t \<notin> wq_published s)"

lemma stranded_stays:
  assumes "wstep bridge s s'" "stranded s i"
  shows "stranded s' i \<or> (\<exists>t. wq_callers s ! i = Waiting t \<and> s' = leave bridge s i t)"
  using assms
  by (induction rule: wstep.induct) (auto simp: stranded_def leave_def unlink_def nth_list_update Let_def)

text \<open>
  (C23) Without the bridge a waiter can be stranded: a caller that took the task from the table
  just before its last waiter left registers with a task that is then aborted unpublished.
\<close>

theorem waiter_can_be_stranded:
  "\<exists>s. reaches False (wait_start 2) s \<and> stranded s 1"
proof -
  let ?s0 = "wait_start 2"
  let ?sp = "?s0\<lparr>wq_callers := [Spawning 0, Arriving], wq_entry := Some 0, wq_next := 1\<rparr>"
  let ?s1 = "?sp\<lparr>wq_handles := {0}, wq_callers := [Holding 0, Arriving]\<rparr>"
  let ?s2 = "?s1\<lparr>wq_callers := [Waiting 0, Arriving], wq_count := (\<lambda>_. 0)(0 := 1)\<rparr>"
  let ?s3 = "?s2\<lparr>wq_callers := [Waiting 0, Holding 0]\<rparr>"
  let ?s4 = "leave False ?s3 0 0"
  let ?s5 = "?s4\<lparr>wq_callers := [Aborting 0, Waiting 0], wq_count := (\<lambda>_. 0)(0 := 1)\<rparr>"
  let ?s6 = "?s5\<lparr>wq_aborted := {0}, wq_handles := {}, wq_callers := [Unlinking 0, Waiting 0]\<rparr>"
  have r: "replicate 2 Arriving = [Arriving, Arriving]" by (simp add: numeral_2_eq_2)
  have "wstep False ?s0 ?sp" using wstep.spawn [of 0 ?s0 False] by (simp add: wait_start_def r)
  moreover have "wstep False ?sp ?s1" using wstep.hand_over [of 0 ?sp 0 False] by (simp add: wait_start_def r)
  moreover have "wstep False ?s1 ?s2" using wstep.register [of 0 ?s1 0 False] by (simp add: wait_start_def r)
  moreover have "wstep False ?s2 ?s3" using wstep.join [of 1 ?s2 0 False] by (simp add: wait_start_def r)
  moreover have "wstep False ?s3 ?s4" using wstep.cancel [of 0 ?s3 0 False] by (simp add: wait_start_def r)
  moreover have "wstep False ?s4 ?s5" using wstep.register [of 1 ?s4 0 False] by (simp add: wait_start_def r leave_def)
  moreover have "wstep False ?s5 ?s6" using wstep.abort [of 0 ?s5 0 False] by (simp add: wait_start_def r leave_def)
  ultimately have "reaches False ?s0 ?s6"
    unfolding reaches_def by (meson converse_rtranclp_into_rtranclp rtranclp.rtrancl_refl)
  moreover have "stranded ?s6 1" by (simp add: stranded_def leave_def wait_start_def)
  ultimately show ?thesis by blast
qed

end
