(* ===== verification/Block_Cache.thy ===== *)
theory Block_Cache
  imports Lru Messages Samples
begin

text \<open>
  \<^verbatim>\<open>src/upstream_block_cache.rs\<close>: remembering requests an upstream has refused for their content.
  The key is a hash of the canonical form of the body; an entry lives for a fixed time and at
  most a fixed number are kept. The hash (\<^verbatim>\<open>sha2\<close>, hex) and the LRU cache are parameters.
\<close>

record cached_block_response =
  cb_status :: status
  cb_upstream_status :: status
  cb_content_type :: string
  cb_body :: string
  cb_reason :: string

record stored_block_response =
  sb_response :: cached_block_response
  sb_expires_at :: nat

type_synonym 'l block_lru = "(string, stored_block_response, 'l) lru_api"

record 'l upstream_block_cache =
  ub_ttl :: nat
  ub_entries :: 'l

section \<open>Keys\<close>

text \<open>Objects are rebuilt with their keys in byte order.\<close>

fun canonicalize_json :: "json \<Rightarrow> json"
and canonicalize_fields :: "jobject \<Rightarrow> jobject"
and canonicalize_items :: "json list \<Rightarrow> json list" where
  "canonicalize_json (JArray items) = JArray (canonicalize_items items)"
| "canonicalize_json (JObject m) = JObject (sort_key fst (canonicalize_fields m))"
| "canonicalize_json v = v"
| "canonicalize_fields [] = []"
| "canonicalize_fields ((k, v) # m) = (k, canonicalize_json v) # canonicalize_fields m"
| "canonicalize_items [] = []"
| "canonicalize_items (x # xs) = canonicalize_json x # canonicalize_items xs"

definition block_cache_key :: "serde \<Rightarrow> (string \<Rightarrow> string) \<Rightarrow> string \<Rightarrow> string \<Rightarrow> json \<Rightarrow> string" where
  "block_cache_key S sha256_hex path upstream_base_url request_body =
     (let body_bytes = (case to_vec S (canonicalize_json request_body) of Ok b \<Rightarrow> b | Err _ \<Rightarrow> ''null'');
          body_hash = sha256_hex body_bytes
      in path @ [CHR 0x0A] @ upstream_base_url @ [CHR 0x0A] @ body_hash)"

section \<open>The cache\<close>

definition block_cache_new :: "'l block_lru \<Rightarrow> nat \<Rightarrow> nat \<Rightarrow> 'l upstream_block_cache option" where
  "block_cache_new L ttl max_entries =
     (if ttl = 0 \<or> max_entries = 0 then None
      else Some \<lparr>ub_ttl = ttl, ub_entries = lru_new L (Some max_entries)\<rparr>)"

definition block_cache_get ::
  "'l block_lru \<Rightarrow> 'l upstream_block_cache \<Rightarrow> nat \<Rightarrow> string
   \<Rightarrow> cached_block_response option \<times> 'l upstream_block_cache" where
  "block_cache_get L c now key =
     (case lru_get L key (ub_entries c) of
        (None, entries) \<Rightarrow> (None, c\<lparr>ub_entries := entries\<rparr>)
      | (Some entry, entries) \<Rightarrow>
          if sb_expires_at entry \<le> now
          then (None, c\<lparr>ub_entries := snd (lru_pop L key entries)\<rparr>)
          else (Some (sb_response entry), c\<lparr>ub_entries := entries\<rparr>))"

definition prune_expired_entries :: "'l block_lru \<Rightarrow> nat \<Rightarrow> 'l \<Rightarrow> 'l" where
  "prune_expired_entries L now entries =
     (let expired_keys = map fst (filter (\<lambda>(_, e). sb_expires_at e \<le> now) (lru_items L entries))
      in foldl (\<lambda>es key. snd (lru_pop L key es)) entries expired_keys)"

definition block_cache_insert ::
  "'l block_lru \<Rightarrow> 'l upstream_block_cache \<Rightarrow> nat \<Rightarrow> string \<Rightarrow> cached_block_response
   \<Rightarrow> 'l upstream_block_cache" where
  "block_cache_insert L c now key response =
     c\<lparr>ub_entries := lru_put L key \<lparr>sb_response = response, sb_expires_at = now + ub_ttl c\<rparr>
         (prune_expired_entries L now (ub_entries c))\<rparr>"

section \<open>Which errors are remembered\<close>

definition classify_blockable_upstream_error :: "status \<Rightarrow> string \<Rightarrow> string option" where
  "classify_blockable_upstream_error st body =
     (if st \<noteq> BAD_REQUEST \<and> st \<noteq> BAD_GATEWAY then None
      else
        (let text = to_lower (utf8_lossy body) in
         if contains_str text ''image_unsafe'' then Some ''image_unsafe''
         else if contains_str text ''upstream moderation triggered'' then Some ''upstream_moderation''
         else if contains_str text ''content blocked'' then Some ''content_blocked''
         else if contains_str text MSG_BLOCKED_KEYWORD then Some ''content_blocked''
         else None))"

section \<open>Canonical form\<close>

lemma canonicalize_fields_map: "canonicalize_fields m = map (\<lambda>(k, v). (k, canonicalize_json v)) m"
  by (induction m) auto

lemma canonicalize_items_map: "canonicalize_items xs = map canonicalize_json xs"
  by (induction xs) auto

lemma map_fst_canonicalize: "map fst (canonicalize_fields m) = map fst m"
  by (induction m) auto

lemma map_of_canonicalize: "map_of (canonicalize_fields m) k = map_option canonicalize_json (map_of m k)"
  by (induction m) auto

lemma distinct_keys_sort: "distinct (map fst m) \<Longrightarrow> distinct (map fst (sort_key fst m))"
  by (metis distinct_map distinct_sort set_sort)

lemma map_of_sort_key:
  fixes m :: "(string \<times> 'a) list"
  assumes d: "distinct (map fst m)"
  shows "map_of (sort_key fst m) k = map_of m k"
proof -
  have "map_of (sort_key fst m) k = Some v \<longleftrightarrow> map_of m k = Some v" for v
    using d distinct_keys_sort [OF d] by (simp add: map_of_eq_Some_iff)
  then show ?thesis by (metis not_None_eq)
qed

lemma sort_key_unique:
  fixes m n :: "(string \<times> 'a) list"
  assumes m: "distinct (map fst m)" and n: "distinct (map fst n)" and eq: "map_of m = map_of n"
  shows "sort_key fst m = sort_key fst n"
proof -
  have s: "set m = set n"
  proof (rule set_eqI)
    fix e
    show "e \<in> set m \<longleftrightarrow> e \<in> set n"
      using map_of_eq_Some_iff [OF m, of "fst e" "snd e"] map_of_eq_Some_iff [OF n, of "fst e" "snd e"] eq
      by (simp only: prod.collapse)
  qed
  have "inj_on fst (set m)" using m by (simp add: distinct_map)
  moreover have "distinct (map fst (sort_key fst m))" "distinct (map fst (sort_key fst n))"
    using m n by (simp_all add: distinct_keys_sort)
  ultimately show ?thesis
    by (intro map_sorted_distinct_set_unique [where f = fst]) (auto simp: s)
qed

text \<open>Two well-formed values have the same canonical form iff only the order of keys differs.\<close>

lemma canonicalize_cong:
  "json_wf v \<Longrightarrow> json_wf w \<Longrightarrow> json_abs v = json_abs w \<Longrightarrow> canonicalize_json v = canonicalize_json w"
proof (induction v arbitrary: w rule: json_induct)
  case (JArray xs)
  then obtain ys where w: "w = JArray ys" and eq: "map json_abs xs = map json_abs ys"
    by (cases w) (auto simp: items_abs_map)
  have "map canonicalize_json xs = map canonicalize_json ys"
  proof (rule nth_equalityI)
    show l: "length (map canonicalize_json xs) = length (map canonicalize_json ys)"
      using map_eq_imp_length_eq [OF eq] by simp
    fix i assume "i < length (map canonicalize_json xs)"
    then have i: "i < length xs" "i < length ys" using l by auto
    have "json_abs (xs ! i) = json_abs (ys ! i)" using eq i by (metis nth_map)
    with i JArray w show "map canonicalize_json xs ! i = map canonicalize_json ys ! i"
      by (auto simp: items_wf_iff)
  qed
  with w show ?case by (simp add: canonicalize_items_map)
next
  case (JObject m)
  then obtain n where w: "w = JObject n" and eq: "map_of (fields_abs m) = map_of (fields_abs n)"
    by (cases w) auto
  have d: "distinct (map fst m)" "distinct (map fst n)" using JObject.prems(1,2) by (auto simp: w)
  have "map_of (canonicalize_fields m) k = map_of (canonicalize_fields n) k" for k
  proof -
    have o: "map_option json_abs (map_of m k) = map_option json_abs (map_of n k)"
      using eq by (metis map_of_fields_abs)
    show ?thesis
    proof (cases "map_of m k")
      case None
      with o show ?thesis by (simp add: map_of_canonicalize)
    next
      case (Some x)
      with o obtain y where y: "map_of n k = Some y" "json_abs x = json_abs y"
        by (cases "map_of n k") auto
      have "json_wf x" "json_wf y"
        using JObject.prems(1,2) map_of_SomeD [OF Some] map_of_SomeD [OF y(1)]
        by (auto simp: fields_wf_iff w)
      from JObject.IH [OF map_of_SomeD [OF Some] this y(2)] show ?thesis
        by (simp add: map_of_canonicalize y(1) Some)
    qed
  qed
  then have "sort_key fst (canonicalize_fields m) = sort_key fst (canonicalize_fields n)"
    using d by (intro sort_key_unique) (auto simp: map_fst_canonicalize)
  with w show ?case by simp
next
  case JNull
  then show ?case by (cases w) auto
next
  case (JBool b)
  then show ?case by (cases w) auto
next
  case (JNumber n)
  then show ?case by (cases w) auto
next
  case (JString s)
  then show ?case by (cases w) auto
qed

lemma json_abs_canonicalize: "json_wf v \<Longrightarrow> json_abs (canonicalize_json v) = json_abs v"
proof (induction v rule: json_induct)
  case (JArray xs)
  then show ?case by (simp add: canonicalize_items_map items_abs_map items_wf_iff)
next
  case (JObject m)
  have d: "distinct (map fst (canonicalize_fields m))" using JObject by (simp add: map_fst_canonicalize)
  have "map_of (fields_abs (sort_key fst (canonicalize_fields m))) k = map_of (fields_abs m) k" for k
  proof (cases "map_of m k")
    case None
    then show ?thesis by (simp add: map_of_fields_abs map_of_sort_key [OF d] map_of_canonicalize)
  next
    case (Some x)
    have "json_wf x" using JObject.prems map_of_SomeD [OF Some] by (auto simp: fields_wf_iff)
    with JObject.IH [OF map_of_SomeD [OF Some]] Some show ?thesis
      by (simp add: map_of_fields_abs map_of_sort_key [OF d] map_of_canonicalize)
  qed
  then show ?case by (simp add: fun_eq_iff)
qed simp_all

lemma canonicalize_eq_iff:
  "json_wf v \<Longrightarrow> json_wf w \<Longrightarrow> canonicalize_json v = canonicalize_json w \<longleftrightarrow> json_abs v = json_abs w"
  by (metis canonicalize_cong json_abs_canonicalize)

section \<open>Entries are never stale\<close>

datatype block_op = BlockGet nat string | BlockInsert nat string cached_block_response

fun block_run_op :: "'l block_lru \<Rightarrow> block_op \<Rightarrow> 'l upstream_block_cache \<Rightarrow> 'l upstream_block_cache" where
  "block_run_op L (BlockGet now key) c = snd (block_cache_get L c now key)"
| "block_run_op L (BlockInsert now key r) c = block_cache_insert L c now key r"

definition block_run :: "'l block_lru \<Rightarrow> nat \<Rightarrow> nat \<Rightarrow> block_op list \<Rightarrow> 'l upstream_block_cache option" where
  "block_run L ttl max_entries ops =
     map_option (\<lambda>c. foldl (\<lambda>c op. block_run_op L op c) c ops) (block_cache_new L ttl max_entries)"

text \<open>The latest insertion of each key in a history, with its time.\<close>

fun note_insert :: "block_op \<Rightarrow> (string \<Rightarrow> (nat \<times> cached_block_response) option)
   \<Rightarrow> (string \<Rightarrow> (nat \<times> cached_block_response) option)" where
  "note_insert (BlockGet now key) latest = latest"
| "note_insert (BlockInsert now key r) latest = latest(key \<mapsto> (now, r))"

definition latest_inserts :: "block_op list \<Rightarrow> string \<Rightarrow> (nat \<times> cached_block_response) option" where
  "latest_inserts ops = foldl (\<lambda>l op. note_insert op l) (\<lambda>_. None) ops"

definition block_ok ::
  "'l block_lru \<Rightarrow> (string \<Rightarrow> (nat \<times> cached_block_response) option) \<Rightarrow> nat \<Rightarrow> nat
   \<Rightarrow> 'l upstream_block_cache \<Rightarrow> bool" where
  "block_ok L latest ttl max_entries c \<longleftrightarrow>
     lru_valid L (ub_entries c) \<and> lru_capacity L (ub_entries c) = Some max_entries \<and> 0 < max_entries
     \<and> ub_ttl c = ttl
     \<and> (\<forall>k e. map_of (lru_items L (ub_entries c)) k = Some e \<longrightarrow>
          (\<exists>t. latest k = Some (t, sb_response e) \<and> sb_expires_at e = t + ttl))"

locale block_lru = lru_cache L for L :: "(string, stored_block_response, 'l) lru_api"
begin

lemma pop_block_ok:
  assumes "block_ok L latest ttl n c"
  shows "block_ok L latest ttl n (c\<lparr>ub_entries := snd (lru_pop L key (ub_entries c))\<rparr>)"
proof -
  obtain r l' where p: "lru_pop L key (ub_entries c) = (r, l')" by (cases "lru_pop L key (ub_entries c)")
  from assms have "lru_valid L (ub_entries c)" by (simp add: block_ok_def)
  from pop [OF this p] assms p show ?thesis by (auto simp: block_ok_def map_of_without)
qed

lemma prune_block_ok:
  assumes "block_ok L latest ttl n c"
  shows "block_ok L latest ttl n (c\<lparr>ub_entries := prune_expired_entries L now (ub_entries c)\<rparr>)"
proof -
  have "block_ok L latest ttl n (c\<lparr>ub_entries := foldl (\<lambda>es key. snd (lru_pop L key es)) (ub_entries c) ks\<rparr>)" for ks
    using assms
  proof (induction ks arbitrary: c)
    case Nil
    then show ?case by simp
  next
    case (Cons k ks)
    from Cons.IH [OF pop_block_ok [OF Cons.prems]] show ?case by simp
  qed
  then show ?thesis by (simp add: prune_expired_entries_def Let_def)
qed

lemma get_block_ok:
  assumes ok: "block_ok L latest ttl n c"
  shows "block_ok L latest ttl n (snd (block_cache_get L c now key))"
    and "fst (block_cache_get L c now key) = Some r \<Longrightarrow> \<exists>t. latest key = Some (t, r) \<and> now < t + ttl"
proof -
  have v: "lru_valid L (ub_entries c)" using ok by (simp add: block_ok_def)
  obtain e l' where g: "lru_get L key (ub_entries c) = (e, l')" by (cases "lru_get L key (ub_entries c)")
  note st = lru_cache.get [OF lru_cache_axioms v g]
  have ok': "block_ok L latest ttl n (c\<lparr>ub_entries := l'\<rparr>)"
    using ok st get_content [OF v g] by (auto simp: block_ok_def)
  show "block_ok L latest ttl n (snd (block_cache_get L c now key))"
    using ok' pop_block_ok [OF ok', of key] g
    by (auto simp: block_cache_get_def split: option.splits)
  show "\<exists>t. latest key = Some (t, r) \<and> now < t + ttl" if "fst (block_cache_get L c now key) = Some r"
  proof -
    from that g obtain x where x: "e = Some x" "\<not> sb_expires_at x \<le> now" "r = sb_response x"
      by (auto simp: block_cache_get_def split: option.splits if_splits)
    with st ok have "\<exists>t. latest key = Some (t, sb_response x) \<and> sb_expires_at x = t + ttl"
      by (auto simp: block_ok_def)
    with x show ?thesis by auto
  qed
qed

lemma insert_block_ok:
  assumes ok: "block_ok L latest ttl n c"
  shows "block_ok L (latest(key \<mapsto> (now, r))) ttl n (block_cache_insert L c now key r)"
proof -
  let ?c = "c\<lparr>ub_entries := prune_expired_entries L now (ub_entries c)\<rparr>"
  have p: "block_ok L latest ttl n ?c" by (rule prune_block_ok [OF ok])
  then have v: "lru_valid L (ub_entries ?c)" "lru_capacity L (ub_entries ?c) \<noteq> Some 0"
    by (auto simp: block_ok_def)
  let ?e = "\<lparr>sb_response = r, sb_expires_at = now + ub_ttl c\<rparr>"
  have "\<exists>t. (latest(key \<mapsto> (now, r))) k = Some (t, sb_response e) \<and> sb_expires_at e = t + ttl"
    if "map_of (lru_items L (lru_put L key ?e (ub_entries ?c))) k = Some e" for k e
    using put_content [OF v that] p by (cases "k = key") (auto simp: block_ok_def)
  with p put [OF v, of key ?e] show ?thesis
    by (simp add: block_ok_def block_cache_insert_def)
qed

lemma block_new_ok: "block_cache_new L ttl n = Some c \<Longrightarrow> block_ok L (\<lambda>_. None) ttl n c"
  using new [of "Some n"] by (auto simp: block_cache_new_def block_ok_def split: if_splits)

lemma block_run_ok:
  "block_run L ttl n ops = Some c \<Longrightarrow> block_ok L (latest_inserts ops) ttl n c"
proof -
  have step: "block_ok L (note_insert op latest) ttl n (block_run_op L op c)"
    if "block_ok L latest ttl n c" for op latest c
    using that by (cases op) (auto intro: get_block_ok insert_block_ok)
  have "block_ok L (foldl (\<lambda>l op. note_insert op l) latest ops) ttl n (foldl (\<lambda>c op. block_run_op L op c) c ops)"
    if "block_ok L latest ttl n c" for latest c
    using that by (induction ops arbitrary: latest c) (auto intro: step)
  moreover note block_new_ok
  ultimately show "block_run L ttl n ops = Some c \<Longrightarrow> block_ok L (latest_inserts ops) ttl n c"
    by (auto simp: block_run_def latest_inserts_def)
qed

end

interpretation list_block: block_lru lru_list
  by unfold_locales

section \<open>Properties\<close>

text \<open>
  (C28) Two requests have the same key text before hashing exactly when they are the same JSON value
  up to the order of object keys: the canonical form neither merges different requests nor
  separates reordered ones.
\<close>

theorem canonical_form_ignores_key_order_only:
  assumes "json_wf v" "json_wf w"
  shows "canonicalize_json v = canonicalize_json w \<longleftrightarrow> json_abs v = json_abs w"
  by (rule canonicalize_eq_iff [OF assms])

lemma canonical_form_ignores_key_order_only_witness:
  "canonicalize_json (JObject [(''b'', JNull), (''a'', JArray [JObject [(''y'', JNull), (''x'', JBool True)]])])
   = canonicalize_json (JObject [(''a'', JArray [JObject [(''x'', JBool True), (''y'', JNull)]]), (''b'', JNull)])"
  by (subst canonical_form_ignores_key_order_only) (auto simp: u64_max_def fun_eq_iff)

text \<open>
  (C27) Whatever sequence of lookups and insertions has run, at whatever times: a hit is the response
  most recently inserted under that key and was inserted less than the time to live ago, and the
  cache never holds more than its capacity.
\<close>

theorem block_cache_hits_are_fresh:
  assumes "block_lru L" "block_run L ttl max_entries ops = Some c"
    and "fst (block_cache_get L c now key) = Some r"
  shows "\<exists>t. latest_inserts ops key = Some (t, r) \<and> now < t + ttl
    \<and> length (lru_items L (ub_entries c)) \<le> max_entries"
proof -
  have ok: "block_ok L (latest_inserts ops) ttl max_entries c"
    by (rule block_lru.block_run_ok [OF assms(1,2)])
  have l: "lru_cache L" using assms(1) by (simp add: block_lru_def)
  show ?thesis
    using block_lru.get_block_ok(2) [OF assms(1) ok assms(3)] lru_cache.valid [OF l, of "ub_entries c"] ok
    by (auto simp: block_ok_def)
qed

definition sample_block :: cached_block_response where
  "sample_block =
     \<lparr>cb_status = 451, cb_upstream_status = 400, cb_content_type = ''application/json'', cb_body = ''{}'',
      cb_reason = ''image_unsafe''\<rparr>"

lemma block_cache_hits_are_fresh_witness:
  "\<exists>c t. block_run lru_list 10 2 [BlockInsert 5 ''k'' sample_block, BlockGet 7 ''k''] = Some c
     \<and> latest_inserts [BlockInsert 5 ''k'' sample_block, BlockGet 7 ''k''] ''k'' = Some (t, sample_block)
     \<and> 14 < t + (10 :: nat)"
proof -
  let ?ops = "[BlockInsert 5 ''k'' sample_block, BlockGet 7 ''k'']"
  obtain c where c: "block_run lru_list 10 2 ?ops = Some c"
    by (simp add: block_run_def block_cache_new_def)
  have "fst (block_cache_get lru_list c 14 ''k'') = Some sample_block"
    using c by (auto simp: block_run_def block_cache_new_def block_cache_insert_def block_cache_get_def
        prune_expired_entries_def lru_list_def take_capacity_def without_def)
  from block_cache_hits_are_fresh [OF list_block.block_lru_axioms c this] c show ?thesis by blast
qed

end
