(* ===== verification/Request_Materialize.thy ===== *)
theory Request_Materialize
  imports Request_Encode Fetch_Service
begin

text \<open>
  \<^verbatim>\<open>src/request_materialize.rs\<close>: every distinct image URL of a request is fetched once, by one
  task each, its bytes go into the blob store, and every reference is paired with the blob of its
  URL. Tasks end in any order; the order is part of the environment, and so are the answers they
  get. The work durations the code measures are not modelled.
\<close>

section \<open>State and environment\<close>

record request_materialize_services =
  ms_max_image_bytes :: nat
  ms_allow_private_networks :: bool
  ms_enable_webp_optimization :: bool
  ms_fetch_service :: "fetch_service option"
  ms_cache_observer :: bool

text \<open>The state tasks share: the fetch service's, the blob store, and what the observer was told.\<close>

record 'l work_state =
  wk_service :: "'l fetch_state"
  wk_runtime :: blob_runtime
  wk_observed :: "(string \<times> bool) list"

text \<open>
  \<open>mv_order\<close> is the order in which the tasks for the given URLs end, \<open>mv_late\<close> says which of the
  tasks not joined when an error ends the call had already stored their image.
\<close>

record ('u, 'l, 'i) materialize_env =
  mv_url :: "'u url_api"
  mv_get :: "'u http_get"
  mv_images :: "'i image_api"
  mv_join_error :: "string \<Rightarrow> string option"
  mv_webp_elapses :: "string \<Rightarrow> bool"
  mv_lru :: "'l memory_lru"
  mv_disk :: disk_env
  mv_interfere :: "string \<Rightarrow> 'l fetch_state \<Rightarrow> 'l fetch_state"
  mv_view :: "string \<Rightarrow> nat \<Rightarrow> task_view"
  mv_direct :: "string \<Rightarrow> fetched_inline_data fallible"
  mv_store_io :: "string \<Rightarrow> fault_schedule"
  mv_order :: "string list \<Rightarrow> string list"
  mv_late :: "string \<Rightarrow> bool"

record materialized_request_images =
  mr_request :: json
  mr_replacements :: "request_replacement list"

section \<open>One image\<close>

text \<open>
  The first half of \<^verbatim>\<open>fetch_request_image\<close>: the image and whether it came from a cache. No outcome
  means that the fetch service never answers.
\<close>

definition obtain_image ::
  "('u, 'l, 'i) materialize_env \<Rightarrow> request_materialize_services \<Rightarrow> string \<Rightarrow> 'l work_state
   \<Rightarrow> fetch_result fallible option \<times> 'l work_state" where
  "obtain_image E sv url st =
     (case ms_fetch_service sv of
        Some fs \<Rightarrow>
          (case fetch (mv_lru E) (mv_disk E) fs (mv_interfere E url) (mv_view E url) (mv_direct E url)
              (wk_service st) url of
             (None, s) \<Rightarrow> (None, st\<lparr>wk_service := s\<rparr>)
           | (Some (Err e), s) \<Rightarrow> (Some (Err e), st\<lparr>wk_service := s\<rparr>)
           | (Some (Ok f), s) \<Rightarrow>
               (Some (Ok f),
                st\<lparr>wk_service := s,
                   wk_observed := wk_observed st
                     @ (if ms_cache_observer sv then [(url, fr_from_cache f)] else [])\<rparr>))
      | None \<Rightarrow>
          (Some (case fetch_image_as_inline_data_with_options (mv_url E) (mv_get E) url
                (ms_max_image_bytes sv) (ms_allow_private_networks sv) of
             Err e \<Rightarrow> Err e
           | Ok fetched \<Rightarrow>
               map_sum id (\<lambda>f. \<lparr>fr_mime_type = fi_mime_type f, fr_bytes = fi_bytes f, fr_from_cache = False\<rparr>)
                 (if ms_enable_webp_optimization sv
                  then maybe_convert_large_png_to_lossless_webp_with_timeout (mv_images E)
                         (mv_join_error E url) fetched REQUEST_PNG_WEBP_OPTIMIZATION_TIMEOUT
                         (mv_webp_elapses E url)
                  else Ok fetched)), st))"

definition store_image ::
  "fault_schedule \<Rightarrow> fetch_result \<Rightarrow> blob_runtime \<Rightarrow> blob_handle fallible \<times> blob_runtime" where
  "store_image io f rt =
     (case (if fr_from_cache f then store_external_shared_bytes rt (fr_bytes f) (fr_mime_type f)
            else store_shared_bytes rt io (fr_bytes f) (fr_mime_type f)) of
        (r, rt') \<Rightarrow> (lift_blob_error r, rt'))"

definition fetch_request_image ::
  "('u, 'l, 'i) materialize_env \<Rightarrow> request_materialize_services \<Rightarrow> string \<Rightarrow> 'l work_state
   \<Rightarrow> (string \<times> fetched_blob) fallible option \<times> 'l work_state" where
  "fetch_request_image E sv url st =
     (case obtain_image E sv url st of
        (None, st) \<Rightarrow> (None, st)
      | (Some (Err e), st) \<Rightarrow> (Some (Err e), st)
      | (Some (Ok f), st) \<Rightarrow>
          (case store_image (mv_store_io E url) f (wk_runtime st) of
             (Err e, rt) \<Rightarrow> (Some (Err e), st\<lparr>wk_runtime := rt\<rparr>)
           | (Ok blob, rt) \<Rightarrow>
               (Some (Ok (url, \<lparr>fb_mime_type = fr_mime_type f, fb_blob = blob\<rparr>)),
                st\<lparr>wk_runtime := rt\<rparr>)))"

section \<open>All images\<close>

text \<open>\<^verbatim>\<open>unique_urls\<close>: first occurrences, in order.\<close>

fun unique_urls :: "string list \<Rightarrow> string set \<Rightarrow> string list" where
  "unique_urls [] seen = []"
| "unique_urls (u # us) seen = (if u \<in> seen then unique_urls us seen else u # unique_urls us (insert u seen))"

text \<open>The tasks that still ran when the set of tasks was dropped.\<close>

definition run_late ::
  "('u, 'l, 'i) materialize_env \<Rightarrow> request_materialize_services \<Rightarrow> string list \<Rightarrow> 'l work_state \<Rightarrow> 'l work_state" where
  "run_late E sv urls st =
     foldl (\<lambda>st url. snd (fetch_request_image E sv url st)) st (filter (mv_late E) urls)"

text \<open>The \<^verbatim>\<open>join_next\<close> loop over the tasks in the order they end.\<close>

fun join_tasks ::
  "('u, 'l, 'i) materialize_env \<Rightarrow> request_materialize_services \<Rightarrow> string list
   \<Rightarrow> (string \<Rightarrow> fetched_blob option) \<Rightarrow> bool \<Rightarrow> 'l work_state
   \<Rightarrow> (string \<Rightarrow> fetched_blob option) fallible option \<times> 'l work_state" where
  "join_tasks E sv [] fetched hangs st = (if hangs then None else Some (Ok fetched), st)"
| "join_tasks E sv (url # urls) fetched hangs st =
     (case fetch_request_image E sv url st of
        (None, st) \<Rightarrow> join_tasks E sv urls fetched True st
      | (Some (Err e), st) \<Rightarrow> (Some (Err e), run_late E sv urls st)
      | (Some (Ok (u, fb)), st) \<Rightarrow> join_tasks E sv urls (fetched(u \<mapsto> fb)) hangs st)"

definition replacement_for ::
  "(string \<Rightarrow> fetched_blob option) \<Rightarrow> image_ref \<Rightarrow> request_replacement fallible" where
  "replacement_for fetched_by_url r =
     (case fetched_by_url (ir_url r) of
        None \<Rightarrow> Err (Message (''missing fetched blob for '' @ ir_url r))
      | Some f \<Rightarrow>
          Ok \<lparr>rr_json_pointer = ir_json_pointer r, rr_mime_type = fb_mime_type f, rr_blob = fb_blob f\<rparr>)"

definition materialize_request_images_with_services ::
  "('u, 'l, 'i) materialize_env \<Rightarrow> request_materialize_services \<Rightarrow> json \<Rightarrow> 'l work_state
   \<Rightarrow> materialized_request_images fallible option \<times> 'l work_state" where
  "materialize_request_images_with_services E sv request st =
     (case scan_request_image_urls request of
        Err e \<Rightarrow> (Some (Err e), st)
      | Ok refs \<Rightarrow>
          (case join_tasks E sv (mv_order E (unique_urls (map ir_url refs) {})) Map.empty False st of
             (None, st) \<Rightarrow> (None, st)
           | (Some (Err e), st) \<Rightarrow> (Some (Err e), st)
           | (Some (Ok fetched_by_url), st) \<Rightarrow>
               (Some (case collect_results (replacement_for fetched_by_url) refs of
                   Err e \<Rightarrow> Err e
                 | Ok replacements \<Rightarrow> Ok \<lparr>mr_request = request, mr_replacements = replacements\<rparr>), st)))"

definition materialize_request_images ::
  "('u, 'l, 'i) materialize_env \<Rightarrow> json \<Rightarrow> 'l work_state
   \<Rightarrow> materialized_request_images fallible option \<times> 'l work_state" where
  "materialize_request_images E request st =
     materialize_request_images_with_services E
       \<lparr>ms_max_image_bytes = REQUEST_MAX_IMAGE_BYTES, ms_allow_private_networks = True,
        ms_enable_webp_optimization = False, ms_fetch_service = None, ms_cache_observer = False\<rparr>
       request st"

section \<open>Unique URLs\<close>

lemma set_unique_urls: "set (unique_urls us seen) = set us - seen"
  by (induction us seen rule: unique_urls.induct) auto

lemma distinct_unique_urls: "distinct (unique_urls us seen)"
  by (induction us seen rule: unique_urls.induct) (auto simp: set_unique_urls)

section \<open>What the tasks leave in the store\<close>

text \<open>The image the fetch of a URL delivered, in some state.\<close>

definition obtained ::
  "('u, 'l, 'i) materialize_env \<Rightarrow> request_materialize_services \<Rightarrow> string \<Rightarrow> fetch_result \<Rightarrow> bool" where
  "obtained E sv url f \<longleftrightarrow> (\<exists>st. fst (obtain_image E sv url st) = Some (Ok f))"

definition images_small :: "('u, 'l, 'i) materialize_env \<Rightarrow> request_materialize_services \<Rightarrow> bool" where
  "images_small E sv \<longleftrightarrow> (\<forall>url f. obtained E sv url f \<longrightarrow> length (fr_bytes f) < 2 ^ 64)"

lemma obtain_image_runtime: "wk_runtime (snd (obtain_image E sv url st)) = wk_runtime st"
  by (auto simp: obtain_image_def split: option.splits prod.splits sum.splits)

lemma store_image_stored:
  assumes "store_image io f rt = (r, rt')" "length (fr_bytes f) < 2 ^ 64"
  shows "case r of Ok blob \<Rightarrow> stored_as rt rt' blob (fr_bytes f) | Err _ \<Rightarrow> store_failed rt rt'"
proof -
  let ?store = "if fr_from_cache f then store_external_shared_bytes rt (fr_bytes f) (fr_mime_type f)
            else store_shared_bytes rt io (fr_bytes f) (fr_mime_type f)"
  obtain q where st: "?store = (q, rt')" and r: "r = lift_blob_error q"
    using assms(1) by (auto simp: store_image_def split: prod.splits)
  show ?thesis
  proof (cases q)
    case (Inl e)
    with st have "store_failed rt rt'"
      by (auto simp: store_shared_eq store_external_not_Err dest: store_bytes_Err split: if_splits)
    with Inl r show ?thesis by (simp add: lift_blob_error_def)
  next
    case (Inr h)
    with st have "stored_as rt rt' h (fr_bytes f)"
      using assms(2) by (auto simp: store_shared_eq dest: store_bytes_Ok store_external_Ok split: if_splits)
    with Inr r show ?thesis by (simp add: lift_blob_error_def)
  qed
qed

text \<open>The map from URLs to blobs agrees with what was obtained and with the store.\<close>

definition blobs_of :: "(string \<Rightarrow> fetched_blob option) \<Rightarrow> blob_handle set" where
  "blobs_of M = fb_blob ` ran M"

definition fetched_ok ::
  "('u, 'l, 'i) materialize_env \<Rightarrow> request_materialize_services \<Rightarrow> blob_runtime
   \<Rightarrow> (string \<Rightarrow> fetched_blob option) \<Rightarrow> bool" where
  "fetched_ok E sv rt M \<longleftrightarrow>
     (\<forall>url fb. M url = Some fb \<longrightarrow>
        (\<exists>f. obtained E sv url f \<and> fb_mime_type fb = fr_mime_type f
             \<and> blob_content rt (fb_blob fb) = Some (fr_bytes f)))"

text \<open>From \<open>rt\<close> to \<open>rt'\<close> the store gained the blobs \<open>L\<close>; the blobs \<open>H\<close> it held are as before.\<close>

definition gained :: "blob_runtime \<Rightarrow> blob_runtime \<Rightarrow> blob_handle set \<Rightarrow> blob_handle set \<Rightarrow> bool" where
  "gained rt rt' H L \<longleftrightarrow>
     H \<inter> L = {} \<and> blob_inv rt' (H \<union> L) \<and> (\<forall>g \<in> H. blob_content rt' g = blob_content rt g)"

lemma gained_refl: "blob_inv rt H \<Longrightarrow> gained rt rt H {}"
  by (simp add: gained_def)

lemma gained_trans:
  "gained rt rt1 H L \<Longrightarrow> gained rt1 rt2 (H \<union> L) L' \<Longrightarrow> gained rt rt2 H (L \<union> L')"
  by (auto simp: gained_def Un_assoc)

lemma fetch_request_image_gains:
  assumes run: "fetch_request_image E sv url st = (r, st')"
    and inv: "blob_inv (wk_runtime st) H" and room: "ids_left (Suc n) (wk_runtime st)"
    and small: "images_small E sv"
  shows "ids_left n (wk_runtime st')
    \<and> (case r of
         Some (Ok (u, fb)) \<Rightarrow> u = url \<and> gained (wk_runtime st) (wk_runtime st') H {fb_blob fb}
           \<and> fetched_ok E sv (wk_runtime st') [url \<mapsto> fb]
       | _ \<Rightarrow> gained (wk_runtime st) (wk_runtime st') H {})"
proof -
  obtain o' st1 where ob: "obtain_image E sv url st = (o', st1)" by (cases "obtain_image E sv url st")
  have rt1: "wk_runtime st1 = wk_runtime st" using obtain_image_runtime [of E sv url st] ob by simp
  have room1: "ids_left 1 (wk_runtime st)" and roomn: "ids_left n (wk_runtime st)"
    using room by (auto intro: ids_left_mono)
  consider (no) "o' = None" | (err) e where "o' = Some (Err e)" | (ok) f where "o' = Some (Ok f)"
    by (metis obj_sumE option.exhaust)
  then show ?thesis
  proof cases
    case ok
    have f: "obtained E sv url f" using ob ok by (auto simp: obtained_def intro!: exI [of _ st])
    with small have sm: "length (fr_bytes f) < 2 ^ 64" by (auto simp: images_small_def)
    obtain s rt where st: "store_image (mv_store_io E url) f (wk_runtime st) = (s, rt)"
      by (cases "store_image (mv_store_io E url) f (wk_runtime st)")
    note stored = store_image_stored [OF st sm]
    show ?thesis
    proof (cases s)
      case (Inl e)
      then have "store_failed (wk_runtime st) rt" using stored by simp
      with store_failed_inv [OF inv this room1] ids_left_next [OF room, of rt] run ob ok st Inl rt1 show ?thesis
        by (auto simp: fetch_request_image_def gained_def store_failed_def)
    next
      case (Inr blob)
      then have as: "stored_as (wk_runtime st) rt blob (fr_bytes f)" using stored by simp
      from stored_as_inv [OF inv as sm room1] ids_left_next [OF room, of rt] as [unfolded stored_as_def]
        run ob ok st Inr rt1 f
      show ?thesis by (auto simp: fetch_request_image_def gained_def fetched_ok_def)
    qed
  qed (use run ob rt1 roomn inv in \<open>auto simp: fetch_request_image_def gained_refl\<close>)
qed

lemma fetched_ok_keep:
  assumes "fetched_ok E sv rt M" "gained rt rt' H L" "blobs_of M \<subseteq> H"
  shows "fetched_ok E sv rt' M"
  using assms unfolding fetched_ok_def gained_def blobs_of_def by (metis image_eqI ranI subsetD)

lemma fetched_ok_add:
  "fetched_ok E sv rt M \<Longrightarrow> fetched_ok E sv rt [u \<mapsto> fb] \<Longrightarrow> fetched_ok E sv rt (M(u \<mapsto> fb))"
  by (auto simp: fetched_ok_def)

lemma blobs_of_add: "M u = None \<Longrightarrow> blobs_of (M(u \<mapsto> fb)) = insert (fb_blob fb) (blobs_of M)"
  by (simp add: blobs_of_def)

lemma run_late_gains:
  assumes "blob_inv (wk_runtime st) H" "ids_left (length urls) (wk_runtime st)" "images_small E sv"
  shows "\<exists>L. gained (wk_runtime st) (wk_runtime (run_late E sv urls st)) H L"
proof -
  have "\<exists>L. gained (wk_runtime st) (wk_runtime (foldl (\<lambda>st url. snd (fetch_request_image E sv url st)) st us)) H L"
    if "ids_left (length us) (wk_runtime st)" "blob_inv (wk_runtime st) H" for us st H
    using that
  proof (induction us arbitrary: st H)
    case Nil
    then show ?case by (auto intro: gained_refl)
  next
    case (Cons u us)
    obtain r st1 where f: "fetch_request_image E sv u st = (r, st1)" by (cases "fetch_request_image E sv u st")
    have room: "ids_left (Suc (length us)) (wk_runtime st)" using Cons.prems(1) by simp
    note g = fetch_request_image_gains [OF f Cons.prems(2) room assms(3)]
    then obtain L1 where L1: "gained (wk_runtime st) (wk_runtime st1) H L1"
      by (auto split: option.splits sum.splits)
    then have "blob_inv (wk_runtime st1) (H \<union> L1)" by (simp add: gained_def)
    from Cons.IH [OF _ this] g obtain L2 where
      "gained (wk_runtime st1) (wk_runtime (foldl (\<lambda>st url. snd (fetch_request_image E sv url st)) st1 us)) (H \<union> L1) L2"
      by blast
    from gained_trans [OF L1 this] f show ?case by auto
  qed
  moreover have "ids_left (length (filter (mv_late E) urls)) (wk_runtime st)"
    using assms(2) by (rule ids_left_mono) simp
  ultimately show ?thesis using assms(1) unfolding run_late_def by blast
qed

lemma join_tasks_gains:
  assumes "join_tasks E sv urls M hangs st = (r, st')"
    and "blob_inv (wk_runtime st) H" "blobs_of M \<subseteq> H" "fetched_ok E sv (wk_runtime st) M"
    and "ids_left (length urls + n) (wk_runtime st)" "images_small E sv"
    and "distinct urls" "set urls \<inter> dom M = {}"
  shows "\<exists>L. gained (wk_runtime st) (wk_runtime st') H L
    \<and> (\<forall>M'. r = Some (Ok M') \<longrightarrow> dom M' = dom M \<union> set urls \<and> fetched_ok E sv (wk_runtime st') M'
          \<and> blobs_of M' = blobs_of M \<union> L \<and> ids_left n (wk_runtime st'))"
  using assms
proof (induction urls arbitrary: M hangs st H)
  case Nil
  then show ?case by (auto intro!: exI [of _ "{}"] gained_refl split: if_splits)
next
  case (Cons u urls)
  obtain o' st1 where f: "fetch_request_image E sv u st = (o', st1)" by (cases "fetch_request_image E sv u st")
  have room: "ids_left (Suc (length urls + n)) (wk_runtime st)" using Cons.prems(5) by simp
  note g = fetch_request_image_gains [OF f Cons.prems(2) room Cons.prems(6)]
  consider (no) "o' = None" | (err) e where "o' = Some (Err e)" | (ok) v fb where "o' = Some (Ok (v, fb))"
    by (metis obj_sumE option.exhaust surj_pair)
  then show ?case
  proof cases
    case no
    with g have k: "gained (wk_runtime st) (wk_runtime st1) H {}" "ids_left (length urls + n) (wk_runtime st1)" by auto
    then have "blob_inv (wk_runtime st1) H" by (simp add: gained_def)
    have j: "join_tasks E sv urls M True st1 = (r, st')" using Cons.prems(1) f no by simp
    have "r \<noteq> Some (Ok M')" for M'
    proof -
      have "fst (join_tasks E sv urls M True s) \<noteq> Some (Ok M')" for M s
        by (induction urls arbitrary: M s) (auto split: option.splits sum.splits prod.splits)
      with j show ?thesis by (metis fst_conv)
    qed
    moreover obtain L where "gained (wk_runtime st1) (wk_runtime st') H L"
      using Cons.IH [OF j \<open>blob_inv (wk_runtime st1) H\<close> Cons.prems(3)
          fetched_ok_keep [OF Cons.prems(4) k(1) Cons.prems(3)] k(2) Cons.prems(6)] Cons.prems(7,8) by auto
    ultimately show ?thesis using gained_trans [OF k(1), of _ L] by auto
  next
    case err
    with g have k: "gained (wk_runtime st) (wk_runtime st1) H {}" "ids_left (length urls + n) (wk_runtime st1)" by auto
    then have "blob_inv (wk_runtime st1) H" by (simp add: gained_def)
    from run_late_gains [OF this ids_left_mono [OF k(2) le_add1] Cons.prems(6)] obtain L where
      "gained (wk_runtime st1) (wk_runtime (run_late E sv urls st1)) H L" by blast
    with gained_trans [OF k(1), of _ L] Cons.prems(1) f err show ?thesis by auto
  next
    case ok
    with g have k: "v = u" "gained (wk_runtime st) (wk_runtime st1) H {fb_blob fb}"
      "fetched_ok E sv (wk_runtime st1) [u \<mapsto> fb]" "ids_left (length urls + n) (wk_runtime st1)" by auto
    let ?H = "H \<union> {fb_blob fb}" and ?M = "M(u \<mapsto> fb)"
    have Mu: "M u = None" using Cons.prems(8) by auto
    have j: "join_tasks E sv urls ?M hangs st1 = (r, st')" using Cons.prems(1) f ok k(1) by simp
    have inv: "blob_inv (wk_runtime st1) ?H" using k(2) by (simp add: gained_def)
    have sub: "blobs_of ?M \<subseteq> ?H" using Cons.prems(3) by (auto simp: blobs_of_add [where M = M, OF Mu])
    have fo: "fetched_ok E sv (wk_runtime st1) ?M"
      by (rule fetched_ok_add [OF fetched_ok_keep [OF Cons.prems(4) k(2) Cons.prems(3)] k(3)])
    have disj: "set urls \<inter> dom ?M = {}" using Cons.prems(7,8) by auto
    obtain L where L: "gained (wk_runtime st1) (wk_runtime st') ?H L"
      "\<And>M'. r = Some (Ok M') \<Longrightarrow> dom M' = dom ?M \<union> set urls \<and> fetched_ok E sv (wk_runtime st') M'
          \<and> blobs_of M' = blobs_of ?M \<union> L \<and> ids_left n (wk_runtime st')"
      using Cons.IH [OF j inv sub fo k(4) Cons.prems(6) _ disj] Cons.prems(7) by fastforce
    have "dom M' = dom M \<union> set (u # urls) \<and> fetched_ok E sv (wk_runtime st') M'
        \<and> blobs_of M' = blobs_of M \<union> ({fb_blob fb} \<union> L) \<and> ids_left n (wk_runtime st')" if "r = Some (Ok M')" for M'
      using L(2) [OF that] by (auto simp: blobs_of_add [where M = M, OF Mu])
    with gained_trans [OF k(2) L(1)] show ?thesis by blast
  qed
qed

lemma gained_hot:
  assumes "blob_inv rt H" "gained rt rt' H L"
  shows "hot_bytes rt' = hot_bytes rt + (\<Sum>h \<in> L. hot_len h)"
proof -
  have "blob_inv rt' (H \<union> L)" "H \<inter> L = {}" using assms(2) by (auto simp: gained_def)
  then show ?thesis using assms(1) by (simp add: blob_inv_def hot_bytes_def sum.union_disjoint)
qed

text \<open>The reference and the replacement that goes with it.\<close>

definition replaces ::
  "('u, 'l, 'i) materialize_env \<Rightarrow> request_materialize_services \<Rightarrow> blob_runtime
   \<Rightarrow> (string \<Rightarrow> fetched_blob option) \<Rightarrow> string list \<times> string \<Rightarrow> request_replacement \<Rightarrow> bool" where
  "replaces E sv rt M r repl \<longleftrightarrow>
     rr_json_pointer repl = pointer_text (fst r)
     \<and> M (snd r) = Some \<lparr>fb_mime_type = rr_mime_type repl, fb_blob = rr_blob repl\<rparr>
     \<and> (\<exists>f. obtained E sv (snd r) f \<and> rr_mime_type repl = fr_mime_type f
          \<and> blob_content rt (rr_blob repl) = Some (fr_bytes f))"

definition order_ok :: "('u, 'l, 'i) materialize_env \<Rightarrow> bool" where
  "order_ok E \<longleftrightarrow> (\<forall>us. distinct us \<longrightarrow> distinct (mv_order E us) \<and> set (mv_order E us) = set us)"

lemma materialize_state:
  assumes run: "materialize_request_images_with_services E sv request st = (r, st')"
    and inv: "blob_inv (wk_runtime st) H" and room: "ids_left (7 + n) (wk_runtime st)"
    and small: "images_small E sv" and ord: "order_ok E"
  shows "\<exists>L. gained (wk_runtime st) (wk_runtime st') H L
    \<and> (\<forall>m. r = Some (Ok m) \<longrightarrow> mr_request m = request \<and> ids_left n (wk_runtime st')
          \<and> (\<exists>M. list_all2 (replaces E sv (wk_runtime st') M) (inline_refs request []) (mr_replacements m)
                \<and> blobs_of M = L \<and> dom M = snd ` set (inline_refs request [])))"
proof (cases "length (inline_refs request []) \<le> 7")
  case False
  then have "r = Some (Err (Message ''too many inlineData URLs'')) \<and> st' = st"
    using run by (simp add: materialize_request_images_with_services_def scan_eq_refs within_limit_def
        MAX_INLINE_DATA_URLS_def)
  with gained_refl [OF inv] show ?thesis by auto
next
  case True
  let ?refs = "map ref_of (inline_refs request [])"
  let ?urls = "mv_order E (unique_urls (map ir_url ?refs) {})"
  have urls: "distinct ?urls" "set ?urls = set (map ir_url ?refs)"
    using ord distinct_unique_urls [of "map ir_url ?refs" "{}"] set_unique_urls [of "map ir_url ?refs" "{}"]
    by (auto simp: order_ok_def)
  have "length ?urls = card (set (map ir_url ?refs))"
    using distinct_card [OF urls(1)] urls(2) by simp
  also have "\<dots> \<le> length (map ir_url ?refs)" by (rule card_length)
  finally have room': "ids_left (length ?urls + n) (wk_runtime st)"
    using room True by (auto intro: ids_left_mono)
  obtain j st1 where j: "join_tasks E sv ?urls Map.empty False st = (j, st1)"
    by (cases "join_tasks E sv ?urls Map.empty False st")
  have st': "st' = st1" using run j True
    by (auto simp: materialize_request_images_with_services_def scan_eq_refs within_limit_def
        MAX_INLINE_DATA_URLS_def split: option.splits sum.splits)
  obtain L where L: "gained (wk_runtime st) (wk_runtime st1) H L"
    "\<And>M. j = Some (Ok M) \<Longrightarrow> dom M = set ?urls \<and> fetched_ok E sv (wk_runtime st1) M \<and> blobs_of M = L
        \<and> ids_left n (wk_runtime st1)"
    using join_tasks_gains [OF j inv _ _ room' small urls(1)] by (auto simp: blobs_of_def fetched_ok_def)
  have "mr_request m = request \<and> ids_left n (wk_runtime st') \<and> list_all2 (replaces E sv (wk_runtime st') M) (inline_refs request []) (mr_replacements m)
      \<and> blobs_of M = L \<and> dom M = snd ` set (inline_refs request [])" if r: "r = Some (Ok m)" and M: "j = Some (Ok M)" for m M
  proof -
    from run j True r M have m: "mr_request m = request"
      "collect_results (replacement_for M) ?refs = Ok (mr_replacements m)"
      by (auto simp: materialize_request_images_with_services_def scan_eq_refs within_limit_def
          MAX_INLINE_DATA_URLS_def split: sum.splits)
    have "replaces E sv (wk_runtime st1) M x repl" if "replacement_for M (ref_of x) = Ok repl" for x repl
      using that L(2) [OF M] by (cases x)
        (auto simp: replacement_for_def replaces_def ref_of_def fetched_ok_def split: option.splits)
    with collect_results_OkD [OF m(2)] have "list_all2 (replaces E sv (wk_runtime st1) M) (inline_refs request []) (mr_replacements m)"
      unfolding list_all2_map1 by (rule list_all2_mono)
    with m L(2) [OF M] st' urls(2) show ?thesis by (simp add: image_image ref_of_def)
  qed
  moreover have "\<exists>M. j = Some (Ok M)" if "r = Some (Ok m)" for m
    using run j True that
    by (auto simp: materialize_request_images_with_services_def scan_eq_refs within_limit_def
        MAX_INLINE_DATA_URLS_def split: option.splits sum.splits)
  ultimately show ?thesis using L(1) st' by blast
qed

section \<open>The request with its images in place\<close>

text \<open>
  The specification of materializing and encoding together: every \<^verbatim>\<open>inlineData\<close> object that refers
  to an image by URL becomes the image itself.
\<close>

definition image_json :: "base64_api \<Rightarrow> fetch_result \<Rightarrow> json" where
  "image_json B f =
     JObject [(''mimeType'', JString (fr_mime_type f)), (''data'', JString (b64_encode B (fr_bytes f)))]"

fun inline_images :: "(string \<Rightarrow> json) \<Rightarrow> json \<Rightarrow> json"
and inline_fields :: "(string \<Rightarrow> json) \<Rightarrow> string option \<Rightarrow> jobject \<Rightarrow> jobject"
and inline_items :: "(string \<Rightarrow> json) \<Rightarrow> json list \<Rightarrow> json list" where
  "inline_images img (JObject m) = JObject (inline_fields img (inline_url m) m)"
| "inline_images img (JArray items) = JArray (inline_items img items)"
| "inline_images img v = v"
| "inline_fields img url [] = []"
| "inline_fields img url ((k, x) # m) =
     (k, if url \<noteq> None \<and> k = ''inlineData'' then img (the url) else inline_images img x)
     # inline_fields img url m"
| "inline_items img [] = []"
| "inline_items img (x # xs) = inline_images img x # inline_items img xs"

lemma refs_prefix:
  "(q, u) \<in> set (inline_refs v p) \<Longrightarrow> \<exists>t r. q = p @ t # r"
  "(q, u) \<in> set (field_refs m p) \<Longrightarrow> \<exists>k x r. (k, x) \<in> set m \<and> q = p @ k # r"
  "(q, u) \<in> set (item_refs xs i p) \<Longrightarrow> \<exists>j r. i \<le> j \<and> q = p @ show_nat j # r"
proof (induction v p and m p and xs i p rule: inline_refs_field_refs_item_refs.induct)
  case (1 m path)
  then show ?case by (auto split: option.splits)
next
  case (2 items path)
  then show ?case by fastforce
next
  case (5 key child m path)
  from "5.prems" consider "(q, u) \<in> set (inline_refs child (path @ [key]))" | "(q, u) \<in> set (field_refs m path)"
    by auto
  then show ?case
  proof cases
    case 1
    with "5.IH"(1) show ?thesis by fastforce
  next
    case 2
    with "5.IH"(2) show ?thesis by fastforce
  qed
next
  case (7 child items i path)
  from "7.prems" consider "(q, u) \<in> set (inline_refs child (path @ [show_nat i]))"
    | "(q, u) \<in> set (item_refs items (i + 1) path)" by auto
  then show ?case
  proof cases
    case 1
    with "7.IH"(1) show ?thesis by fastforce
  next
    case 2
    with "7.IH"(2) obtain j r where "i + 1 \<le> j" "q = path @ show_nat j # r" by blast
    then show ?thesis by (intro exI [of _ j] exI [of _ r]) simp
  qed
qed auto

text \<open>\<open>R\<close> gives the image of each reference below \<open>p\<close> and nothing else below \<open>p\<close>.\<close>

definition gives :: "(string list \<Rightarrow> json option) \<Rightarrow> (string \<Rightarrow> json) \<Rightarrow> (string list \<times> string) list \<Rightarrow> string list \<Rightarrow> bool" where
  "gives R img refs p \<longleftrightarrow>
     (\<forall>(q, u) \<in> set refs. R q = Some (img u)) \<and> (\<forall>q. R (p @ q) \<noteq> None \<longrightarrow> p @ q \<in> fst ` set refs)"

lemma givesD:
  "gives R img refs p \<Longrightarrow> (q, u) \<in> set refs \<Longrightarrow> R q = Some (img u)"
  "gives R img refs p \<Longrightarrow> R (p @ q) \<noteq> None \<Longrightarrow> p @ q \<in> fst ` set refs"
  by (auto simp: gives_def)

lemma gives_here: "gives R img (inline_refs v p) p \<Longrightarrow> R p = None"
  using givesD(2) [of R img "inline_refs v p" p "[]"] refs_prefix(1) [of p _ v p] by fastforce

text \<open>A part of the references that holds all of those below \<open>p @ r\<close>.\<close>

lemma gives_part:
  assumes g: "gives R img refs p" and sub: "set A \<subseteq> set refs"
    and rest: "\<And>q u. (q, u) \<in> set refs \<Longrightarrow> prefix (p @ r) q \<Longrightarrow> (q, u) \<in> set A"
  shows "gives R img A (p @ r)"
  unfolding gives_def
proof (intro conjI ballI allI impI)
  show "case e of (q, u) \<Rightarrow> R q = Some (img u)" if "e \<in> set A" for e
    using that sub givesD(1) [OF g] by (cases e) auto
next
  fix q
  assume "R ((p @ r) @ q) \<noteq> None"
  then have "R (p @ (r @ q)) \<noteq> None" by simp
  from givesD(2) [OF g this] obtain e where "e \<in> set refs" "fst e = p @ (r @ q)" by (metis imageE)
  with rest [of "fst e" "snd e"] have "e \<in> set A" by (metis append_assoc prefixI prod.collapse)
  with \<open>fst e = p @ (r @ q)\<close> show "(p @ r) @ q \<in> fst ` set A" by (metis append_assoc imageI)
qed

lemma gives_self: "gives R img refs p \<Longrightarrow> set A = set refs \<Longrightarrow> gives R img A p"
  by (simp add: gives_def)

lemma set_field_refs: "set (field_refs m p) = (\<Union>(k, x) \<in> set m. set (inline_refs x (p @ [k])))"
  by (induction m) auto

lemma set_item_refs:
  "set (item_refs xs i p) = (\<Union>j < length xs. set (inline_refs (xs ! j) (p @ [show_nat (i + j)])))"
proof (induction xs arbitrary: i)
  case (Cons x xs)
  have "{..<length (x # xs)} = insert 0 (Suc ` {..<length xs})"
    by (simp add: lessThan_Suc_eq_insert_0)
  then show ?case by (simp add: Cons)
qed simp

lemma gives_field:
  assumes g: "gives R img (inline_refs (JObject m) p) p" and d: "distinct (map fst m)"
    and kx: "(k, x) \<in> set m" and no: "\<not> (inline_url m \<noteq> None \<and> k = ''inlineData'')"
  shows "gives R img (inline_refs x (p @ [k])) (p @ [k])"
proof (rule gives_part [OF g])
  fix q u
  assume q: "(q, u) \<in> set (inline_refs (JObject m) p)" and pre: "prefix (p @ [k]) q"
  from q consider "inline_url m \<noteq> None" "q = p @ [''inlineData'']"
    | k' x' where "(k', x') \<in> set m" "(q, u) \<in> set (inline_refs x' (p @ [k']))"
    by (cases "inline_url m") (auto simp: set_field_refs)
  then show "(q, u) \<in> set (inline_refs x (p @ [k]))"
  proof cases
    case 1
    with pre no show ?thesis by (auto simp: prefix_def)
  next
    case 2
    with refs_prefix(1) [OF 2(2)] pre have "k' = k" by (auto simp: prefix_def)
    with 2 kx d have "x' = x" by (metis map_of_eq_Some_iff option.inject)
    with 2 \<open>k' = k\<close> show ?thesis by simp
  qed
qed (use kx in \<open>auto simp: set_field_refs\<close>)

lemma gives_item:
  assumes g: "gives R img (inline_refs (JArray xs) p) p" and j: "j < length xs"
  shows "gives R img (inline_refs (xs ! j) (p @ [show_nat j])) (p @ [show_nat j])"
proof (rule gives_part [OF g])
  fix q u
  assume q: "(q, u) \<in> set (inline_refs (JArray xs) p)" and pre: "prefix (p @ [show_nat j]) q"
  then obtain l where l: "(q, u) \<in> set (inline_refs (xs ! l) (p @ [show_nat l]))"
    by (auto simp: set_item_refs)
  with refs_prefix(1) [OF l] pre have "l = j" by (auto simp: prefix_def show_nat_inject)
  with l show "(q, u) \<in> set (inline_refs (xs ! j) (p @ [show_nat j]))" by simp
qed (use j in \<open>auto simp: set_item_refs\<close>)

lemma replace_fields_inline:
  assumes "\<And>k x. (k, x) \<in> set m \<Longrightarrow>
      replace_at R x (p @ [k]) = (if url \<noteq> None \<and> k = ''inlineData'' then img (the url) else inline_images img x)"
  shows "replace_fields R m p = inline_fields img url m"
  using assms by (induction m) auto

lemma replace_items_inline:
  assumes "\<And>j. j < length xs \<Longrightarrow> replace_at R (xs ! j) (p @ [show_nat (i + j)]) = inline_images img (xs ! j)"
  shows "replace_items R xs i p = inline_items img xs"
  using assms
proof (induction xs arbitrary: i)
  case (Cons x xs)
  then have "replace_items R xs (i + 1) p = inline_items img xs"
    using Cons.prems [of "Suc j" for j] by (intro Cons.IH) simp
  moreover have "replace_at R x (p @ [show_nat i]) = inline_images img x"
    using Cons.prems [of 0] by simp
  ultimately show ?case by simp
qed simp

lemma replace_at_Some: "R p = Some j \<Longrightarrow> replace_at R v p = j"
  by (cases v) simp_all

text \<open>Replacing by pointers and inlining by structure agree.\<close>

lemma replace_at_inline:
  "json_wf v \<Longrightarrow> gives R img (inline_refs v p) p \<Longrightarrow> replace_at R v p = inline_images img v"
proof (induction v arbitrary: p rule: json_induct)
  case (JArray xs)
  have "replace_at R (xs ! j) (p @ [show_nat j]) = inline_images img (xs ! j)" if "j < length xs" for j
    using JArray.IH [of "xs ! j"] gives_item [OF JArray.prems(2) that] JArray.prems(1) that
    by (auto simp: items_wf_iff)
  with replace_items_inline [of xs R p 0 img] gives_here [OF JArray.prems(2)] show ?case by simp
next
  case (JObject m)
  have wf: "distinct (map fst m)" "\<And>k x. (k, x) \<in> set m \<Longrightarrow> json_wf x"
    using JObject.prems(1) by (auto simp: fields_wf_iff)
  have "replace_at R x (p @ [k]) =
      (if inline_url m \<noteq> None \<and> k = ''inlineData'' then img (the (inline_url m)) else inline_images img x)"
    if kx: "(k, x) \<in> set m" for k x
  proof (cases "inline_url m \<noteq> None \<and> k = ''inlineData''")
    case True
    then have "R (p @ [k]) = Some (img (the (inline_url m)))"
      using givesD(1) [OF JObject.prems(2), of "p @ [k]" "the (inline_url m)"] by (auto split: option.splits)
    with True replace_at_Some show ?thesis by simp
  next
    case False
    with JObject.IH [OF kx wf(2) [OF kx] gives_field [OF JObject.prems(2) wf(1) kx False]] show ?thesis by (simp only: if_False)
  qed
  with replace_fields_inline [of m R p "inline_url m" img] gives_here [OF JObject.prems(2)] show ?case by simp
qed (drule gives_here, simp)+

section \<open>Properties\<close>

text \<open>What a successful call leaves behind.\<close>

lemma materialized_state:
  assumes "materialize_request_images_with_services E sv request st = (Some (Ok m), st')"
    and "blob_inv (wk_runtime st) H" "ids_left 7 (wk_runtime st)" "images_small E sv" "order_ok E"
  shows "mr_request m = request
    \<and> list_all2 (\<lambda>(path, url) r. rr_json_pointer r = pointer_text path
          \<and> (\<exists>f. obtained E sv url f \<and> rr_mime_type r = fr_mime_type f
               \<and> blob_content (wk_runtime st') (rr_blob r) = Some (fr_bytes f)))
        (inline_refs request []) (mr_replacements m)
    \<and> (\<exists>blob_of. map rr_blob (mr_replacements m) = map (\<lambda>(path, url). blob_of url) (inline_refs request []))
    \<and> gained (wk_runtime st) (wk_runtime st') H (rr_blob ` set (mr_replacements m))"
proof -
  obtain M L where L: "gained (wk_runtime st) (wk_runtime st') H L" "mr_request m = request"
    "list_all2 (replaces E sv (wk_runtime st') M) (inline_refs request []) (mr_replacements m)"
    "blobs_of M = L" "dom M = snd ` set (inline_refs request [])"
    using materialize_state [of E sv request st _ st' H 0, OF assms(1,2) _ assms(4,5)] assms(3) by auto
  have "list_all2 (\<lambda>(path, url) r. rr_json_pointer r = pointer_text path
          \<and> (\<exists>f. obtained E sv url f \<and> rr_mime_type r = fr_mime_type f
               \<and> blob_content (wk_runtime st') (rr_blob r) = Some (fr_bytes f)))
        (inline_refs request []) (mr_replacements m)"
    using L(3) by (rule list_all2_mono) (auto simp: replaces_def)
  moreover have blobs: "map rr_blob (mr_replacements m) = map (\<lambda>(path, url). fb_blob (the (M url))) (inline_refs request [])"
    using L(3) by (induction rule: list_all2_induct) (auto simp: replaces_def)
  moreover have "rr_blob ` set (mr_replacements m) = L"
  proof -
    have "rr_blob ` set (mr_replacements m) = set (map rr_blob (mr_replacements m))" by simp
    also have "\<dots> = (\<lambda>url. fb_blob (the (M url))) ` snd ` set (inline_refs request [])"
      unfolding blobs by (auto simp: image_image split_def)
    also have "\<dots> = blobs_of M"
      unfolding L(5) [symmetric] blobs_of_def by (auto simp: ran_def image_def dom_def)
    finally show ?thesis using L(4) by simp
  qed
  ultimately show ?thesis using L(1,2) by blast
qed

lemmas materialized_store = materialized_state [THEN conjunct2, THEN conjunct2, THEN conjunct2]


text \<open>The instance of the witnesses: no fetch service, every URL answered with the same small image.\<close>

definition sample_services :: request_materialize_services where
  "sample_services =
     \<lparr>ms_max_image_bytes = 10, ms_allow_private_networks = True, ms_enable_webp_optimization = False,
      ms_fetch_service = None, ms_cache_observer = False\<rparr>"

definition sample_materialize_env ::
  "sample_u http_get \<Rightarrow> (sample_u, (string, memory_entry) lru_state, unit) materialize_env" where
  "sample_materialize_env get =
     \<lparr>mv_url = sample_url, mv_get = get,
      mv_images = \<lparr>load_png = (\<lambda>_. Err ''no''), img_width = (\<lambda>_. 0), img_height = (\<lambda>_. 0),
                   jpeg_encode = (\<lambda>_ _. Err ''no''), webp_encode = (\<lambda>_. Err ''no'')\<rparr>,
      mv_join_error = (\<lambda>_. None), mv_webp_elapses = (\<lambda>_. False), mv_lru = lru_list, mv_disk = sample_disk_env,
      mv_interfere = (\<lambda>_ s. s), mv_view = (\<lambda>_ _. sample_view), mv_direct = (\<lambda>_. Err (Message ''e'')),
      mv_store_io = (\<lambda>_. no_faults), mv_order = (\<lambda>us. us), mv_late = (\<lambda>_. False)\<rparr>"

definition sample_work :: "(string, memory_entry) lru_state work_state" where
  "sample_work =
     \<lparr>wk_service = sample_state, wk_runtime = blob_runtime_new small_cfg (\<lambda>_. None), wk_observed = []\<rparr>"

lemma sample_order_ok: "order_ok (sample_materialize_env get)"
  by (simp add: order_ok_def sample_materialize_env_def)

lemma sample_images_small: "images_small (sample_materialize_env get) sample_services"
proof -
  have "length (fr_bytes f) \<le> 10" if "obtained (sample_materialize_env get) sample_services url f" for url f
    using that by (auto simp: obtained_def obtain_image_def sample_services_def sample_materialize_env_def
        dest!: fetch_image_OkD split: sum.splits)
  moreover have "(10::nat) < 2 ^ 64" by simp
  ultimately show ?thesis unfolding images_small_def using le_less_trans by blast
qed

lemma sample_work_inv: "blob_inv (wk_runtime sample_work) {}" "ids_left 7 (wk_runtime sample_work)"
proof -
  show "blob_inv (wk_runtime sample_work) {}" by (simp add: sample_work_def blob_inv_new)
  show "ids_left 7 (wk_runtime sample_work)" by (simp add: sample_work_def ids_left_def blob_runtime_new_def)
qed

text \<open>Answers for one host only.\<close>

definition sample_get_one :: "sample_u http_get" where
  "sample_get_one u = (if su_host u = ''x.example'' then sample_get u else Err (Message ''unreachable''))"

definition two_images :: json where
  "two_images =
     JArray [JObject [(''inlineData'', JObject [(''data'', JString ''http://x.example/a'')])],
             JObject [(''inlineData'', JObject [(''data'', JString ''http://y.example/b'')])]]"

lemma two_images_refs:
  "inline_refs two_images [] =
     [([''0'', ''inlineData''], ''http://x.example/a''), ([''1'', ''inlineData''], ''http://y.example/b'')]"
  by code_simp

lemma sample_obtain:
  "fst (obtain_image (sample_materialize_env sample_get_one) sample_services ''http://x.example/a'' st)
     = Some (Ok \<lparr>fr_mime_type = normalize_image_mime_type (Some ''image/webp'') ''http://x.example/a'',
                 fr_bytes = ''abcde'', fr_from_cache = False\<rparr>)"
  "fst (obtain_image (sample_materialize_env sample_get_one) sample_services ''http://y.example/b'' st)
     = Some (Err (Message ''unreachable''))"
  "snd (obtain_image (sample_materialize_env sample_get_one) sample_services url st) = st"
  by (simp_all add: obtain_image_def sample_services_def sample_materialize_env_def sample_get_one_def
      fetch_image_as_inline_data_with_options_def sample_get_def sample_url_eval is_success_def
      enforce_max_size_def)

definition one_image :: json where
  "one_image = JObject [(''inlineData'', JObject [(''data'', JString ''http://x.example/a'')])]"

lemma one_image_refs: "inline_refs one_image [] = [([''inlineData''], ''http://x.example/a'')]"
  by code_simp

lemma sample_fetch_first:
  "\<exists>fb st. fetch_request_image (sample_materialize_env sample_get_one) sample_services ''http://x.example/a'' sample_work
     = (Some (Ok (''http://x.example/a'', fb)), st) \<and> bh_storage (fb_blob fb) = Inline ''abcde''
       \<and> br_global_hot_bytes (wk_runtime st) = 5 \<and> br_next_id (wk_runtime st) = 2"
proof -
  obtain st where "obtain_image (sample_materialize_env sample_get_one) sample_services ''http://x.example/a'' sample_work
     = (Some (Ok \<lparr>fr_mime_type = normalize_image_mime_type (Some ''image/webp'') ''http://x.example/a'',
                 fr_bytes = ''abcde'', fr_from_cache = False\<rparr>), sample_work)"
    using sample_obtain(1) [of sample_work] sample_obtain(3) [of "''http://x.example/a''" sample_work]
    by (metis prod.collapse)
  then show ?thesis
    by (simp add: fetch_request_image_def store_image_def lift_blob_error_def sample_work_def small_cfg_def
        sample_materialize_env_def store_eval)
qed

lemma sample_run:
  "\<exists>m st. materialize_request_images_with_services (sample_materialize_env sample_get_one) sample_services
       one_image sample_work = (Some (Ok m), st) \<and> br_next_id (wk_runtime st) = 2"
proof -
  obtain fb st where f: "fetch_request_image (sample_materialize_env sample_get_one) sample_services
      ''http://x.example/a'' sample_work = (Some (Ok (''http://x.example/a'', fb)), st)" "br_next_id (wk_runtime st) = 2"
    using sample_fetch_first by blast
  have ord: "mv_order (sample_materialize_env sample_get_one) us = us" for us
    by (simp add: sample_materialize_env_def)
  show ?thesis
    using f by (simp add: materialize_request_images_with_services_def scan_eq_refs within_limit_def
        one_image_refs ref_of_def MAX_INLINE_DATA_URLS_def ord replacement_for_def)
qed

lemma one_image_pointer: "pointer_text [''inlineData''] = ''/inlineData''"
  by code_simp


text \<open>
  When the call fails, the images stored by then stay in the store: their bytes remain charged
  to the hot budget although the caller gets no handle to remove them.
\<close>

lemma failed_materialization_keeps_blobs:
  assumes "materialize_request_images_with_services E sv request st = (Some (Err e), st')"
    and "blob_inv (wk_runtime st) H" "ids_left 7 (wk_runtime st)" "images_small E sv" "order_ok E"
  shows "\<exists>L. gained (wk_runtime st) (wk_runtime st') H L
    \<and> hot_bytes (wk_runtime st') = hot_bytes (wk_runtime st) + (\<Sum>h \<in> L. hot_len h)"
proof -
  have "ids_left (7 + 0) (wk_runtime st)" using assms(3) by simp
  from materialize_state [OF assms(1,2) this assms(4,5)] gained_hot [OF assms(2)] show ?thesis by blast
qed

lemma failed_materialization_keeps_blobs_witness:
  "\<exists>e st' L. materialize_request_images_with_services (sample_materialize_env sample_get_one) sample_services
       two_images sample_work = (Some (Err e), st')
     \<and> gained (wk_runtime sample_work) (wk_runtime st') {} L \<and> (\<Sum>h \<in> L. hot_len h) = 5"
proof -
  let ?E = "sample_materialize_env sample_get_one"
  obtain fb st where f: "fetch_request_image ?E sample_services ''http://x.example/a'' sample_work
      = (Some (Ok (''http://x.example/a'', fb)), st)" "br_global_hot_bytes (wk_runtime st) = 5"
    using sample_fetch_first by blast
  have ord: "mv_order ?E us = us" for us by (simp add: sample_materialize_env_def)
  have "obtain_image ?E sample_services ''http://y.example/b'' st = (Some (Err (Message ''unreachable'')), st)"
    using sample_obtain(2) [of st] sample_obtain(3) [of "''http://y.example/b''" st] by (metis prod.collapse)
  then have "fetch_request_image ?E sample_services ''http://y.example/b'' st = (Some (Err (Message ''unreachable'')), st)"
    by (simp add: fetch_request_image_def)
  then have m: "materialize_request_images_with_services ?E sample_services two_images sample_work
      = (Some (Err (Message ''unreachable'')), st)"
    using f by (simp add: materialize_request_images_with_services_def scan_eq_refs within_limit_def
        two_images_refs ref_of_def MAX_INLINE_DATA_URLS_def ord replacement_for_def run_late_def)
  have "hot_bytes (wk_runtime sample_work) = 0" "hot_bytes (wk_runtime st) = 5"
    using f(2) by (simp_all add: hot_bytes_def sample_work_def blob_runtime_new_def)
  with failed_materialization_keeps_blobs [OF m sample_work_inv sample_images_small sample_order_ok] m
  obtain L where "gained (wk_runtime sample_work) (wk_runtime st) {} L" "(\<Sum>h \<in> L. hot_len h) = 5" by auto
  with m show ?thesis by blast
qed

text \<open>The values that replace the references, as the encoder computes them, are the images.\<close>

lemma replacements_give_images:
  assumes wf: "json_wf request"
    and l: "list_all2 (replaces E sv (ee_runtime N) M) (inline_refs request []) rs"
  shows "\<exists>images. (\<forall>(path, url) \<in> set (inline_refs request []). obtained E sv url (images url))
    \<and> gives (replacement_values N rs) (\<lambda>url. image_json (ee_b64 N) (images url)) (inline_refs request []) []"
proof -
  let ?refs = "inline_refs request []"
  let ?ok = "\<lambda>url f. obtained E sv url f \<and> (\<forall>r. M url = Some \<lparr>fb_mime_type = rr_mime_type r, fb_blob = rr_blob r\<rparr>
      \<longrightarrow> replacement_json N r = image_json (ee_b64 N) f)"
  have rep: "\<exists>x \<in> set ?refs. replaces E sv (ee_runtime N) M x r" if "r \<in> set rs" for r
    using l that by (metis in_set_conv_nth list_all2_conv_all_nth)
  have ref: "\<exists>r \<in> set rs. replaces E sv (ee_runtime N) M x r" if "x \<in> set ?refs" for x
    using l that by (metis in_set_conv_nth list_all2_conv_all_nth)
  have "\<exists>f. ?ok url f" if "(path, url) \<in> set ?refs" for path url
    using ref [OF that] by (fastforce simp: replaces_def replacement_json_def image_json_def)
  then have "\<forall>url \<in> snd ` set ?refs. \<exists>f. ?ok url f" by auto
  from bchoice [OF this] obtain images where images: "\<And>path url. (path, url) \<in> set ?refs \<Longrightarrow> ?ok url (images url)"
    by force
  have val: "replacement_values N rs path = Some (image_json (ee_b64 N) (images url))"
    if x: "(path, url) \<in> set ?refs" for path url
  proof -
    from ref [OF x] have "pointer_text path \<in> rr_json_pointer ` set rs" by (force simp: replaces_def)
    then obtain r where r: "replacement_map rs (pointer_text path) = Some r" "r \<in> set rs" "rr_json_pointer r = pointer_text path"
    proof (cases "replacement_map rs (pointer_text path)")
      case None
      with \<open>pointer_text path \<in> _\<close> show ?thesis
        by (force simp: replacement_map_def map_of_eq_None_iff)
    next
      case (Some r)
      then have "(pointer_text path, r) \<in> set (rev (map (\<lambda>r. (rr_json_pointer r, r)) rs))"
        unfolding replacement_map_def by (rule map_of_SomeD)
      with Some that show ?thesis by auto
    qed
    from rep [OF r(2)] r(3) obtain url' where y: "(path, url') \<in> set ?refs"
      "M url' = Some \<lparr>fb_mime_type = rr_mime_type r, fb_blob = rr_blob r\<rparr>"
      by (auto simp: replaces_def pointer_text_inject)
    have "url' = url"
      using refs_point(1) [OF wf y(1)] refs_point(1) [OF wf x] by (auto simp: points_at_image_def)
    with images [OF x] y(2) r(1) show ?thesis by (simp add: replacement_values_def)
  qed
  have "path \<in> fst ` set ?refs" if "replacement_values N rs path \<noteq> None" for path
  proof -
    from that obtain r where "r \<in> set rs" "rr_json_pointer r = pointer_text path"
      by (auto simp: replacement_values_def replacement_map_def dest!: map_of_SomeD)
    from rep [OF this(1)] this(2) obtain x where "x \<in> set ?refs" "path = fst x"
      by (auto simp: replaces_def pointer_text_inject)
    then show ?thesis by blast
  qed
  with val images show ?thesis by (intro exI [of _ images]) (auto simp: gives_def)
qed

text \<open>After materializing the encoder is ready, and its text is the specified one.\<close>

lemma materialized_ready:
  assumes run: "materialize_request_images_with_services E sv request st = (Some (Ok m), st')"
    and st: "blob_inv (wk_runtime st) H" "ids_left 8 (wk_runtime st)" "images_small E sv" "order_ok E"
    and request: "json_wf request" "strip_output_from_value request = request"
    and N: "serde_compact (ee_serde N)" "base64_laws (ee_b64 N)" "chunker_ok (ee_chunker N)"
      "ee_runtime N = wk_runtime st'" "ee_faults N = (\<lambda>_. no_faults)"
  obtains images where "encode_ready N (mr_replacements m)" "mr_request m = request" "ids_left 1 (ee_runtime N)"
    "blob_inv (ee_runtime N) (H \<union> rr_blob ` set (mr_replacements m))"
    "\<forall>(path, url) \<in> set (inline_refs request []). obtained E sv url (images url)"
    "encoded_text N (mr_replacements m) request
      = json_text (ee_serde N) (inline_images (\<lambda>url. image_json (ee_b64 N) (images url)) request)"
proof -
  obtain M L where L: "gained (wk_runtime st) (wk_runtime st') H L" "mr_request m = request"
    "list_all2 (replaces E sv (ee_runtime N) M) (inline_refs request []) (mr_replacements m)"
    "ids_left 1 (wk_runtime st')"
    using materialize_state [of E sv request st _ st' H 1, OF run st(1) _ st(3,4)] st(2) N(4) by auto
  obtain images where images: "\<forall>(path, url) \<in> set (inline_refs request []). obtained E sv url (images url)"
    "gives (replacement_values N (mr_replacements m)) (\<lambda>url. image_json (ee_b64 N) (images url)) (inline_refs request []) []"
    using replacements_give_images [OF request(1) L(3)] by blast
  have "blob_content (ee_runtime N) (rr_blob r) \<noteq> None" if "r \<in> set (mr_replacements m)" for r
    using L(3) that by (auto simp: list_all2_conv_all_nth in_set_conv_nth replaces_def)
  then have ready: "encode_ready N (mr_replacements m)" using N by (simp add: encode_ready_def)
  have enc: "encoded_text N (mr_replacements m) request
      = json_text (ee_serde N) (inline_images (\<lambda>url. image_json (ee_b64 N) (images url)) request)"
    unfolding encoded_text_def request(2) replaced_request_def
    by (simp add: replace_at_inline [OF request(1) images(2)])
  have "ids_left 7 (wk_runtime st)" using st(2) by (rule ids_left_mono) simp
  note stored = materialized_store [OF run st(1) this st(3,4)]
  show ?thesis
    by (rule that [OF ready L(2) _ _ images(1) enc]) (use L(4) stored N(4) in \<open>simp_all add: gained_def\<close>)
qed


lemma sample_obtained:
  assumes "obtained (sample_materialize_env sample_get_one) sample_services ''http://x.example/a'' f"
  shows "f = \<lparr>fr_mime_type = ''image/webp'', fr_bytes = ''abcde'', fr_from_cache = False\<rparr>"
proof -
  have "normalize_image_mime_type (Some ''image/webp'') ''http://x.example/a'' = ''image/webp''"
    by (simp add: normalize_image_mime_type_def Let_def trim_plain plain_char_def bval_def starts_with_def to_lower_def lower_char_def)
  then show ?thesis using assms sample_obtain(1) by (auto simp: obtained_def)
qed


end
