(* ===== verification/Request_Rewrite.thy ===== *)
theory Request_Rewrite
  imports Request_Materialize
begin

text \<open>
  \<^verbatim>\<open>src/request_rewrite.rs\<close>: the in-memory variant of materializing and encoding, and the
  translation of a Gemini request into the shape the aiapidev provider takes: snake case keys and
  \<^verbatim>\<open>file_data\<close> references in place of image URLs. The translation is proved idempotent and its
  results are in the provider's form.
\<close>

section \<open>Inlining images in memory\<close>

record inline_data_scan =
  is_unique_urls :: "string list"
  is_total_refs :: nat

record rewrite_services =
  rw_max_image_bytes :: nat
  rw_allow_private_networks :: bool
  rw_fetch_service :: "fetch_service option"
  rw_cache_observer :: bool

text \<open>\<open>order\<close> is the iteration order of the \<^verbatim>\<open>HashSet\<close> the URLs are collected from.\<close>

definition scan_inline_data_urls ::
  "(string list \<Rightarrow> string list) \<Rightarrow> json \<Rightarrow> inline_data_scan fallible" where
  "scan_inline_data_urls order body =
     (case scan_request_image_urls body of
        Err e \<Rightarrow> Err e
      | Ok refs \<Rightarrow>
          if MAX_INLINE_DATA_URLS < length refs then Err (Message ''too many inlineData URLs'')
          else Ok \<lparr>is_unique_urls = order (unique_urls (map ir_url refs) {}), is_total_refs = length refs\<rparr>)"

definition compat_blob_runtime :: "string \<Rightarrow> fsys \<Rightarrow> blob_runtime" where
  "compat_blob_runtime spill_dir fs =
     blob_runtime_new
       \<lparr>bc_inline_max_bytes = 8 * 1024 * 1024, bc_request_hot_budget_bytes = 24 * 1024 * 1024,
        bc_global_hot_budget_bytes = 384 * 1024 * 1024, bc_spill_dir = spill_dir\<rparr> fs"

text \<open>The blobs are removed one after the other; the first failure ends the call.\<close>

fun remove_each ::
  "(u64 \<Rightarrow> fault_schedule) \<Rightarrow> blob_handle list \<Rightarrow> blob_runtime \<Rightarrow> unit fallible \<times> blob_runtime" where
  "remove_each io [] rt = (Ok (), rt)"
| "remove_each io (h # hs) rt =
     (case remove_blob rt (io (bh_id h)) h of
        (Err e, rt) \<Rightarrow> (Err (Message e), rt)
      | (Ok _, rt) \<Rightarrow> remove_each io hs rt)"

text \<open>
  \<open>N\<close> is the encoder's environment, whose store is the call's own; \<open>io\<close> are the faults of reading
  the body back and of removing each blob.
\<close>

definition rewrite_request_inline_data ::
  "('u, 'l, 'i) materialize_env \<Rightarrow> encode_env \<Rightarrow> pipe_env \<Rightarrow> (u64 \<Rightarrow> fault_schedule)
   \<Rightarrow> (string list \<Rightarrow> string list) \<Rightarrow> string \<Rightarrow> fsys \<Rightarrow> json \<Rightarrow> rewrite_services \<Rightarrow> 'l fetch_state
   \<Rightarrow> json fallible option \<times> 'l work_state" where
  "rewrite_request_inline_data E N P io order spill_dir files body services fetch_st =
     (let st = \<lparr>wk_service = fetch_st, wk_runtime = compat_blob_runtime spill_dir files, wk_observed = []\<rparr> in
      case scan_inline_data_urls order body of
        Err e \<Rightarrow> (Some (Err e), st)
      | Ok scan \<Rightarrow>
          if is_total_refs scan = 0 then (Some (Ok body), st)
          else
            (case materialize_request_images_with_services E
                \<lparr>ms_max_image_bytes = rw_max_image_bytes services,
                 ms_allow_private_networks = rw_allow_private_networks services,
                 ms_enable_webp_optimization = False, ms_fetch_service = rw_fetch_service services,
                 ms_cache_observer = rw_cache_observer services\<rparr> body st of
               (None, st) \<Rightarrow> (None, st)
             | (Some (Err e), st) \<Rightarrow> (Some (Err e), st)
             | (Some (Ok m), st) \<Rightarrow>
                 (case encode_request_body (N\<lparr>ee_runtime := wk_runtime st\<rparr>) P (mr_request m) (mr_replacements m) of
                    (Err e, rt) \<Rightarrow> (Some (Err e), st\<lparr>wk_runtime := rt\<rparr>)
                  | (Ok encoded, rt) \<Rightarrow>
                      (case read_bytes rt (io (bh_id (eb_body_blob encoded))) (eb_body_blob encoded) of
                         Err e \<Rightarrow> (Some (Err (Message e)), st\<lparr>wk_runtime := rt\<rparr>)
                       | Ok bytes \<Rightarrow>
                           (case remove_each io (map rr_blob (mr_replacements m) @ [eb_body_blob encoded]) rt of
                              (Err e, rt) \<Rightarrow> (Some (Err e), st\<lparr>wk_runtime := rt\<rparr>)
                            | (Ok _, rt) \<Rightarrow>
                                (Some (map_sum Message id (from_slice (ee_serde N) bytes)),
                                 st\<lparr>wk_runtime := rt\<rparr>))))))"

section \<open>The aiapidev form\<close>

definition is_already_wrapped_external_proxy_url :: "string \<Rightarrow> string \<Rightarrow> bool" where
  "is_already_wrapped_external_proxy_url raw_url external_proxy_prefix \<longleftrightarrow>
     starts_with raw_url external_proxy_prefix"

definition maybe_wrap_aiapidev_file_uri :: "'u url_api \<Rightarrow> string \<Rightarrow> string \<Rightarrow> string list \<Rightarrow> string" where
  "maybe_wrap_aiapidev_file_uri U raw_url external_proxy_prefix external_proxy_domains =
     (if external_proxy_prefix = [] \<or> external_proxy_domains = []
         \<or> is_already_wrapped_external_proxy_url raw_url external_proxy_prefix then raw_url
      else (case url_parse U raw_url of
          Err _ \<Rightarrow> raw_url
        | Ok parsed \<Rightarrow>
            if \<not> hostname_matches_domain_patterns (host_or_empty U parsed) external_proxy_domains then raw_url
            else external_proxy_prefix
              @ byte_serialize U (url_text U (url_set_fragment U None (url_set_query U None parsed)))))"

definition rewrite_inline_data_payload ::
  "'u url_api \<Rightarrow> string \<Rightarrow> string list \<Rightarrow> jobject \<Rightarrow> (string \<times> json) option" where
  "rewrite_inline_data_payload U external_proxy_prefix external_proxy_domains m =
     (case opt_or (obj_get m ''inlineData'') (obj_get m ''inline_data'') of
        Some (JObject inline_data) \<Rightarrow>
          (case obj_get inline_data ''data'' of
             Some (JString data) \<Rightarrow>
               (let mime_type = unwrap_or
                      (Option.bind (opt_or (obj_get inline_data ''mimeType'') (obj_get inline_data ''mime_type'')) as_str)
                      ''image/png''
                in Some (if is_http_url data
                   then (''file_data'', JObject
                     [(''file_uri'', JString (maybe_wrap_aiapidev_file_uri U data external_proxy_prefix external_proxy_domains)),
                      (''mime_type'', JString mime_type)])
                   else (''inline_data'', JObject [(''data'', JString data), (''mime_type'', JString mime_type)])))
           | _ \<Rightarrow> None)
      | _ \<Rightarrow> None)"

definition rewrite_aiapidev_key :: "string \<Rightarrow> string" where
  "rewrite_aiapidev_key key =
     (if key = ''generationConfig'' then ''generation_config''
      else if key = ''imageConfig'' then ''image_config''
      else if key = ''responseModalities'' then ''response_modalities''
      else if key = ''aspectRatio'' then ''aspect_ratio''
      else if key = ''imageSize'' then ''image_size''
      else key)"

definition insert_all :: "jobject \<Rightarrow> jobject \<Rightarrow> jobject" where
  "insert_all xs out = foldl (\<lambda>out (k, v). obj_insert k v out) out xs"

definition insert_opt :: "string \<Rightarrow> json option \<Rightarrow> jobject \<Rightarrow> jobject" where
  "insert_opt k v out = (case v of None \<Rightarrow> out | Some v \<Rightarrow> obj_insert k v out)"

text \<open>
  The object built from the rewritten children (which keep the original keys): below \<^verbatim>\<open>/contents/\<close>
  the members \<^verbatim>\<open>role\<close> and \<^verbatim>\<open>parts\<close> come first.
\<close>

definition assemble :: "string \<Rightarrow> jobject \<Rightarrow> jobject" where
  "assemble path children =
     (if starts_with path ''/contents/'' then
        insert_all
          (map (\<lambda>(k, v). (rewrite_aiapidev_key k, v)) (filter (\<lambda>(k, v). k \<notin> {''role'', ''parts''}) children))
          (insert_opt ''parts'' (obj_get children ''parts'')
             (insert_opt ''role'' (obj_get children ''role'') []))
      else insert_all (map (\<lambda>(k, v). (rewrite_aiapidev_key k, v)) children) [])"

function (sequential) rewrite_aiapidev_value ::
  "'u url_api \<Rightarrow> string \<Rightarrow> string list \<Rightarrow> json \<Rightarrow> string \<Rightarrow> json"
and rewrite_children :: "'u url_api \<Rightarrow> string \<Rightarrow> string list \<Rightarrow> jobject \<Rightarrow> string \<Rightarrow> jobject"
and rewrite_array :: "'u url_api \<Rightarrow> string \<Rightarrow> string list \<Rightarrow> json list \<Rightarrow> nat \<Rightarrow> string \<Rightarrow> json list" where
  "rewrite_aiapidev_value U pre doms (JObject m) path =
     (case rewrite_inline_data_payload U pre doms m of
        Some (key, payload) \<Rightarrow> JObject [(key, payload)]
      | None \<Rightarrow> JObject (assemble path (rewrite_children U pre doms m path)))"
| "rewrite_aiapidev_value U pre doms (JArray items) path = JArray (rewrite_array U pre doms items 0 path)"
| "rewrite_aiapidev_value U pre doms v path = v"
| "rewrite_children U pre doms [] path = []"
| "rewrite_children U pre doms ((key, child) # m) path =
     (key, rewrite_aiapidev_value U pre doms child
             (path @ ''/'' @ escape_json_pointer_token (rewrite_aiapidev_key key)))
     # rewrite_children U pre doms m path"
| "rewrite_array U pre doms [] index path = []"
| "rewrite_array U pre doms (item # items) index path =
     rewrite_aiapidev_value U pre doms item (path @ ''/'' @ show_nat index)
     # rewrite_array U pre doms items (index + 1) path"
  by pat_completeness auto
termination
  by (relation "measure (\<lambda>x. case x of
        Inl (_, _, _, v, _) \<Rightarrow> size v
      | Inr (Inl (_, _, _, m, _)) \<Rightarrow> size_list (size_prod (\<lambda>_. 0) size) m
      | Inr (Inr (_, _, _, xs, _)) \<Rightarrow> size_list size xs)") auto

definition strip_output_fields :: "json \<Rightarrow> json" where
  "strip_output_fields body = strip_output_from_value body"

definition rewrite_aiapidev_request_body :: "'u url_api \<Rightarrow> json \<Rightarrow> string \<Rightarrow> string list \<Rightarrow> json" where
  "rewrite_aiapidev_request_body U body external_proxy_prefix external_proxy_domains =
     rewrite_aiapidev_value U external_proxy_prefix external_proxy_domains (strip_output_fields body) []"

section \<open>Building objects\<close>

lemma insert_all_simps [simp]:
  "insert_all [] out = out" "insert_all ((k, v) # xs) out = insert_all xs (obj_insert k v out)"
  by (simp_all add: insert_all_def)

lemma keys_insert_all: "fst ` set (insert_all xs out) = fst ` set out \<union> fst ` set xs"
proof (induction xs arbitrary: out)
  case (Cons x xs)
  then show ?case by (cases x) (simp add: keys_obj_insert)
qed simp

lemma distinct_insert_all: "distinct (map fst out) \<Longrightarrow> distinct (map fst (insert_all xs out))"
  by (induction xs arbitrary: out) (auto simp: distinct_obj_insert)

lemma set_insert_all: "set (insert_all xs out) \<subseteq> set out \<union> set xs"
proof (induction xs arbitrary: out)
  case (Cons x xs)
  show ?case using Cons [of "obj_insert (fst x) (snd x) out"] set_obj_insert [of "fst x" "snd x" out]
    by (cases x) auto
qed simp

lemma obj_insert_new: "k \<notin> fst ` set m \<Longrightarrow> obj_insert k v m = m @ [(k, v)]"
  by (induction m) auto

lemma obj_insert_append: "k \<notin> fst ` set a \<Longrightarrow> obj_insert k v (a @ b) = a @ obj_insert k v b"
  by (induction a) auto

lemma insert_all_append: "fst ` set xs \<inter> fst ` set a = {} \<Longrightarrow> insert_all xs (a @ b) = a @ insert_all xs b"
  by (induction xs arbitrary: b) (auto simp: obj_insert_append)

lemma insert_all_fresh:
  "distinct (map fst xs) \<Longrightarrow> fst ` set xs \<inter> fst ` set out = {} \<Longrightarrow> insert_all xs out = out @ xs"
proof (induction xs arbitrary: out)
  case (Cons x xs)
  then show ?case by (cases x) (auto simp: obj_insert_new image_iff)
qed simp

definition camel_keys :: "string set" where
  "camel_keys = {''generationConfig'', ''imageConfig'', ''responseModalities'', ''aspectRatio'', ''imageSize''}"

lemma rewrite_key_idem [simp]: "rewrite_aiapidev_key (rewrite_aiapidev_key k) = rewrite_aiapidev_key k"
  by (simp add: rewrite_aiapidev_key_def)

lemma rewrite_key_fixed_iff: "rewrite_aiapidev_key k = k \<longleftrightarrow> k \<notin> camel_keys"
  by (auto simp: rewrite_aiapidev_key_def camel_keys_def)

lemma rewrite_key_eq_iff:
  "k' \<in> {''role'', ''parts'', ''inlineData'', ''inline_data'', ''data''} \<Longrightarrow> rewrite_aiapidev_key k = k' \<longleftrightarrow> k = k'"
proof (cases "k \<in> camel_keys")
  case True
  then have "rewrite_aiapidev_key k \<in> {''generation_config'', ''image_config'', ''response_modalities'', ''aspect_ratio'', ''image_size''}"
    unfolding camel_keys_def by (elim insertE emptyE) (simp_all add: rewrite_aiapidev_key_def)
  then show "k' \<in> {''role'', ''parts'', ''inlineData'', ''inline_data'', ''data''} \<Longrightarrow> ?thesis"
    using True unfolding camel_keys_def by (elim insertE emptyE) simp_all
qed (simp add: rewrite_key_fixed_iff [THEN iffD2])

lemmas rewrite_key_special =
  rewrite_key_eq_iff [of "''role''", simplified] rewrite_key_eq_iff [of "''parts''", simplified]
  rewrite_key_eq_iff [of "''inlineData''", simplified] rewrite_key_eq_iff [of "''inline_data''", simplified]
  rewrite_key_eq_iff [of "''data''", simplified]

text \<open>What an assembled object looks like, and which objects are assembled from themselves.\<close>

definition role_parts :: "jobject \<Rightarrow> jobject" where
  "role_parts m = insert_opt ''parts'' (obj_get m ''parts'') (insert_opt ''role'' (obj_get m ''role'') [])"

definition other_members :: "jobject \<Rightarrow> jobject" where
  "other_members m = filter (\<lambda>(k, v). k \<notin> {''role'', ''parts''}) m"

definition assembled :: "string \<Rightarrow> jobject \<Rightarrow> bool" where
  "assembled path m \<longleftrightarrow>
     distinct (map fst m) \<and> fst ` set m \<inter> camel_keys = {}
     \<and> (starts_with path ''/contents/'' \<longrightarrow> m = role_parts m @ other_members m)"

lemma role_parts_cases:
  "role_parts m = (case obj_get m ''role'' of None \<Rightarrow> [] | Some v \<Rightarrow> [(''role'', v)])
     @ (case obj_get m ''parts'' of None \<Rightarrow> [] | Some v \<Rightarrow> [(''parts'', v)])"
  by (auto simp: role_parts_def insert_opt_def split: option.splits)

lemma map_key_fixed: "fst ` set m \<inter> camel_keys = {} \<Longrightarrow> map (\<lambda>(k, v). (rewrite_aiapidev_key k, v)) m = m"
proof (rule map_idI)
  fix e
  assume "fst ` set m \<inter> camel_keys = {}" "e \<in> set m"
  then have "fst e \<notin> camel_keys" by blast
  then show "(\<lambda>(k, v). (rewrite_aiapidev_key k, v)) e = e"
    by (cases e) (simp add: rewrite_key_fixed_iff)
qed

lemma role_parts_other_disjoint: "fst ` set (other_members m) \<inter> fst ` set (role_parts m) = {}"
  by (auto simp: other_members_def role_parts_cases split: option.splits)

lemma assemble_assembled_id:
  assumes "assembled path m"
  shows "assemble path m = m"
proof (cases "starts_with path ''/contents/''")
  case True
  have d: "distinct (map fst (other_members m))" "fst ` set (other_members m) \<inter> camel_keys = {}"
    using assms by (auto simp: assembled_def other_members_def distinct_map_filter)
  have "assemble path m = insert_all (other_members m) (role_parts m)"
    using True map_key_fixed [OF d(2)] by (simp add: assemble_def role_parts_def other_members_def)
  also have "\<dots> = role_parts m @ other_members m"
    by (rule insert_all_fresh [OF d(1) role_parts_other_disjoint])
  also have "\<dots> = m" using assms True by (simp add: assembled_def)
  finally show ?thesis .
next
  case False
  with assms show ?thesis
    by (simp add: assemble_def assembled_def map_key_fixed insert_all_fresh)
qed

lemma role_parts_distinct: "distinct (map fst (role_parts m))" "fst ` set (role_parts m) \<subseteq> {''role'', ''parts''}"
  by (auto simp: role_parts_cases split: option.splits)

lemma disjoint_mono: "A \<inter> B = {} \<Longrightarrow> C \<subseteq> B \<Longrightarrow> A \<inter> C = {}"
  by auto

lemma image_disjoint: "(\<And>x. x \<in> A \<Longrightarrow> f x \<notin> B) \<Longrightarrow> f ` A \<inter> B = {}"
  by auto

lemma rewritten_keys: "fst ` set (map (\<lambda>(k, v). (rewrite_aiapidev_key k, v)) m) = rewrite_aiapidev_key ` fst ` set m"
  by force

lemma rewrite_key_not_camel: "rewrite_aiapidev_key k \<notin> camel_keys"
  using rewrite_key_idem [of k] rewrite_key_fixed_iff [of "rewrite_aiapidev_key k"] by blast

lemma other_role_parts:
  assumes "fst ` set b \<inter> {''role'', ''parts''} = {}"
  shows "role_parts (role_parts m @ b) = role_parts m" "other_members (role_parts m @ b) = b"
proof -
  have "map_of b ''role'' = None" "map_of b ''parts'' = None"
    using assms by (auto simp: map_of_eq_None_iff)
  then show "role_parts (role_parts m @ b) = role_parts m"
    by (auto simp: role_parts_cases map_add_def split: option.splits)
  have "filter (\<lambda>(k, v). k \<notin> {''role'', ''parts''}) b = b"
    using assms by (intro filter_True) force
  moreover have "filter (\<lambda>(k, v). k \<notin> {''role'', ''parts''}) (role_parts m) = []"
    by (auto simp: role_parts_cases split: option.splits)
  ultimately show "other_members (role_parts m @ b) = b" by (simp add: other_members_def)
qed

lemma assemble_assembled: "assembled path (assemble path m)"
proof (cases "starts_with path ''/contents/''")
  case True
  let ?xs = "map (\<lambda>(k, v). (rewrite_aiapidev_key k, v)) (other_members m)"
  have "rewrite_aiapidev_key k \<notin> {''role'', ''parts''}" if "k \<in> fst ` set (other_members m)" for k
  proof -
    have "k \<notin> {''role'', ''parts''}" using that by (auto simp: other_members_def)
    then show ?thesis by (simp add: rewrite_key_special)
  qed
  then have dis: "fst ` set ?xs \<inter> {''role'', ''parts''} = {}"
    unfolding rewritten_keys by (rule image_disjoint)
  then have "fst ` set ?xs \<inter> fst ` set (role_parts m) = {}" by (rule disjoint_mono [OF _ role_parts_distinct(2)])
  from insert_all_append [OF this, of "[]"] True
  have eq: "assemble path m = role_parts m @ insert_all ?xs []"
    by (simp add: assemble_def role_parts_def other_members_def)
  have keys: "fst ` set (insert_all ?xs []) \<inter> {''role'', ''parts''} = {}"
    using dis by (simp add: keys_insert_all)
  show ?thesis
    unfolding assembled_def
  proof (intro conjI impI)
    show "distinct (map fst (assemble path m))"
      using role_parts_distinct(1) distinct_insert_all [of "[]" ?xs] disjoint_mono [OF keys role_parts_distinct(2)]
      by (simp add: eq Int_commute)
    show "fst ` set (assemble path m) \<inter> camel_keys = {}"
    proof -
      have "camel_keys \<inter> {''role'', ''parts''} = {}" by (simp add: camel_keys_def)
      from disjoint_mono [OF this role_parts_distinct(2)] have "fst ` set (role_parts m) \<inter> camel_keys = {}"
        by (simp only: Int_commute)
      moreover have "fst ` set ?xs \<inter> camel_keys = {}"
        unfolding rewritten_keys by (rule image_disjoint [OF rewrite_key_not_camel])
      ultimately show ?thesis
        by (simp only: eq set_append image_Un keys_insert_all Int_Un_distrib2 Un_empty list.set image_empty Int_empty_left simp_thms)
    qed
    show "assemble path m = role_parts (assemble path m) @ other_members (assemble path m)"
      unfolding eq other_role_parts [OF keys] ..
  qed
next
  case False
  then have eq: "assemble path m = insert_all (map (\<lambda>(k, v). (rewrite_aiapidev_key k, v)) m) []"
    by (simp add: assemble_def)
  show ?thesis
    unfolding assembled_def
  proof (intro conjI impI)
    show "distinct (map fst (assemble path m))" unfolding eq by (intro distinct_insert_all) simp
    show "fst ` set (assemble path m) \<inter> camel_keys = {}"
      unfolding eq keys_insert_all rewritten_keys by (simp add: image_disjoint [OF rewrite_key_not_camel])
  qed (use False in simp)
qed

section \<open>The translation once and twice\<close>

text \<open>An image object, as the sources spell it.\<close>

definition image_payload :: "jobject \<Rightarrow> jobject option" where
  "image_payload m =
     (case opt_or (obj_get m ''inlineData'') (obj_get m ''inline_data'') of
        Some (JObject d) \<Rightarrow> (case obj_get d ''data'' of Some (JString _) \<Rightarrow> Some d | _ \<Rightarrow> None)
      | _ \<Rightarrow> None)"

lemma payload_None_iff: "rewrite_inline_data_payload U pre doms m = None \<longleftrightarrow> image_payload m = None"
  by (auto simp: rewrite_inline_data_payload_def image_payload_def Let_def split: option.splits json.splits)

lemma payload_cases:
  "rewrite_inline_data_payload U pre doms m = Some (k, x) \<Longrightarrow>
     (\<exists>uri mime. k = ''file_data'' \<and> x = JObject [(''file_uri'', JString uri), (''mime_type'', JString mime)])
   \<or> (\<exists>d mime. k = ''inline_data'' \<and> \<not> is_http_url d
        \<and> x = JObject [(''data'', JString d), (''mime_type'', JString mime)])"
  by (auto simp: rewrite_inline_data_payload_def Let_def split: option.splits json.splits if_splits)

lemma rewrite_children_map:
  "rewrite_children U pre doms m path =
     map (\<lambda>(k, x). (k, rewrite_aiapidev_value U pre doms x
       (path @ ''/'' @ escape_json_pointer_token (rewrite_aiapidev_key k)))) m"
  by (induction m) auto

lemma rewrite_array_map:
  "rewrite_array U pre doms xs i path =
     map (\<lambda>j. rewrite_aiapidev_value U pre doms (xs ! j) (path @ ''/'' @ show_nat (i + j))) [0..<length xs]"
proof (induction xs arbitrary: i)
  case (Cons x xs)
  have "[0..<length (x # xs)] = 0 # map Suc [0..<length xs]"
    by (simp add: map_Suc_upt upt_conv_Cons del: upt_Suc)
  then show ?case by (simp add: Cons del: upt_Suc)
qed simp

lemma map_of_rewrite_children:
  "map_of (rewrite_children U pre doms m path) k =
     map_option (\<lambda>x. rewrite_aiapidev_value U pre doms x
       (path @ ''/'' @ escape_json_pointer_token (rewrite_aiapidev_key k))) (map_of m k)"
  by (induction m) auto

lemma keys_rewrite_children [simp]: "map fst (rewrite_children U pre doms m path) = map fst m"
  by (induction m) auto

text \<open>Lookups of keys that the translation does not touch.\<close>

lemma map_of_insert_all: "map_of (insert_all xs out) k = opt_or (map_of (rev xs) k) (map_of out k)"
proof (induction xs arbitrary: out)
  case (Cons x xs)
  then show ?case by (cases x) (auto simp: map_add_def split: option.splits)
qed simp

lemma map_of_rev_keys:
  assumes "distinct (map fst m)" "\<And>k'. f k' = k \<longleftrightarrow> k' = k"
  shows "map_of (rev (map (\<lambda>(k, v). (f k, v)) m)) k = map_of m k"
  using assms(1)
proof (induction m)
  case (Cons e m)
  have "map_of m k = None" if "fst e = k" using Cons.prems that by (auto simp: map_of_eq_None_iff)
  moreover have "f k = k" using assms(2) [of k] by simp
  moreover have "f k' \<noteq> k" if "k' \<noteq> k" for k' using assms(2) that by simp
  ultimately show ?case using Cons
    by (cases e) (auto simp: map_add_def split: option.splits)
qed simp

lemma assemble_eq:
  "assemble path m =
     (if starts_with path ''/contents/''
      then insert_all (map (\<lambda>(k, v). (rewrite_aiapidev_key k, v)) (other_members m)) (role_parts m)
      else insert_all (map (\<lambda>(k, v). (rewrite_aiapidev_key k, v)) m) [])"
  by (simp add: assemble_def role_parts_def other_members_def)

lemma map_of_filter_key: "P k \<Longrightarrow> map_of (filter (\<lambda>(k, v). P k) m) k = map_of m k"
  by (induction m) auto

lemma map_of_assemble:
  assumes "distinct (map fst m)" and k: "k \<in> {''inlineData'', ''inline_data'', ''data''}"
  shows "map_of (assemble path m) k = map_of m k"
proof -
  have key: "rewrite_aiapidev_key k' = k \<longleftrightarrow> k' = k" for k'
    using k by (elim insertE emptyE) (simp_all add: rewrite_key_special)
  have "map_of (role_parts m) k = None"
    using k by (elim insertE emptyE) (auto simp: role_parts_cases split: option.splits)
  moreover have "map_of (other_members m) k = map_of m k"
    using k by (elim insertE emptyE) (auto simp: other_members_def map_of_filter_key)
  moreover have "distinct (map fst (other_members m))"
    using assms(1) by (simp add: other_members_def distinct_map_filter)
  ultimately show ?thesis
    using map_of_rev_keys [OF assms(1) key] map_of_rev_keys [of "other_members m", OF _ key]
    by (cases "map_of m k")
      (simp_all add: assemble_eq map_of_insert_all)
qed

lemma rewrite_shape:
  "(\<exists>m. rewrite_aiapidev_value U pre doms v p = JObject m) \<longleftrightarrow> (\<exists>m. v = JObject m)"
  "rewrite_aiapidev_value U pre doms v p = JString s \<longleftrightarrow> v = JString s"
  by (cases v; auto split: option.splits)+

text \<open>The translation of an object that is not an image is not an image.\<close>

lemma no_image_after_rewrite:
  assumes wf: "json_wf (JObject m)" and no: "image_payload m = None"
  shows "image_payload (assemble path (rewrite_children U pre doms m path)) = None"
proof -
  let ?rs = "rewrite_children U pre doms m path"
  have d: "distinct (map fst ?rs)" using wf by simp
  let ?i = "opt_or (obj_get m ''inlineData'') (obj_get m ''inline_data'')"
  have i: "opt_or (obj_get (assemble path ?rs) ''inlineData'') (obj_get (assemble path ?rs) ''inline_data'')
      = (case ?i of None \<Rightarrow> None | Some x \<Rightarrow> Some (rewrite_aiapidev_value U pre doms x
          (path @ ''/'' @ escape_json_pointer_token (if obj_get m ''inlineData'' = None then ''inline_data'' else ''inlineData''))))"
    by (auto simp: map_of_assemble [OF d] map_of_rewrite_children rewrite_aiapidev_key_def split: option.splits)
  show ?thesis
  proof (rule ccontr)
    assume "image_payload (assemble path ?rs) \<noteq> None"
    then obtain d' t where d': "opt_or (obj_get (assemble path ?rs) ''inlineData'')
        (obj_get (assemble path ?rs) ''inline_data'') = Some (JObject d')" "obj_get d' ''data'' = Some (JString t)"
      by (auto simp: image_payload_def split: option.splits json.splits)
    then obtain x p' where x: "?i = Some x" "rewrite_aiapidev_value U pre doms x p' = JObject d'"
      unfolding i by (auto split: option.splits)
    then obtain e where e: "x = JObject e" using rewrite_shape(1) by metis
    have "json_wf x" using wf x(1) by (auto simp: fields_wf_iff opt_or_def dest!: map_of_SomeD split: option.splits)
    then have de: "distinct (map fst e)" by (simp add: e)
    have "image_payload m \<noteq> None"
    proof (cases "rewrite_inline_data_payload U pre doms e")
      case None
      with x(2) e have "d' = assemble p' (rewrite_children U pre doms e p')" by simp
      with d'(2) de have "map_option (\<lambda>x. rewrite_aiapidev_value U pre doms x
          (p' @ ''/'' @ escape_json_pointer_token (rewrite_aiapidev_key ''data''))) (map_of e ''data'') = Some (JString t)"
        by (simp add: map_of_assemble map_of_rewrite_children)
      then have "map_of e ''data'' = Some (JString t)" using rewrite_shape(2) [of U pre doms] by auto
      with x(1) e show ?thesis by (simp add: image_payload_def)
    next
      case (Some kx)
      with x(2) e d'(2) payload_cases [of U pre doms e "fst kx" "snd kx"] show ?thesis by auto
    qed
    with no show False by simp
  qed
qed

lemma set_assemble:
  "(k, w) \<in> set (assemble path m) \<Longrightarrow> \<exists>k0. (k0, w) \<in> set m \<and> rewrite_aiapidev_key k0 = k"
proof -
  have rp: "(k, w) \<in> set (role_parts m) \<Longrightarrow> (k, w) \<in> set m \<and> rewrite_aiapidev_key k = k"
    by (auto simp: role_parts_cases rewrite_key_special split: option.splits dest!: sym [of "Some _"] dest: map_of_SomeD)
  assume "(k, w) \<in> set (assemble path m)"
  then have "(k, w) \<in> set (role_parts m) \<or> (k, w) \<in> set (map (\<lambda>(k, v). (rewrite_aiapidev_key k, v)) m)"
    using set_insert_all [of "map (\<lambda>(k, v). (rewrite_aiapidev_key k, v)) (other_members m)" "role_parts m"]
      set_insert_all [of "map (\<lambda>(k, v). (rewrite_aiapidev_key k, v)) m" "[]"]
    by (auto simp: assemble_eq other_members_def split: if_splits)
  with rp show ?thesis by fastforce
qed

lemma rewrite_payload_fixed:
  assumes "rewrite_inline_data_payload U pre doms m = Some (k, x)"
  shows "rewrite_aiapidev_value U pre doms (JObject [(k, x)]) path = JObject [(k, x)]"
  using payload_cases [OF assms]
proof (elim disjE exE conjE)
  fix uri mime
  assume "k = ''file_data''" "x = JObject [(''file_uri'', JString uri), (''mime_type'', JString mime)]"
  then show ?thesis
    by (simp add: rewrite_inline_data_payload_def assemble_def insert_opt_def rewrite_aiapidev_key_def)
next
  fix d mime
  assume "k = ''inline_data''" "\<not> is_http_url d" "x = JObject [(''data'', JString d), (''mime_type'', JString mime)]"
  then show ?thesis by (simp add: rewrite_inline_data_payload_def)
qed

lemma rewrite_idem:
  "json_wf v \<Longrightarrow> rewrite_aiapidev_value U pre doms (rewrite_aiapidev_value U pre doms v path) path
     = rewrite_aiapidev_value U pre doms v path"
proof (induction v arbitrary: path rule: json_induct)
  case (JArray xs)
  have "rewrite_aiapidev_value U pre doms (rewrite_aiapidev_value U pre doms (xs ! j) p) p
      = rewrite_aiapidev_value U pre doms (xs ! j) p" if "j < length xs" for j p
    using JArray.IH [of "xs ! j" p] JArray.prems that by (simp add: items_wf_iff)
  then show ?case by (simp add: rewrite_array_map)
next
  case (JObject m)
  let ?rw = "rewrite_aiapidev_value U pre doms"
  show ?case
  proof (cases "rewrite_inline_data_payload U pre doms m")
    case None
    let ?out = "assemble path (rewrite_children U pre doms m path)"
    have rw: "?rw (JObject m) path = JObject ?out" using None by simp
    have none: "rewrite_inline_data_payload U pre doms ?out = None"
      using no_image_after_rewrite [OF JObject.prems] None by (simp add: payload_None_iff)
    have "?rw w (path @ ''/'' @ escape_json_pointer_token (rewrite_aiapidev_key k)) = w"
      if kw: "(k, w) \<in> set ?out" for k w
    proof -
      from set_assemble [OF kw] obtain k0 x where "(k0, x) \<in> set m" "rewrite_aiapidev_key k0 = k"
        "w = ?rw x (path @ ''/'' @ escape_json_pointer_token k)"
        by (auto simp: rewrite_children_map)
      moreover from this(2) have "rewrite_aiapidev_key k = k" by auto
      moreover have "json_wf x" using JObject.prems calculation(1) by (auto simp: fields_wf_iff)
      ultimately show ?thesis using JObject.IH by simp
    qed
    then have "rewrite_children U pre doms ?out path = ?out"
      unfolding rewrite_children_map by (intro map_idI) (auto split: prod.splits)
    then have "?rw (JObject ?out) path = JObject ?out"
      using none assemble_assembled_id [OF assemble_assembled] by simp
    then show ?thesis by (simp only: rw)
  next
    case (Some kx)
    then obtain k x where kx: "rewrite_inline_data_payload U pre doms m = Some (k, x)" by (cases kx) auto
    then have "?rw (JObject m) path = JObject [(k, x)]" by simp
    then show ?thesis using rewrite_payload_fixed [OF kx] by (simp only:)
  qed
qed simp_all

text \<open>All keys of a value.\<close>

fun json_keys :: "json \<Rightarrow> string set"
and field_keys :: "jobject \<Rightarrow> string set"
and item_keys :: "json list \<Rightarrow> string set" where
  "json_keys (JObject m) = field_keys m"
| "json_keys (JArray xs) = item_keys xs"
| "json_keys v = {}"
| "field_keys [] = {}"
| "field_keys ((k, x) # m) = insert k (json_keys x) \<union> field_keys m"
| "item_keys [] = {}"
| "item_keys (x # xs) = json_keys x \<union> item_keys xs"

lemma field_keys_def': "field_keys m = fst ` set m \<union> (\<Union>(k, x) \<in> set m. json_keys x)"
proof (induction m)
  case (Cons e m)
  then show ?case by (cases e) (simp add: Un_ac)
qed simp

lemma item_keys_def': "item_keys xs = (\<Union>x \<in> set xs. json_keys x)"
  by (induction xs) auto

lemma rewrite_no_camel_keys: "json_keys (rewrite_aiapidev_value U pre doms v path) \<inter> camel_keys = {}"
proof (induction v arbitrary: path rule: json_induct)
  case (JArray xs)
  have "c \<notin> json_keys (rewrite_aiapidev_value U pre doms (xs ! j) p)" if "j < length xs" "c \<in> camel_keys" for j p c
    using JArray [of "xs ! j" p] that by auto
  then show ?case by (auto simp: rewrite_array_map item_keys_def')
next
  case (JObject m)
  show ?case
  proof (cases "rewrite_inline_data_payload U pre doms m")
    case None
    let ?out = "assemble path (rewrite_children U pre doms m path)"
    have "json_keys w \<inter> camel_keys = {}" if "(k, w) \<in> set ?out" for k w
      using set_assemble [OF that] JObject.IH by (auto simp: rewrite_children_map)
    moreover have "fst ` set ?out \<inter> camel_keys = {}"
      using assemble_assembled [of path "rewrite_children U pre doms m path"] by (simp add: assembled_def)
    ultimately show ?thesis using None by (auto simp: field_keys_def')
  next
    case (Some kx)
    then obtain k x where kx: "rewrite_inline_data_payload U pre doms m = Some (k, x)" by (cases kx) auto
    from payload_cases [OF kx] show ?thesis
      by (elim disjE exE conjE) (simp_all add: kx camel_keys_def)
  qed
qed simp_all

text \<open>No image reference is left for the scan to find.\<close>

lemma inline_url_image: "inline_url m = Some u \<Longrightarrow> image_payload m \<noteq> None"
  by (auto simp: inline_url_def image_payload_def split: option.splits json.splits if_splits)

lemma rewrite_no_refs: "json_wf v \<Longrightarrow> inline_refs (rewrite_aiapidev_value U pre doms v path) p = []"
proof (induction v arbitrary: path p rule: json_induct)
  case (JArray xs)
  have "inline_refs (rewrite_aiapidev_value U pre doms (xs ! j) q) r = []" if "j < length xs" for j q r
    using JArray.IH [of "xs ! j"] JArray.prems that by (simp add: items_wf_iff)
  then have "set (item_refs (rewrite_array U pre doms xs 0 path) 0 p) = {}"
    by (simp add: set_item_refs rewrite_array_map)
  then show ?case by simp
next
  case (JObject m)
  show ?case
  proof (cases "rewrite_inline_data_payload U pre doms m")
    case None
    let ?out = "assemble path (rewrite_children U pre doms m path)"
    have "image_payload ?out = None"
      using no_image_after_rewrite [OF JObject.prems] None by (simp add: payload_None_iff)
    then have "inline_url ?out = None" using inline_url_image by (cases "inline_url ?out") auto
    moreover have "inline_refs w q = []" if "(k, w) \<in> set ?out" for k w q
      using set_assemble [OF that] JObject.IH JObject.prems by (auto simp: rewrite_children_map fields_wf_iff)
    then have "set (field_refs ?out p) = {}" by (auto simp: set_field_refs)
    ultimately show ?thesis using None by simp
  next
    case (Some kx)
    then obtain k x where kx: "rewrite_inline_data_payload U pre doms m = Some (k, x)" by (cases kx) auto
    from payload_cases [OF kx] show ?thesis
      by (elim disjE exE conjE) (simp_all add: kx inline_url_def)
  qed
qed simp_all

lemma json_wf_jpointer_update:
  "json_wf v \<Longrightarrow> (\<And>x. json_wf x \<Longrightarrow> json_wf (f x)) \<Longrightarrow> json_wf (jpointer_update ts f v)"
proof (induction ts f v rule: jpointer_update.induct)
  case (2 t ts f m)
  show ?case
  proof (cases "obj_get m t")
    case (Some w)
    then have "json_wf w" using "2.prems"(1) by (auto simp: fields_wf_iff dest!: map_of_SomeD)
    with 2 Some show ?thesis
      unfolding jpointer_update.simps Some option.case by (intro json_wf_insert) auto
  qed (use "2.prems" in simp)
next
  case (3 t ts f xs)
  then show ?case by (auto simp: items_wf_iff set_conv_nth nth_list_update split: option.splits)
qed auto

lemma json_wf_strip_output: "json_wf v \<Longrightarrow> json_wf (strip_output_from_value v)"
proof -
  have "json_wf x \<Longrightarrow> json_wf (remove_output x)" for x
    by (cases x) (auto simp: remove_output_def json_wf_remove distinct_obj_remove fields_wf_remove)
  then show "json_wf v \<Longrightarrow> json_wf (strip_output_from_value v)"
    by (simp add: strip_output_from_value_def Let_def json_wf_jpointer_update)
qed

section \<open>Properties\<close>



section \<open>The in-memory variant\<close>

lemma remove_each_inv:
  assumes "remove_each io hs rt = (Ok (), rt')" "blob_inv rt H"
    and "\<forall>h \<in> set hs. h \<in> H \<or> bh_id h \<in> br_removed rt"
  shows "blob_inv rt' (H - set hs)"
  using assms
proof (induction hs arbitrary: rt H)
  case (Cons h hs)
  obtain r rt1 where rm: "remove_blob rt (io (bh_id h)) h = (r, rt1)" by (cases "remove_blob rt (io (bh_id h)) h")
  with Cons.prems(1) have rest: "remove_each io hs rt1 = (Ok (), rt')" by (auto split: sum.splits)
  show ?case
  proof (cases "h \<in> H")
    case True
    note st = remove_blob_state [OF Cons.prems(2) True rm] and inv = remove_blob_inv [OF Cons.prems(2) True rm]
    have "blob_inv rt' ((H - {h}) - set hs)"
      using Cons.prems(3) st by (intro Cons.IH [OF rest conjunct1 [OF inv]]) auto
    moreover have "(H - {h}) - set hs = H - set (h # hs)" by auto
    ultimately show ?thesis by simp
  next
    case False
    with Cons.prems(3) rm have "rt1 = rt" by (simp add: remove_blob_def)
    with Cons rest have "blob_inv rt' (H - set hs)" by auto
    with False show ?thesis by simp
  qed
qed simp

lemma map_sum_Ok_iff: "map_sum f id r = Ok x \<longleftrightarrow> r = Ok x"
  by (cases r) auto



lemma remove_each_no_faults: "\<exists>rt'. remove_each (\<lambda>_. no_faults) hs rt = (Ok (), rt')"
proof (induction hs arbitrary: rt)
  case (Cons h hs)
  have "\<exists>rt1. remove_blob rt no_faults h = (Ok (), rt1)"
    by (auto simp: remove_blob_def no_faults_def Let_def split: blob_storage.splits)
  with Cons show ?case by auto
qed simp

definition sample_compat_work :: "(string, memory_entry) lru_state work_state" where
  "sample_compat_work =
     \<lparr>wk_service = sample_state, wk_runtime = compat_blob_runtime ''/spill'' (\<lambda>_. None), wk_observed = []\<rparr>"

lemma sample_compat_run:
  "\<exists>m st. materialize_request_images_with_services (sample_materialize_env sample_get_one) sample_services
       one_image sample_compat_work = (Some (Ok m), st) \<and> br_next_id (wk_runtime st) = 2"
proof -
  obtain st where "obtain_image (sample_materialize_env sample_get_one) sample_services ''http://x.example/a'' sample_compat_work
     = (Some (Ok \<lparr>fr_mime_type = normalize_image_mime_type (Some ''image/webp'') ''http://x.example/a'',
                 fr_bytes = ''abcde'', fr_from_cache = False\<rparr>), sample_compat_work)"
    using sample_obtain(1) [of sample_compat_work] sample_obtain(3) [of "''http://x.example/a''" sample_compat_work]
    by (metis prod.collapse)
  then obtain fb st where f: "fetch_request_image (sample_materialize_env sample_get_one) sample_services
      ''http://x.example/a'' sample_compat_work = (Some (Ok (''http://x.example/a'', fb)), st)" "br_next_id (wk_runtime st) = 2"
    by (simp add: fetch_request_image_def store_image_def lift_blob_error_def sample_compat_work_def
        compat_blob_runtime_def sample_materialize_env_def store_eval)
  have ord: "mv_order (sample_materialize_env sample_get_one) us = us" for us
    by (simp add: sample_materialize_env_def)
  show ?thesis
    using f by (simp add: materialize_request_images_with_services_def scan_eq_refs within_limit_def
        one_image_refs ref_of_def MAX_INLINE_DATA_URLS_def ord replacement_for_def)
qed

definition sample_inlined :: json where
  "sample_inlined = JObject [(''inlineData'', image_json base64_std
     \<lparr>fr_mime_type = ''image/webp'', fr_bytes = ''abcde'', fr_from_cache = False\<rparr>)]"

definition sample_rewrite_env :: encode_env where
  "sample_rewrite_env =
     \<lparr>ee_serde = sample_serde [(sample_print sample_inlined, sample_inlined)], ee_b64 = base64_std,
      ee_runtime = blob_runtime_new small_cfg (\<lambda>_. None), ee_chunker = one_chunk, ee_faults = (\<lambda>_. no_faults)\<rparr>"

definition sample_rewrite_services :: rewrite_services where
  "sample_rewrite_services =
     \<lparr>rw_max_image_bytes = 10, rw_allow_private_networks = True, rw_fetch_service = None, rw_cache_observer = False\<rparr>"

lemma sample_serde_table: "serde_compact (sample_serde t)" "json_text (sample_serde t) = sample_print"
  by (use sample_serde_compact in \<open>simp add: serde_compact_def sample_serde_def json_text_def\<close>)
     (intro ext, simp add: json_text_def sample_serde_def)

lemma one_image_inlined:
  assumes "\<forall>(path, url) \<in> set (inline_refs one_image []).
    obtained (sample_materialize_env sample_get_one) sample_services url (images url)"
  shows "inline_images (\<lambda>url. image_json base64_std (images url)) one_image = sample_inlined"
proof -
  have "obtained (sample_materialize_env sample_get_one) sample_services ''http://x.example/a'' (images ''http://x.example/a'')"
    using assms by (simp add: one_image_refs)
  from sample_obtained [OF this] show ?thesis
    by (simp add: one_image_def inline_url_def is_http_url_def starts_with_def sample_inlined_def)
qed

lemma sample_inlined_small: "length (sample_print sample_inlined) < 2 ^ 64"
  by (simp add: sample_inlined_def image_json_def base64_std_def quad_def b64_char_def bval_def)

lemma sample_rewrite_run:
  "\<exists>st'. rewrite_request_inline_data (sample_materialize_env sample_get_one) sample_rewrite_env sample_pipe
      (\<lambda>_. no_faults) (\<lambda>us. us) ''/spill'' (\<lambda>_. None) one_image sample_rewrite_services sample_state
     = (Some (Ok sample_inlined), st')"
proof -
  let ?E = "sample_materialize_env sample_get_one" and ?W = sample_compat_work
  obtain m st where m: "materialize_request_images_with_services ?E sample_services one_image ?W = (Some (Ok m), st)"
    using sample_compat_run by auto
  have work: "blob_inv (wk_runtime ?W) {}" "ids_left 8 (wk_runtime ?W)"
    by (simp_all add: sample_compat_work_def compat_blob_runtime_def blob_inv_new)
       (simp add: ids_left_def blob_runtime_new_def)
  have wf: "json_wf one_image" "strip_output_from_value one_image = one_image"
    by (simp add: one_image_def u64_max_def) code_simp
  define N where "N = sample_rewrite_env\<lparr>ee_runtime := wk_runtime st\<rparr>"
  have N: "serde_compact (ee_serde N)" "base64_laws (ee_b64 N)" "chunker_ok (ee_chunker N)"
    "ee_runtime N = wk_runtime st" "ee_faults N = (\<lambda>_. no_faults)"
    by (simp_all add: N_def sample_rewrite_env_def sample_serde_table base64_std_laws one_chunk_ok)
  have pipe: "pipe_ok sample_pipe" "pe_faults sample_pipe = no_faults"
    by (simp_all add: pipe_ok_def sample_pipe_def one_chunk_content)
  obtain images where M: "encode_ready N (mr_replacements m)" "mr_request m = one_image" "ids_left 1 (ee_runtime N)"
    "blob_inv (ee_runtime N) ({} \<union> rr_blob ` set (mr_replacements m))"
    "\<forall>(path, url) \<in> set (inline_refs one_image []). obtained ?E sample_services url (images url)"
    "encoded_text N (mr_replacements m) one_image
      = json_text (ee_serde N) (inline_images (\<lambda>url. image_json (ee_b64 N) (images url)) one_image)"
    by (rule materialized_ready [OF m work sample_images_small sample_order_ok wf N])
  have enc_text: "encoded_text N (mr_replacements m) one_image = sample_print sample_inlined"
    using M(6) one_image_inlined [OF M(5)] by (simp add: N_def sample_rewrite_env_def sample_serde_table)
  obtain res rt where enc: "encode_request_body N sample_pipe one_image (mr_replacements m) = (res, rt)"
    by (cases "encode_request_body N sample_pipe one_image (mr_replacements m)")
  have small: "length (encoded_text N (mr_replacements m) one_image) < 2 ^ 64"
    by (simp only: enc_text sample_inlined_small)
  from encode_request_body_text [OF M(1) pipe(1) M(4,3) small enc] pipe(2)
  obtain eb where eb: "res = Ok eb" "blob_content rt (eb_body_blob eb) = Some (sample_print sample_inlined)"
    by (cases res) (auto simp: enc_text)
  have rd: "read_bytes rt no_faults (eb_body_blob eb) = Ok (sample_print sample_inlined)"
    using eb(2) by (auto simp: read_bytes_def blob_content_def no_faults_def split: blob_storage.splits option.splits)
  obtain rt' where rm: "remove_each (\<lambda>_. no_faults) (map rr_blob (mr_replacements m) @ [eb_body_blob eb]) rt = (Ok (), rt')"
    using remove_each_no_faults by blast
  have scan: "scan_inline_data_urls (\<lambda>us. us) one_image = Ok \<lparr>is_unique_urls = [''http://x.example/a''], is_total_refs = 1\<rparr>"
    by (simp add: scan_inline_data_urls_def scan_eq_refs within_limit_def MAX_INLINE_DATA_URLS_def one_image_refs ref_of_def)
  have sv: "\<lparr>ms_max_image_bytes = rw_max_image_bytes sample_rewrite_services,
      ms_allow_private_networks = rw_allow_private_networks sample_rewrite_services, ms_enable_webp_optimization = False,
      ms_fetch_service = rw_fetch_service sample_rewrite_services,
      ms_cache_observer = rw_cache_observer sample_rewrite_services\<rparr> = sample_services"
    by (simp add: sample_rewrite_services_def sample_services_def)
  have parse: "from_slice (ee_serde sample_rewrite_env) (sample_print sample_inlined) = Ok sample_inlined"
    by (simp add: sample_rewrite_env_def sample_serde_def)
  show ?thesis
    using m enc eb(1) rd rm M(2)
    by (simp add: rewrite_request_inline_data_def scan sv sample_compat_work_def [symmetric] N_def [symmetric] parse)
qed


end
