(* ===== verification/Base64_Reader.thy ===== *)
theory Base64_Reader
  imports Base64
begin

text \<open>
  The reader of \<^verbatim>\<open>src/upload.rs\<close> that decodes base64 while it is read: the text is decoded in
  chunks, and every read is answered from the decoded bytes that are pending. It is proved to
  refine the plain reader of the decoded image, whatever the sizes of the reads are.
\<close>

section \<open>Decoding in chunks\<close>

definition BASE64_STREAM_INPUT_CHARS :: nat where
  "BASE64_STREAM_INPUT_CHARS = 32 * 1024"

definition decoded_base64_len :: "string \<Rightarrow> nat fallible" where
  "decoded_base64_len data_base64 =
     (if data_base64 = [] then Ok 0
      else if length data_base64 mod 4 \<noteq> 0 then Err (Message ''invalid base64 length'')
      else
        (let padding = (if ends_with data_base64 ''=='' then 2 else if ends_with data_base64 ''='' then 1 else 0)
         in Ok (length data_base64 div 4 * 3 - padding)))"

definition next_base64_chunk_end :: "nat \<Rightarrow> nat \<Rightarrow> nat" where
  "next_base64_chunk_end total_len offset =
     (let remaining = total_len - offset in
      if remaining \<le> BASE64_STREAM_INPUT_CHARS then total_len else offset + BASE64_STREAM_INPUT_CHARS)"

text \<open>\<^verbatim>\<open>decode_slice\<close> into a buffer of three bytes per four characters.\<close>

definition decode_base64_chunk :: "base64_api \<Rightarrow> string \<Rightarrow> string fallible" where
  "decode_base64_chunk B chunk =
     (case b64_decode B chunk of
        Err e \<Rightarrow> Err (Message e)
      | Ok decoded \<Rightarrow>
          if length chunk div 4 * 3 < length decoded then Err (Message ''Output slice too small'')
          else Ok decoded)"

lemma next_chunk_end: "offset < n \<Longrightarrow> offset < next_base64_chunk_end n offset \<and> next_base64_chunk_end n offset \<le> n"
  by (auto simp: next_base64_chunk_end_def Let_def BASE64_STREAM_INPUT_CHARS_def)

text \<open>The bytes the loop of \<^verbatim>\<open>sha256_hex_base64\<close> gives to the hash, from an offset on.\<close>

function decode_from :: "base64_api \<Rightarrow> string \<Rightarrow> nat \<Rightarrow> string fallible" where
  "decode_from B data offset =
     (if offset < length data then
        (let chunk_end = next_base64_chunk_end (length data) offset in
         case decode_base64_chunk B (take (chunk_end - offset) (drop offset data)) of
           Err e \<Rightarrow> Err e
         | Ok decoded \<Rightarrow> map_sum id (\<lambda>rest. decoded @ rest) (decode_from B data chunk_end))
      else Ok [])"
  by pat_completeness auto
termination
  by (relation "measure (\<lambda>(B, data, offset). length data - offset)")
     (auto dest: next_chunk_end intro: diff_less_mono2)

declare decode_from.simps [simp del]

section \<open>The reader\<close>

record b64_reader =
  rd_data :: string
  rd_offset :: nat
  rd_pending :: string
  rd_pending_offset :: nat

definition b64_reader_new :: "string \<Rightarrow> b64_reader" where
  "b64_reader_new data_base64 =
     \<lparr>rd_data = data_base64, rd_offset = 0, rd_pending = [], rd_pending_offset = 0\<rparr>"

definition reader_left :: "b64_reader \<Rightarrow> nat" where
  "reader_left r = (length (rd_data r) - rd_offset r) + (length (rd_pending r) - rd_pending_offset r)"

lemma decode_chunk_shorter:
  assumes "decode_base64_chunk B chunk = Ok decoded"
  shows "length decoded \<le> length chunk div 4 * 3"
  using assms by (auto simp: decode_base64_chunk_def split: sum.splits if_splits)

lemma reader_left_load:
  assumes "decode_base64_chunk B (take (e - rd_offset r) (drop (rd_offset r) (rd_data r))) = Ok decoded"
    and "e = next_base64_chunk_end (length (rd_data r)) (rd_offset r)" "rd_offset r < length (rd_data r)"
    and "length (rd_pending r) \<le> rd_pending_offset r"
  shows "reader_left (r\<lparr>rd_pending := decoded, rd_offset := e\<rparr>) < reader_left r"
proof -
  have "length decoded < e - rd_offset r"
    using decode_chunk_shorter [OF assms(1)] next_chunk_end [OF assms(3)] assms(2) by auto
  with next_chunk_end [OF assms(3)] assms(2,4) show ?thesis by (simp add: reader_left_def) arith
qed

text \<open>
  The loop of \<^verbatim>\<open>poll_read\<close>: \<open>n\<close> bytes of the buffer are free, \<open>acc\<close> was put into it.
\<close>

function poll_loop :: "base64_api \<Rightarrow> b64_reader \<Rightarrow> nat \<Rightarrow> string \<Rightarrow> string fallible \<times> b64_reader" where
  "poll_loop B r n acc =
     (if n = 0 then (Ok acc, r)
      else if rd_pending_offset r < length (rd_pending r) then
        (let available = length (rd_pending r) - rd_pending_offset r;
             to_copy = min available n;
             acc = acc @ take to_copy (drop (rd_pending_offset r) (rd_pending r));
             r = r\<lparr>rd_pending_offset := rd_pending_offset r + to_copy\<rparr>
         in if rd_pending_offset r < length (rd_pending r) then (Ok acc, r)
            else poll_loop B (r\<lparr>rd_pending := [], rd_pending_offset := 0\<rparr>) (n - to_copy) acc)
      else if length (rd_data r) \<le> rd_offset r then (Ok acc, r)
      else
        (let chunk_end = next_base64_chunk_end (length (rd_data r)) (rd_offset r) in
         case decode_base64_chunk B (take (chunk_end - rd_offset r) (drop (rd_offset r) (rd_data r))) of
           Err e \<Rightarrow> (Err e, r)
         | Ok decoded \<Rightarrow> poll_loop B (r\<lparr>rd_pending := decoded, rd_offset := chunk_end\<rparr>) n acc))"
  by pat_completeness auto

termination
proof (relation "measure (\<lambda>(B, r, n, acc). reader_left r)")
  fix B :: base64_api and r r1 :: b64_reader and n available to_copy :: nat and acc acc' :: string
  assume "n \<noteq> 0" "rd_pending_offset r < length (rd_pending r)" "available = length (rd_pending r) - rd_pending_offset r"
    "to_copy = min available n" "r1 = r\<lparr>rd_pending_offset := rd_pending_offset r + to_copy\<rparr>"
    "\<not> rd_pending_offset r1 < length (rd_pending r1)"
  then show "((B, r1\<lparr>rd_pending := [], rd_pending_offset := 0\<rparr>, n - to_copy, acc'), B, r, n, acc)
      \<in> measure (\<lambda>(B, r, n, acc). reader_left r)"
    by (auto simp: reader_left_def)
next
  fix B :: base64_api and r :: b64_reader and n chunk_end :: nat and acc decoded :: string
  assume "n \<noteq> 0" "\<not> rd_pending_offset r < length (rd_pending r)" "\<not> length (rd_data r) \<le> rd_offset r"
    "chunk_end = next_base64_chunk_end (length (rd_data r)) (rd_offset r)"
    "decode_base64_chunk B (take (chunk_end - rd_offset r) (drop (rd_offset r) (rd_data r))) = Inr decoded"
  then show "((B, r\<lparr>rd_pending := decoded, rd_offset := chunk_end\<rparr>, n, acc), B, r, n, acc)
      \<in> measure (\<lambda>(B, r, n, acc). reader_left r)"
    using reader_left_load [of B chunk_end r decoded] by simp
qed simp

declare poll_loop.simps [simp del]

definition poll_read :: "base64_api \<Rightarrow> b64_reader \<Rightarrow> nat \<Rightarrow> string fallible \<times> b64_reader" where
  "poll_read B r remaining = poll_loop B r remaining []"

text \<open>
  Reading to the end as \<^verbatim>\<open>ReaderStream\<close> does: reads of 4096 bytes until one is empty; the content is
  what they gave, or the first error.
\<close>

lemma poll_loop_left:
  assumes "poll_loop B r n acc = (Ok out, r')"
  shows "length acc \<le> length out \<and> reader_left r' \<le> reader_left r
    \<and> (length acc < length out \<longrightarrow> reader_left r' < reader_left r)"
  using assms
proof (induction B r n acc rule: poll_loop.induct)
  case (1 B r n acc)
  show ?case
  proof (cases "n \<noteq> 0 \<and> rd_pending_offset r < length (rd_pending r)")
    case True
    let ?k = "min (length (rd_pending r) - rd_pending_offset r) n"
    let ?acc = "acc @ take ?k (drop (rd_pending_offset r) (rd_pending r))"
    let ?r1 = "r\<lparr>rd_pending_offset := rd_pending_offset r + ?k\<rparr>"
    show ?thesis
    proof (cases "rd_pending_offset ?r1 < length (rd_pending ?r1)")
      case more: True
      with "1.prems" True have "out = ?acc" "r' = ?r1"
        by (subst (asm) poll_loop.simps, simp add: Let_def)+
      with True show ?thesis by (auto simp: reader_left_def)
    next
      case False
      with "1.prems" True have p: "poll_loop B (?r1\<lparr>rd_pending := [], rd_pending_offset := 0\<rparr>) (n - ?k) ?acc = (Ok out, r')"
        by (subst (asm) poll_loop.simps) (simp add: Let_def)
      have "reader_left (?r1\<lparr>rd_pending := [], rd_pending_offset := 0\<rparr>) < reader_left r"
        using True by (auto simp: reader_left_def)
      with "1.IH"(1) [OF _ _ refl refl refl refl False p] True show ?thesis by auto
    qed
  next
    case none: False
    let ?e = "next_base64_chunk_end (length (rd_data r)) (rd_offset r)"
    let ?chunk = "take (?e - rd_offset r) (drop (rd_offset r) (rd_data r))"
    show ?thesis
    proof (cases "n = 0 \<or> length (rd_data r) \<le> rd_offset r")
      case True
      with "1.prems" none show ?thesis by (subst (asm) poll_loop.simps) (auto split: if_splits)
    next
      case False
      with "1.prems" none obtain d where d: "decode_base64_chunk B ?chunk = Ok d"
        "poll_loop B (r\<lparr>rd_pending := d, rd_offset := ?e\<rparr>) n acc = (Ok out, r')"
        by (subst (asm) poll_loop.simps) (auto simp: Let_def split: sum.splits)
      have "reader_left (r\<lparr>rd_pending := d, rd_offset := ?e\<rparr>) < reader_left r"
        using reader_left_load [OF d(1) refl] none False by auto
      with "1.IH"(2) [OF _ _ _ refl d] none False show ?thesis by auto
    qed
  qed
qed

definition STREAM_CAPACITY :: nat where
  "STREAM_CAPACITY = 4096"

function drain_reader :: "base64_api \<Rightarrow> b64_reader \<Rightarrow> string fallible" where
  "drain_reader B r =
     (case poll_read B r STREAM_CAPACITY of
        (Err e, _) \<Rightarrow> Err e
      | (Ok bytes, r') \<Rightarrow>
          if bytes = [] then Ok [] else map_sum id (\<lambda>rest. bytes @ rest) (drain_reader B r'))"
  by pat_completeness auto
termination
  by (relation "measure (\<lambda>(B, r). reader_left r)")
     (auto simp: poll_read_def dest!: poll_loop_left sym [of "(_, _)"])

declare drain_reader.simps [simp del]

section \<open>The reader refines the decoded image\<close>

lemma map_sum_Ok_conv: "map_sum id f r = Ok y \<longleftrightarrow> (\<exists>x. r = Ok x \<and> y = f x)"
  by (cases r) auto

text \<open>What is still to be read, and the states the reader can be in.\<close>

definition reader_rest :: "base64_api \<Rightarrow> b64_reader \<Rightarrow> string fallible" where
  "reader_rest B r =
     map_sum id (\<lambda>rest. drop (rd_pending_offset r) (rd_pending r) @ rest) (decode_from B (rd_data r) (rd_offset r))"

lemma decode_from_end [simp]: "length data \<le> offset \<Longrightarrow> decode_from B data offset = Ok []"
  by (simp add: decode_from.simps)

lemma decode_from_step:
  assumes "decode_from B data offset = Ok s" "offset < length data"
    and "e = next_base64_chunk_end (length data) offset"
  obtains d rest where "decode_base64_chunk B (take (e - offset) (drop offset data)) = Ok d"
    "decode_from B data e = Ok rest" "s = d @ rest"
  using assms by (subst (asm) decode_from.simps) (auto simp: Let_def map_sum_Ok_conv split: sum.splits)

text \<open>
  One read, from the decoded image's point of view: it gives as many bytes as fit, and they are
  the next ones.
\<close>

lemma poll_loop_refines:
  assumes "reader_rest B r = Ok s" "rd_pending_offset r \<le> length (rd_pending r)"
    and "rd_pending r = [] \<longrightarrow> rd_pending_offset r = 0" "rd_pending r \<noteq> [] \<longrightarrow> rd_pending_offset r < length (rd_pending r)"
  shows "\<exists>r'. poll_loop B r n acc = (Ok (acc @ take n s), r') \<and> reader_rest B r' = Ok (drop n s)
    \<and> (rd_pending r' = [] \<longrightarrow> rd_pending_offset r' = 0)
    \<and> (rd_pending r' \<noteq> [] \<longrightarrow> rd_pending_offset r' < length (rd_pending r'))"
  using assms
proof (induction B r n acc arbitrary: s rule: poll_loop.induct)
  case (1 B r n acc)
  show ?case
  proof (cases "n = 0")
    case True
    with "1.prems" show ?thesis by (subst poll_loop.simps) simp
  next
    case n: False
    show ?thesis
    proof (cases "rd_pending_offset r < length (rd_pending r)")
      case True
      let ?k = "min (length (rd_pending r) - rd_pending_offset r) n"
      let ?p = "drop (rd_pending_offset r) (rd_pending r)"
      let ?r1 = "r\<lparr>rd_pending_offset := rd_pending_offset r + ?k\<rparr>"
      obtain rest where rest: "decode_from B (rd_data r) (rd_offset r) = Ok rest" "s = ?p @ rest"
        using "1.prems"(1) by (auto simp: reader_rest_def map_sum_Ok_conv)
      show ?thesis
      proof (cases "rd_pending_offset ?r1 < length (rd_pending ?r1)")
        case more: True
        then have "n < length ?p" "?k = n" using True by auto
        then have e: "poll_loop B r n acc = (Ok (acc @ take n s), ?r1)"
          using True n more rest(2) by (subst poll_loop.simps) (simp add: Let_def)
        have "reader_rest B ?r1 = Ok (drop n s)"
          using rest \<open>?k = n\<close> \<open>n < length ?p\<close> by (simp add: reader_rest_def add.commute)
        with e more True show ?thesis by auto
      next
        case False
        let ?r2 = "?r1\<lparr>rd_pending := [], rd_pending_offset := 0\<rparr>"
        have k: "?k = length ?p" "length ?p \<le> n" using False True by auto
        have e: "poll_loop B r n acc = poll_loop B ?r2 (n - ?k) (acc @ ?p)"
          using True n False k by (subst poll_loop.simps) (simp add: Let_def)
        have r2: "reader_rest B ?r2 = Ok rest" using rest(1) by (simp add: reader_rest_def)
        have "\<exists>r'. poll_loop B ?r2 (n - ?k) (acc @ take ?k ?p) = (Ok ((acc @ take ?k ?p) @ take (n - ?k) rest), r')
            \<and> reader_rest B r' = Ok (drop (n - ?k) rest)
            \<and> (rd_pending r' = [] \<longrightarrow> rd_pending_offset r' = 0)
            \<and> (rd_pending r' \<noteq> [] \<longrightarrow> rd_pending_offset r' < length (rd_pending r'))"
          by (rule "1.IH"(1) [OF n True refl refl refl refl False r2]) simp_all
        moreover have "take n s = ?p @ take (n - ?k) rest" "drop n s = drop (n - ?k) rest"
          using rest(2) k by (simp_all add: k(1))
        ultimately show ?thesis unfolding e using k(1) by (simp only: append_assoc take_all order_refl)
      qed
    next
      case False
      with "1.prems"(2,3,4) have p: "rd_pending r = []" "rd_pending_offset r = 0" by auto
      then have s: "decode_from B (rd_data r) (rd_offset r) = Ok s"
        using "1.prems"(1) by (auto simp: reader_rest_def map_sum_Ok_conv)
      show ?thesis
      proof (cases "length (rd_data r) \<le> rd_offset r")
        case True
        then have "poll_loop B r n acc = (Ok acc, r)" using n p by (subst poll_loop.simps) simp
        moreover have "s = []" using s True by simp
        ultimately show ?thesis using "1.prems" by simp
      next
        case more: False
        let ?e = "next_base64_chunk_end (length (rd_data r)) (rd_offset r)"
        obtain d rest where d: "decode_base64_chunk B (take (?e - rd_offset r) (drop (rd_offset r) (rd_data r))) = Ok d"
          "decode_from B (rd_data r) ?e = Ok rest" "s = d @ rest"
          using decode_from_step [OF s _ refl] more by (metis not_le)
        let ?r1 = "r\<lparr>rd_pending := d, rd_offset := ?e\<rparr>"
        have e: "poll_loop B r n acc = poll_loop B ?r1 n acc"
          using n p more d(1) by (subst poll_loop.simps) (simp add: Let_def)
        have r1: "reader_rest B ?r1 = Ok s" using d p by (simp add: reader_rest_def)
        show ?thesis
          unfolding e by (rule "1.IH"(2) [OF n False more refl d(1) r1]) (use p in simp_all)
      qed
    qed
  qed
qed

definition reader_ok :: "b64_reader \<Rightarrow> bool" where
  "reader_ok r \<longleftrightarrow> (if rd_pending r = [] then rd_pending_offset r = 0 else rd_pending_offset r < length (rd_pending r))"

lemma poll_read_refines:
  assumes "reader_rest B r = Ok s" "reader_ok r"
  shows "\<exists>r'. poll_read B r n = (Ok (take n s), r') \<and> reader_rest B r' = Ok (drop n s) \<and> reader_ok r'"
proof -
  have "rd_pending_offset r \<le> length (rd_pending r)" "rd_pending r = [] \<longrightarrow> rd_pending_offset r = 0"
    "rd_pending r \<noteq> [] \<longrightarrow> rd_pending_offset r < length (rd_pending r)"
    using assms(2) by (auto simp: reader_ok_def split: if_splits)
  from poll_loop_refines [OF assms(1) this, of n "[]"]
  obtain r' where "poll_loop B r n [] = (Ok (take n s), r')" "reader_rest B r' = Ok (drop n s)" "reader_ok r'"
    by (auto simp: reader_ok_def)
  then show ?thesis unfolding poll_read_def by blast
qed

lemma drain_reader_rest:
  assumes "reader_rest B r = Ok s" "reader_ok r"
  shows "drain_reader B r = Ok s"
  using assms
proof (induction B r arbitrary: s rule: drain_reader.induct)
  case (1 B r)
  obtain r' where r': "poll_read B r STREAM_CAPACITY = (Ok (take STREAM_CAPACITY s), r')"
    "reader_rest B r' = Ok (drop STREAM_CAPACITY s)" "reader_ok r'"
    using poll_read_refines [OF "1.prems"] by blast
  show ?case
  proof (cases "s = []")
    case True
    with r' show ?thesis by (subst drain_reader.simps) simp
  next
    case False
    then have ne: "take STREAM_CAPACITY s \<noteq> []" by (simp add: STREAM_CAPACITY_def)
    with "1.IH" [OF r'(1) [symmetric] refl ne r'(2,3)] r'(1) show ?thesis
      by (subst drain_reader.simps) simp
  qed
qed

section \<open>Reading an encoded image\<close>

lemma encoded_drop:
  assumes "base64_laws B" "3 * k < length bytes"
  shows "drop (4 * k) (b64_encode B bytes) = b64_encode B (drop (3 * k) bytes)"
proof -
  have "b64_encode B bytes = b64_encode B (take (3 * k) bytes) @ b64_encode B (drop (3 * k) bytes)"
    using base64_append [OF assms(1), of "take (3 * k) bytes" "drop (3 * k) bytes"] assms(2) by simp
  moreover have "length (b64_encode B (take (3 * k) bytes)) = 4 * k"
    using assms(2) by (simp add: base64_length [OF assms(1)])
  ultimately show ?thesis by simp
qed

lemma encoded_take:
  assumes "base64_laws B" "3 * k \<le> length bytes"
  shows "take (4 * k) (b64_encode B bytes) = b64_encode B (take (3 * k) bytes)"
proof -
  have "b64_encode B bytes = b64_encode B (take (3 * k) bytes) @ b64_encode B (drop (3 * k) bytes)"
    using base64_append [OF assms(1), of "take (3 * k) bytes" "drop (3 * k) bytes"] assms(2) by simp
  moreover have "length (b64_encode B (take (3 * k) bytes)) = 4 * k"
    using assms(2) by (simp add: base64_length [OF assms(1)])
  ultimately show ?thesis by simp
qed

lemma decode_encoded_chunk:
  assumes "base64_laws B"
  shows "decode_base64_chunk B (b64_encode B bytes) = Ok bytes"
  by (simp add: decode_base64_chunk_def base64_decode_encode [OF assms] base64_length [OF assms])

lemma decode_from_encoded:
  assumes "base64_laws B" "offset mod 4 = 0"
  shows "decode_from B (b64_encode B bytes) offset = Ok (drop (offset div 4 * 3) bytes)"
  using assms(2)
proof (induction "length (b64_encode B bytes) - offset" arbitrary: offset rule: less_induct)
  case less
  let ?data = "b64_encode B bytes"
  define k where "k = offset div 4"
  have off: "offset = 4 * k" using less.prems by (auto simp: k_def)
  have len: "length ?data = 4 * ((length bytes + 2) div 3)" by (rule base64_length [OF assms(1)])
  show ?case
  proof (cases "offset < length ?data")
    case False
    then have "length bytes \<le> 3 * k" using len off by auto
    with False show ?thesis by (simp add: k_def [symmetric] mult.commute)
  next
    case True
    let ?e = "next_base64_chunk_end (length ?data) offset"
    have k: "3 * k < length bytes" using True len off by auto
    have rest: "drop offset ?data = b64_encode B (drop (3 * k) bytes)"
      unfolding off by (rule encoded_drop [OF assms(1) k])
    show ?thesis
    proof (cases "length ?data - offset \<le> BASE64_STREAM_INPUT_CHARS")
      case last: True
      then have "?e = length ?data" by (simp add: next_base64_chunk_end_def)
      then have "take (?e - offset) (drop offset ?data) = drop offset ?data" by simp
      then have "decode_base64_chunk B (take (?e - offset) (drop offset ?data)) = Ok (drop (3 * k) bytes)"
        by (simp only: rest decode_encoded_chunk [OF assms(1)])
      with True \<open>?e = length ?data\<close> show ?thesis
        by (subst decode_from.simps) (simp add: k_def [symmetric] mult.commute)
    next
      case False
      then have e: "?e = offset + 4 * 8192" by (simp add: next_base64_chunk_end_def BASE64_STREAM_INPUT_CHARS_def)
      have l: "3 * 8192 \<le> length (drop (3 * k) bytes)"
      proof -
        define q where "q = (length bytes + 2) div 3"
        have "3 * q \<le> length bytes + 2" by (simp add: q_def)
        moreover have "32768 < 4 * q - 4 * k"
          using False len off by (simp add: BASE64_STREAM_INPUT_CHARS_def q_def)
        ultimately have "3 * 8192 + 3 * k \<le> length bytes" by arith
        then show ?thesis by simp
      qed
      have chunk: "decode_base64_chunk B (take (?e - offset) (drop offset ?data)) = Ok (take (3 * 8192) (drop (3 * k) bytes))"
        unfolding e rest using encoded_take [OF assms(1) l] decode_encoded_chunk [OF assms(1)] by simp
      have "decode_from B ?data ?e = Ok (drop (?e div 4 * 3) bytes)"
        using True False less.prems e by (intro less.hyps) auto
      moreover have "?e div 4 * 3 = 3 * 8192 + 3 * k" using e off by simp
      ultimately have "decode_from B ?data ?e = Ok (drop (3 * 8192) (drop (3 * k) bytes))" by simp
      moreover have "take 24576 (drop (3 * k) bytes) @ drop (24576 + 3 * k) bytes = drop (3 * k) bytes"
        by (metis append_take_drop_id drop_drop)
      ultimately show ?thesis using True chunk
        by (subst decode_from.simps) (simp add: Let_def k_def [symmetric] mult.commute [of k])
    qed
  qed
qed

lemma new_reader:
  assumes "base64_laws B"
  shows "reader_rest B (b64_reader_new (b64_encode B bytes)) = Ok bytes" "reader_ok (b64_reader_new data)"
  using decode_from_encoded [OF assms, of 0 bytes] by (simp_all add: reader_rest_def b64_reader_new_def reader_ok_def)

lemma drain_encoded: "base64_laws B \<Longrightarrow> drain_reader B (b64_reader_new (b64_encode B bytes)) = Ok bytes"
  using drain_reader_rest new_reader by blast

text \<open>Documented of the padding, beside \<open>base64_laws\<close>: one \<^verbatim>\<open>=\<close> for a last group of two bytes, two for one.\<close>

definition base64_padding :: "base64_api \<Rightarrow> bool" where
  "base64_padding B \<longleftrightarrow>
     (\<forall>s. (ends_with (b64_encode B s) ''=='' \<longleftrightarrow> length s mod 3 = 1)
        \<and> (ends_with (b64_encode B s) ''='' \<longleftrightarrow> length s mod 3 \<noteq> 0))"

lemma decoded_len_encoded:
  assumes "base64_laws B" "base64_padding B"
  shows "decoded_base64_len (b64_encode B s) = Ok (length s)"
proof -
  have len: "length (b64_encode B s) = 4 * ((length s + 2) div 3)" by (rule base64_length [OF assms(1)])
  have pad: "ends_with (b64_encode B s) ''=='' \<longleftrightarrow> length s mod 3 = 1"
    "ends_with (b64_encode B s) ''='' \<longleftrightarrow> length s mod 3 \<noteq> 0"
    using assms(2) by (simp_all add: base64_padding_def)
  show ?thesis
  proof (cases "s = []")
    case True
    then show ?thesis using base64_nil [OF assms(1)] by (simp add: decoded_base64_len_def)
  next
    case False
    then have ne: "b64_encode B s \<noteq> []" using len by (cases s) auto
    have "\<exists>q. length s = 3 * q \<or> length s = 3 * q + 1 \<or> length s = 3 * q + 2" by presburger
    then obtain q where "length s = 3 * q \<or> length s = 3 * q + 1 \<or> length s = 3 * q + 2" ..
    then show ?thesis
    proof (elim disjE)
      assume q: "length s = 3 * q + 2"
      have "(3 * q + 2) mod 3 = 2" "(3 * q + 2 + 2) div 3 = q + 1" by presburger+
      with q ne show ?thesis by (simp add: decoded_base64_len_def Let_def len pad)
    qed (use ne in \<open>simp_all add: decoded_base64_len_def Let_def len pad\<close>)
  qed
qed

lemma base64_std_padding: "base64_padding base64_std"
proof -
  have "(ends_with (std_encode s) ''=='' \<longleftrightarrow> length s mod 3 = 1) \<and> (ends_with (std_encode s) ''='' \<longleftrightarrow> length s mod 3 \<noteq> 0)" for s
  proof (induction s rule: std_encode.induct)
    case (3 a b)
    have "list_all (\<lambda>n. n < 64) (quad (bval a) (bval b) 0)" by (simp add: quad_lt bval_lt)
    moreover have "bval b mod 16 * 4 < 64" by simp
    ultimately show ?case by (simp add: quad_def ends_with_def suffix_def b64_char_not_pad)
  next
    case (4 a b c s)
    have q: "list_all (\<lambda>n. n < 64) (quad (bval a) (bval b) (bval c))" by (simp add: quad_lt bval_lt)
    show ?case
    proof (cases "s = []")
      case True
      have "CHR ''='' \<notin> set (map b64_char (quad (bval a) (bval b) (bval c)))"
        using q b64_char_not_pad by (metis (no_types, lifting) in_set_conv_nth length_map list_all_iff nth_map nth_mem)
      then have "\<not> ends_with (std_encode (a # b # c # s)) p" if "CHR ''='' \<in> set p" for p
        using True that set_mono_suffix by (fastforce simp: ends_with_def)
      then show ?thesis using True by simp
    next
      case False
      then have "2 \<le> length (std_encode s)" using std_encode_length [of s] by (cases s) auto
      then have "ends_with (x @ std_encode s) p \<longleftrightarrow> ends_with (std_encode s) p" if "length p \<le> 2" for x p
        unfolding ends_with_def
        by (metis that \<open>2 \<le> length (std_encode s)\<close> le_trans suffix_appendI suffix_length_suffix suffix_def)
      moreover have "length (a # b # c # s) mod 3 = length s mod 3" by (simp add: mod_Suc) presburger
      ultimately show ?thesis using 4 by simp
    qed
  qed (simp_all add: ends_with_def quad_def suffix_def)
  then show ?thesis by (simp add: base64_padding_def base64_std_def)
qed

section \<open>Property\<close>

text \<open>A sequence of reads with the given buffer sizes, and what it should give.\<close>

fun poll_reads :: "base64_api \<Rightarrow> b64_reader \<Rightarrow> nat list \<Rightarrow> string list fallible" where
  "poll_reads B r [] = Ok []"
| "poll_reads B r (n # ns) =
     (case poll_read B r n of
        (Err e, _) \<Rightarrow> Err e
      | (Ok piece, r') \<Rightarrow> map_sum id (\<lambda>ps. piece # ps) (poll_reads B r' ns))"

fun pieces :: "string \<Rightarrow> nat list \<Rightarrow> string list" where
  "pieces s [] = []"
| "pieces s (n # ns) = take n s # pieces (drop n s) ns"

lemma poll_reads_pieces:
  "reader_rest B r = Ok s \<Longrightarrow> reader_ok r \<Longrightarrow> poll_reads B r ns = Ok (pieces s ns)"
proof (induction ns arbitrary: r s)
  case (Cons n ns)
  obtain r' where "poll_read B r n = (Ok (take n s), r')" "reader_rest B r' = Ok (drop n s)" "reader_ok r'"
    using poll_read_refines [OF Cons.prems] by blast
  with Cons.IH show ?case by simp
qed simp

text \<open>
  (C29) Reading an encoded image through the decoding reader is reading the image itself: whatever
  the sizes of the reads are, they give its bytes piece by piece, reading to the end gives all of
  them, the hash is computed over exactly these bytes, and the announced length is theirs.
\<close>

theorem base64_reader_refines_image:
  assumes "base64_laws B" "base64_padding B"
  shows "poll_reads B (b64_reader_new (b64_encode B bytes)) sizes = Ok (pieces bytes sizes)
    \<and> drain_reader B (b64_reader_new (b64_encode B bytes)) = Ok bytes
    \<and> decode_from B (b64_encode B bytes) 0 = Ok bytes
    \<and> decoded_base64_len (b64_encode B bytes) = Ok (length bytes)"
  using poll_reads_pieces [OF new_reader [OF assms(1)]] drain_encoded [OF assms(1)]
    decode_from_encoded [OF assms(1), of 0] decoded_len_encoded [OF assms]
  by simp

lemma base64_reader_refines_image_witness:
  "poll_reads base64_std (b64_reader_new (b64_encode base64_std ''abcde'')) [2, 0, 4, 1] = Ok [''ab'', [], ''cde'', []]"
  using base64_reader_refines_image [OF base64_std_laws base64_std_padding, of "''abcde''" "[2, 0, 4, 1]"] by simp

end
