(* ===== verification/Response_Rewrite.thy ===== *)
theory Response_Rewrite
  imports Request_Rewrite
begin

text \<open>
  \<^verbatim>\<open>src/response_rewrite.rs\<close>: what is done to a provider's answer before the client sees it. A
  Gemini answer loses its thought signatures and all but the largest of its images; an answer
  that carries an image as a markdown link, and the result of an aiapidev task, are turned into
  the shape of a Gemini answer with the image inline, as base64 or as a URL.
\<close>

section \<open>The Gemini answer\<close>

datatype output_mode = OutputBase64 | OutputUrl

text \<open>
  The member is removed from every object. (The children do not depend on the removed member,
  so they are rewritten first here.)
\<close>

fun remove_thought_signatures :: "json \<Rightarrow> json"
and remove_from_fields :: "jobject \<Rightarrow> jobject"
and remove_from_items :: "json list \<Rightarrow> json list" where
  "remove_thought_signatures (JObject m) = JObject (obj_remove ''thoughtSignature'' (remove_from_fields m))"
| "remove_thought_signatures (JArray xs) = JArray (remove_from_items xs)"
| "remove_thought_signatures v = v"
| "remove_from_fields [] = []"
| "remove_from_fields ((k, v) # m) = (k, remove_thought_signatures v) # remove_from_fields m"
| "remove_from_items [] = []"
| "remove_from_items (x # xs) = remove_thought_signatures x # remove_from_items xs"

definition is_url_like :: "string \<Rightarrow> bool" where
  "is_url_like value \<longleftrightarrow>
     starts_with value ''http://'' \<or> starts_with value ''https://'' \<or> starts_with value ''/proxy/image''"

definition inline_data_payload :: "json \<Rightarrow> string option" where
  "inline_data_payload part =
     Option.bind (Option.bind (jget ''inlineData'' part) as_object)
       (\<lambda>inline_data. Option.bind (obj_get inline_data ''data'') as_str)"

definition is_base64_inline_image_part :: "json \<Rightarrow> bool" where
  "is_base64_inline_image_part part =
     (case inline_data_payload part of None \<Rightarrow> False | Some data \<Rightarrow> \<not> is_url_like data)"

text \<open>The loop that looks for the longest payload: index, best size and best index so far.\<close>

fun best_part :: "json list \<Rightarrow> nat \<Rightarrow> nat \<Rightarrow> nat option \<Rightarrow> nat option" where
  "best_part [] index best_size best_index = best_index"
| "best_part (part # parts) index best_size best_index =
     (case inline_data_payload part of
        None \<Rightarrow> best_part parts (index + 1) best_size best_index
      | Some data \<Rightarrow>
          if is_url_like data then best_part parts (index + 1) best_size best_index
          else if best_size < length data then best_part parts (index + 1) (length data) (Some index)
          else best_part parts (index + 1) best_size best_index)"

fun retain_parts :: "json list \<Rightarrow> nat \<Rightarrow> nat \<Rightarrow> json list" where
  "retain_parts [] index best_index = []"
| "retain_parts (part # parts) index best_index =
     (if \<not> is_base64_inline_image_part part \<or> index = best_index
      then part # retain_parts parts (index + 1) best_index
      else retain_parts parts (index + 1) best_index)"

definition keep_best_part :: "json list \<Rightarrow> json list" where
  "keep_best_part parts =
     (case best_part parts 0 0 None of
        None \<Rightarrow> parts
      | Some best_index \<Rightarrow> retain_parts parts 0 best_index)"

definition keep_in_candidate :: "json \<Rightarrow> json" where
  "keep_in_candidate candidate =
     (case candidate of
        JObject m \<Rightarrow>
          (case obj_get m ''content'' of
             Some (JObject content) \<Rightarrow>
               (case obj_get content ''parts'' of
                  Some (JArray parts) \<Rightarrow>
                    JObject (obj_insert ''content''
                      (JObject (obj_insert ''parts'' (JArray (keep_best_part parts)) content)) m)
                | _ \<Rightarrow> candidate)
           | _ \<Rightarrow> candidate)
      | _ \<Rightarrow> candidate)"

definition keep_largest_inline_image :: "json \<Rightarrow> json" where
  "keep_largest_inline_image body =
     (case body of
        JObject m \<Rightarrow>
          (case obj_get m ''candidates'' of
             Some (JArray candidates) \<Rightarrow>
               JObject (obj_insert ''candidates'' (JArray (map keep_in_candidate candidates)) m)
           | _ \<Rightarrow> body)
      | _ \<Rightarrow> body)"

definition normalize_gemini_response :: "json \<Rightarrow> json" where
  "normalize_gemini_response body = keep_largest_inline_image (remove_thought_signatures body)"

section \<open>Fetching the images of an answer\<close>

text \<open>\<^verbatim>\<open>wrap_external_proxy_url\<close> of \<^verbatim>\<open>src/upload.rs\<close>.\<close>

definition wrap_external_proxy_url :: "'u url_api \<Rightarrow> string \<Rightarrow> string \<Rightarrow> string" where
  "wrap_external_proxy_url U external_proxy_prefix target_url =
     trim external_proxy_prefix @ byte_serialize U target_url"

text \<open>
  The environment answers the \<open>n\<close>th fetch of a call: what the HTTP client gets, what other tasks
  do in between, what a waiter sees, and the result of a direct fetch.
\<close>

record ('u, 'l) response_env =
  rp_url :: "'u url_api"
  rp_b64 :: base64_api
  rp_get :: "nat \<Rightarrow> 'u http_get"
  rp_lru :: "'l memory_lru"
  rp_disk :: disk_env
  rp_interfere :: "nat \<Rightarrow> 'l fetch_state \<Rightarrow> 'l fetch_state"
  rp_view :: "nat \<Rightarrow> nat \<Rightarrow> task_view"
  rp_direct :: "nat \<Rightarrow> fetched_inline_data fallible"

definition fetch_output_image ::
  "('u, 'l) response_env \<Rightarrow> fetch_service option \<Rightarrow> nat \<Rightarrow> string \<Rightarrow> 'l fetch_state
   \<Rightarrow> fetched_inline_data fallible option \<times> 'l fetch_state" where
  "fetch_output_image E fetch_service n image_url st =
     (case fetch_service of
        Some fs \<Rightarrow>
          (case fetch (rp_lru E) (rp_disk E) fs (rp_interfere E n) (rp_view E n) (rp_direct E n) st image_url of
             (r, st) \<Rightarrow>
               (map_option (map_sum id (\<lambda>f. \<lparr>fi_mime_type = fr_mime_type f, fi_bytes = fr_bytes f\<rparr>)) r, st))
      | None \<Rightarrow> (Some (fetch_image_as_inline_data (rp_url E) (rp_get E n) image_url DEFAULT_MAX_IMAGE_BYTES), st))"

definition inline_data_part :: "string \<Rightarrow> string \<Rightarrow> json" where
  "inline_data_part mime_type data =
     JObject [(''inlineData'', JObject [(''mimeType'', JString mime_type), (''data'', JString data)])]"

definition output_image_url :: "'u url_api \<Rightarrow> config \<Rightarrow> string \<Rightarrow> string" where
  "output_image_url U cfg image_url =
     (let external_proxy_prefix = resolved_external_image_proxy_prefix cfg in
      if proxy_special_upstream_urls cfg \<and> external_proxy_prefix \<noteq> []
      then wrap_external_proxy_url U external_proxy_prefix image_url else image_url)"

definition output_part ::
  "('u, 'l) response_env \<Rightarrow> output_mode \<Rightarrow> fetch_service option \<Rightarrow> config \<Rightarrow> nat \<Rightarrow> string \<Rightarrow> 'l fetch_state
   \<Rightarrow> json fallible option \<times> 'l fetch_state" where
  "output_part E mode fetch_service cfg n image_url st =
     (case mode of
        OutputUrl \<Rightarrow>
          (Some (Ok (inline_data_part (guess_image_mime_type_from_url image_url)
             (output_image_url (rp_url E) cfg image_url))), st)
      | OutputBase64 \<Rightarrow>
          (case fetch_output_image E fetch_service n image_url st of
             (r, st) \<Rightarrow>
               (map_option (map_sum id (\<lambda>fetched.
                  inline_data_part (fi_mime_type fetched) (b64_encode (rp_b64 E) (fi_bytes fetched)))) r, st)))"

section \<open>The image of a markdown link\<close>

fun contains_inline_data :: "json \<Rightarrow> bool"
and fields_inline_data :: "jobject \<Rightarrow> bool"
and items_inline_data :: "json list \<Rightarrow> bool" where
  "contains_inline_data (JObject m) \<longleftrightarrow> obj_has m ''inlineData'' \<or> fields_inline_data m"
| "contains_inline_data (JArray xs) \<longleftrightarrow> items_inline_data xs"
| "contains_inline_data _ \<longleftrightarrow> False"
| "fields_inline_data [] \<longleftrightarrow> False"
| "fields_inline_data ((k, v) # m) \<longleftrightarrow> contains_inline_data v \<or> fields_inline_data m"
| "items_inline_data [] \<longleftrightarrow> False"
| "items_inline_data (x # xs) \<longleftrightarrow> contains_inline_data x \<or> items_inline_data xs"

definition extract_markdown_image_url :: "string \<Rightarrow> string option" where
  "extract_markdown_image_url content =
     (case split_once_str '']('' content of
        None \<Rightarrow> None
      | Some (_, rest) \<Rightarrow>
          (case split_once (CHR '')'') rest of
             None \<Rightarrow> None
           | Some (inside, _) \<Rightarrow>
               (let candidate = trim inside in if is_http_url candidate then Some candidate else None)))"

definition part_markdown_image_url :: "json \<Rightarrow> string option" where
  "part_markdown_image_url part =
     (case jget_str ''text'' part of
        None \<Rightarrow> None
      | Some content \<Rightarrow>
          (let content = trim content in
           if content = [] then None else extract_markdown_image_url content))"

definition extract_first_markdown_image_url_from_parts :: "json list \<Rightarrow> string option" where
  "extract_first_markdown_image_url_from_parts parts = find_map part_markdown_image_url parts"

definition FIRST_PARTS :: "string list" where
  "FIRST_PARTS = [''candidates'', ''0'', ''content'', ''parts'']"

definition normalize_special_markdown_image_response ::
  "('u, 'l) response_env \<Rightarrow> json \<Rightarrow> output_mode \<Rightarrow> fetch_service option \<Rightarrow> config \<Rightarrow> 'l fetch_state
   \<Rightarrow> json fallible option \<times> 'l fetch_state" where
  "normalize_special_markdown_image_response E body mode fetch_service cfg st =
     (if contains_inline_data body then (Some (Ok body), st)
      else (case Option.bind (jpointer FIRST_PARTS body) as_array of
          None \<Rightarrow> (Some (Ok body), st)
        | Some parts \<Rightarrow>
            (case extract_first_markdown_image_url_from_parts parts of
               None \<Rightarrow> (Some (Ok body), st)
             | Some image_url \<Rightarrow>
                 (case output_part E mode fetch_service cfg 0 image_url st of
                    (r, st) \<Rightarrow>
                      (map_option (map_sum id (\<lambda>part.
                         jpointer_update FIRST_PARTS (\<lambda>_. JArray [part]) body)) r, st)))))"

section \<open>The result of an aiapidev task\<close>

definition aiapidev_item_url :: "json \<Rightarrow> string option" where
  "aiapidev_item_url item =
     (case jget_str ''url'' item of
        None \<Rightarrow> None
      | Some url \<Rightarrow>
          if eq_ignore_case (unwrap_or (jget_str ''type'' item) []) ''image'' \<and> is_http_url url
          then Some url else None)"

definition extract_aiapidev_image_urls :: "json \<Rightarrow> string list" where
  "extract_aiapidev_image_urls body =
     (case Option.bind (jpointer [''result'', ''items''] body) as_array of
        None \<Rightarrow> []
      | Some items \<Rightarrow> filter_map aiapidev_item_url items)"

definition build_aiapidev_usage_metadata :: json where
  "build_aiapidev_usage_metadata =
     JObject [(''candidatesTokenCount'', jnat 1024), (''promptTokenCount'', jnat 1024),
       (''totalTokenCount'', jnat 2048)]"

text \<open>The loop over the URLs; the first failure ends the call.\<close>

fun output_parts ::
  "('u, 'l) response_env \<Rightarrow> output_mode \<Rightarrow> fetch_service option \<Rightarrow> config \<Rightarrow> nat \<Rightarrow> string list \<Rightarrow> 'l fetch_state
   \<Rightarrow> json list fallible option \<times> 'l fetch_state" where
  "output_parts E mode fs cfg n [] st = (Some (Ok []), st)"
| "output_parts E mode fs cfg n (url # urls) st =
     (case output_part E mode fs cfg n url st of
        (None, st) \<Rightarrow> (None, st)
      | (Some (Inl e), st) \<Rightarrow> (Some (Err e), st)
      | (Some (Inr part), st) \<Rightarrow>
          (case output_parts E mode fs cfg (n + 1) urls st of
             (r, st) \<Rightarrow> (map_option (map_sum id (\<lambda>parts. part # parts)) r, st)))"

definition gemini_answer :: "json list \<Rightarrow> json" where
  "gemini_answer parts =
     JObject
       [(''candidates'', JArray [JObject
           [(''content'', JObject [(''role'', JString ''model''), (''parts'', JArray parts)]),
            (''finishReason'', JString ''STOP''), (''safetyRatings'', JArray [])]]),
        (''usageMetadata'', build_aiapidev_usage_metadata)]"

definition normalize_aiapidev_task_response ::
  "('u, 'l) response_env \<Rightarrow> json \<Rightarrow> output_mode \<Rightarrow> fetch_service option \<Rightarrow> config \<Rightarrow> 'l fetch_state
   \<Rightarrow> json fallible option \<times> 'l fetch_state" where
  "normalize_aiapidev_task_response E body mode fetch_service cfg st =
     (let image_urls = extract_aiapidev_image_urls body in
      if image_urls = [] then (Some (Err (Message MSG_AIAPIDEV_MISSING_IMAGE_URLS)), st)
      else (case output_parts E mode fetch_service cfg 0 image_urls st of
          (r, st) \<Rightarrow> (map_option (map_sum id gemini_answer) r, st)))"


section \<open>Thought signatures\<close>

lemma json_wf_obj_get: "json_wf (JObject m) \<Longrightarrow> obj_get m k = Some v \<Longrightarrow> json_wf v"
  by (auto simp: fields_wf_iff dest!: map_of_SomeD)

lemma remove_from_items_map: "remove_from_items xs = map remove_thought_signatures xs"
  by (induction xs) auto

lemma remove_from_fields_map: "remove_from_fields m = map (\<lambda>(k, v). (k, remove_thought_signatures v)) m"
  by (induction m) auto

lemma keys_remove_from_fields: "map fst (remove_from_fields m) = map fst m"
  by (induction m) auto

lemma get_remove_from_fields: "obj_get (remove_from_fields m) k = map_option remove_thought_signatures (obj_get m k)"
  by (induction m) auto

lemma json_wf_remove_thought_signatures: "json_wf v \<Longrightarrow> json_wf (remove_thought_signatures v)"
proof (induction v rule: json_induct)
  case (JArray xs)
  then show ?case by (simp add: remove_from_items_map items_wf_iff)
next
  case (JObject m)
  have "fields_wf (remove_from_fields m)"
    using JObject by (fastforce simp: remove_from_fields_map fields_wf_iff)
  moreover have d: "distinct (map fst (remove_from_fields m))"
    using JObject.prems by (simp add: keys_remove_from_fields)
  ultimately show ?case by (simp add: distinct_obj_remove fields_wf_remove)
qed auto

lemma no_thought_signatures: "json_wf v \<Longrightarrow> ''thoughtSignature'' \<notin> json_keys (remove_thought_signatures v)"
proof (induction v rule: json_induct)
  case (JArray xs)
  have "\<forall>x \<in> set xs. ''thoughtSignature'' \<notin> json_keys (remove_thought_signatures x)"
    using JArray by (simp add: items_wf_iff)
  moreover have "item_keys ys = (\<Union>y \<in> set ys. json_keys y)" for ys
    by (induction ys) auto
  ultimately show ?case by (simp add: remove_from_items_map)
next
  case (JObject m)
  have d: "distinct (map fst (remove_from_fields m))"
    using JObject.prems by (simp add: keys_remove_from_fields)
  have "''thoughtSignature'' \<notin> json_keys x" if "(k, x) \<in> set (remove_from_fields m)" for k x
    using that JObject by (auto simp: remove_from_fields_map fields_wf_iff)
  then show ?case by (auto simp: field_keys_def' set_obj_remove [OF d])
qed auto

lemma remove_thought_signatures_id: "''thoughtSignature'' \<notin> json_keys v \<Longrightarrow> remove_thought_signatures v = v"
proof (induction v rule: json_induct)
  case (JArray xs)
  have "item_keys ys = (\<Union>y \<in> set ys. json_keys y)" for ys
    by (induction ys) auto
  with JArray show ?case by (simp add: remove_from_items_map map_idI)
next
  case (JObject m)
  have "remove_from_fields m = m"
    unfolding remove_from_fields_map using JObject by (intro map_idI) (auto simp: field_keys_def')
  moreover have "''thoughtSignature'' \<notin> fst ` set m"
    using JObject.prems by (simp add: field_keys_def')
  ultimately show ?case by (simp add: obj_remove_absent)
qed auto

section \<open>The largest image\<close>

text \<open>The size of a part's base64 image; 0 for a part that has none.\<close>

definition base64_len :: "json \<Rightarrow> nat" where
  "base64_len part =
     (case inline_data_payload part of
        None \<Rightarrow> 0
      | Some data \<Rightarrow> if is_url_like data then 0 else length data)"

definition other_parts :: "json list \<Rightarrow> json list" where
  "other_parts parts = filter (\<lambda>p. \<not> is_base64_inline_image_part p) parts"

text \<open>\<open>k\<close> is the first of the largest images.\<close>

definition first_largest :: "json list \<Rightarrow> nat \<Rightarrow> bool" where
  "first_largest parts k \<longleftrightarrow>
     k < length parts \<and> 0 < base64_len (parts ! k)
     \<and> (\<forall>j < length parts. base64_len (parts ! j) \<le> base64_len (parts ! k))
     \<and> (\<forall>j < k. base64_len (parts ! j) < base64_len (parts ! k))"

lemma base64_len_part: "0 < base64_len p \<Longrightarrow> is_base64_inline_image_part p"
  by (auto simp: base64_len_def is_base64_inline_image_part_def split: option.splits if_splits)

lemma best_part_step:
  "best_part (p # ps) i bs bi =
     (if bs < base64_len p then best_part ps (i + 1) (base64_len p) (Some i) else best_part ps (i + 1) bs bi)"
  by (auto simp: base64_len_def split: option.splits)

lemma best_part_cases:
  "(\<forall>p \<in> set ps. base64_len p \<le> bs) \<and> best_part ps i bs bi = bi
   \<or> (\<exists>k < length ps. best_part ps i bs bi = Some (i + k) \<and> bs < base64_len (ps ! k)
        \<and> (\<forall>j < length ps. base64_len (ps ! j) \<le> base64_len (ps ! k))
        \<and> (\<forall>j < k. base64_len (ps ! j) < base64_len (ps ! k)))"
proof (induction ps arbitrary: i bs bi)
  case (Cons p ps)
  show ?case
  proof (cases "bs < base64_len p")
    case True
    from Cons [of "base64_len p" "i + 1" "Some i"] show ?thesis
    proof (elim disjE conjE exE)
      assume "\<forall>q \<in> set ps. base64_len q \<le> base64_len p" "best_part ps (i + 1) (base64_len p) (Some i) = Some i"
      then show ?thesis
        using True by (intro disjI2 exI [of _ 0]) (auto simp: best_part_step nth_Cons split: nat.splits simp del: best_part.simps)
    next
      fix k
      assume "k < length ps" "best_part ps (i + 1) (base64_len p) (Some i) = Some (i + 1 + k)"
        "base64_len p < base64_len (ps ! k)" "\<forall>j < length ps. base64_len (ps ! j) \<le> base64_len (ps ! k)"
        "\<forall>j < k. base64_len (ps ! j) < base64_len (ps ! k)"
      then show ?thesis
        using True by (intro disjI2 exI [of _ "Suc k"]) (auto simp: best_part_step nth_Cons split: nat.splits simp del: best_part.simps)
    qed
  next
    case False
    from Cons [of bs "i + 1" bi] show ?thesis
    proof (elim disjE conjE exE)
      assume "\<forall>q \<in> set ps. base64_len q \<le> bs" "best_part ps (i + 1) bs bi = bi"
      then show ?thesis using False by (intro disjI1) (auto simp: best_part_step simp del: best_part.simps)
    next
      fix k
      assume "k < length ps" "best_part ps (i + 1) bs bi = Some (i + 1 + k)" "bs < base64_len (ps ! k)"
        "\<forall>j < length ps. base64_len (ps ! j) \<le> base64_len (ps ! k)" "\<forall>j < k. base64_len (ps ! j) < base64_len (ps ! k)"
      then show ?thesis
        using False by (intro disjI2 exI [of _ "Suc k"]) (auto simp: best_part_step nth_Cons split: nat.splits simp del: best_part.simps)
    qed
  qed
qed simp

lemma retain_none: "best < i \<Longrightarrow> retain_parts ps i best = other_parts ps"
  by (induction ps arbitrary: i) (auto simp: other_parts_def)

lemma retain_parts_eq:
  "k < length ps \<Longrightarrow> retain_parts ps i (i + k) = other_parts (take k ps) @ (ps ! k) # other_parts (drop (Suc k) ps)"
proof (induction ps arbitrary: i k)
  case (Cons p ps)
  show ?case
  proof (cases k)
    case 0
    then show ?thesis by (simp add: retain_none other_parts_def)
  next
    case (Suc j)
    with Cons.prems Cons.IH [of j "i + 1"] show ?thesis by (simp add: other_parts_def)
  qed
qed simp

text \<open>What is kept: all parts when no image has a byte, else one image in its place.\<close>

lemma keep_best_part_cases:
  obtains (Keep) "\<forall>p \<in> set ps. base64_len p = 0" "keep_best_part ps = ps"
    | (One) k where "first_largest ps k"
        "keep_best_part ps = other_parts (take k ps) @ (ps ! k) # other_parts (drop (Suc k) ps)"
  using best_part_cases [of ps 0 0 None]
proof (elim disjE conjE exE)
  assume "\<forall>p \<in> set ps. base64_len p \<le> 0" "best_part ps 0 0 None = None"
  then show ?thesis by (intro that(1)) (auto simp: keep_best_part_def)
next
  fix k
  assume "k < length ps" "best_part ps 0 0 None = Some (0 + k)" "0 < base64_len (ps ! k)"
    "\<forall>j < length ps. base64_len (ps ! j) \<le> base64_len (ps ! k)" "\<forall>j < k. base64_len (ps ! j) < base64_len (ps ! k)"
  then show ?thesis
    using retain_parts_eq [of k ps 0] by (intro that(2) [of k]) (auto simp: keep_best_part_def first_largest_def)
qed

lemma other_parts_append [simp]: "other_parts (a @ b) = other_parts a @ other_parts b"
  by (simp add: other_parts_def)

lemma other_parts_idem [simp]: "other_parts (other_parts ps) = other_parts ps"
  by (simp add: other_parts_def)

lemma other_parts_no_image: "p \<in> set (other_parts ps) \<Longrightarrow> base64_len p = 0"
  using base64_len_part [of p] by (auto simp: other_parts_def)

lemma keep_best_part_idem [simp]: "keep_best_part (keep_best_part ps) = keep_best_part ps"
proof (cases ps rule: keep_best_part_cases)
  case (One k)
  let ?a = "other_parts (take k ps)" and ?c = "other_parts (drop (Suc k) ps)"
  let ?rs = "?a @ (ps ! k) # ?c"
  have pos: "0 < base64_len (ps ! k)" using One(1) by (simp add: first_largest_def)
  show ?thesis
    unfolding One(2)
  proof (cases ?rs rule: keep_best_part_cases)
    case (One j)
    then have j: "j < length ?rs" "0 < base64_len (?rs ! j)" by (simp_all add: first_largest_def)
    have "j = length ?a"
    proof (rule linorder_cases)
      assume "j < length ?a"
      then have "?rs ! j \<in> set ?a" by (simp add: nth_append)
      with j(2) other_parts_no_image show ?thesis by fastforce
    next
      assume l: "length ?a < j"
      have "?rs ! j = ?c ! (j - length ?a - 1)" using l by (simp add: nth_append nth_Cons')
      moreover have "?c ! (j - length ?a - 1) \<in> set ?c" using j(1) l by (intro nth_mem) simp
      ultimately show ?thesis using j(2) other_parts_no_image by fastforce
    qed
    with One(2) show "keep_best_part ?rs = ?rs" by (simp add: nth_append)
  qed
qed simp

text \<open>Parts are chosen by their payloads only.\<close>

lemma keep_best_part_map:
  assumes "\<And>p. p \<in> set ps \<Longrightarrow> inline_data_payload (f p) = inline_data_payload p"
  shows "keep_best_part (map f ps) = map f (keep_best_part ps)"
proof -
  have "best_part (map f ps) i bs bi = best_part ps i bs bi" for i bs bi
    using assms by (induction ps arbitrary: i bs bi) (auto split: option.splits)
  moreover have "retain_parts (map f ps) i b = map f (retain_parts ps i b)" for i b
    using assms by (induction ps arbitrary: i) (auto simp: is_base64_inline_image_part_def)
  ultimately show ?thesis by (auto simp: keep_best_part_def split: option.splits)
qed

lemma payload_remove_thought_signatures:
  assumes "json_wf p"
  shows "inline_data_payload (remove_thought_signatures p) = inline_data_payload p"
proof (cases p)
  case (JObject m)
  have get: "obj_get (obj_remove ''thoughtSignature'' (remove_from_fields n)) k
      = map_option remove_thought_signatures (obj_get n k)"
    if "distinct (map fst n)" "k \<noteq> ''thoughtSignature''" for n k
    using that by (simp add: obj_get_remove keys_remove_from_fields get_remove_from_fields)
  have d: "distinct (map fst m)" "fields_wf m" using assms JObject by simp_all
  show ?thesis
  proof (cases "obj_get m ''inlineData''")
    case None
    then show ?thesis using JObject d by (simp add: inline_data_payload_def get)
  next
    case (Some v)
    then have "json_wf v" using json_wf_obj_get [of m] assms JObject by blast
    with Some show ?thesis
    proof (cases v)
      case inner: (JObject n)
      have dn: "distinct (map fst n)" using \<open>json_wf v\<close> inner by simp
      have "Option.bind (map_option remove_thought_signatures w) as_str = Option.bind w as_str" for w
        by (cases w; cases "the w") auto
      then show ?thesis using Some inner JObject d dn by (simp add: inline_data_payload_def get)
    qed (use JObject d in \<open>simp_all add: inline_data_payload_def get\<close>)
  qed
qed (simp_all add: inline_data_payload_def)

section \<open>Properties of the Gemini answer\<close>

definition candidates_of :: "json \<Rightarrow> json list option" where
  "candidates_of body = Option.bind (jget ''candidates'' body) as_array"

definition candidate_parts :: "json \<Rightarrow> json list option" where
  "candidate_parts c =
     Option.bind (Option.bind (Option.bind (jget ''content'' c) as_object)
       (\<lambda>content. obj_get content ''parts'')) as_array"

lemma candidate_parts_Some_iff:
  "candidate_parts c = Some ps
   \<longleftrightarrow> (\<exists>m content. c = JObject m \<and> obj_get m ''content'' = Some (JObject content)
          \<and> obj_get content ''parts'' = Some (JArray ps))"
  by (cases c) (auto simp: candidate_parts_def bind_eq_Some_conv as_object_Some_iff as_array_Some_iff)

lemma candidates_of_Some_iff:
  "candidates_of body = Some cs \<longleftrightarrow> (\<exists>m. body = JObject m \<and> obj_get m ''candidates'' = Some (JArray cs))"
  by (cases body) (auto simp: candidates_of_def bind_eq_Some_conv as_array_Some_iff)

lemma keep_candidates: "candidates_of (keep_largest_inline_image body) = map_option (map keep_in_candidate) (candidates_of body)"
  by (auto simp: keep_largest_inline_image_def candidates_of_def split: json.splits option.splits)

lemma keep_parts: "candidate_parts (keep_in_candidate c) = map_option keep_best_part (candidate_parts c)"
  by (auto simp: keep_in_candidate_def candidate_parts_def split: json.splits option.splits)

lemma candidate_parts_remove:
  assumes "json_wf c" "candidate_parts c = Some ps"
  shows "candidate_parts (remove_thought_signatures c) = Some (map remove_thought_signatures ps)" "items_wf ps"
proof -
  obtain m content where c: "c = JObject m" "obj_get m ''content'' = Some (JObject content)"
    "obj_get content ''parts'' = Some (JArray ps)"
    using assms(2) by (auto simp: candidate_parts_Some_iff)
  have wf: "json_wf (JObject content)" using assms(1) json_wf_obj_get c by blast
  then have "json_wf (JArray ps)" using json_wf_obj_get c(3) by blast
  then show "items_wf ps" by simp
  show "candidate_parts (remove_thought_signatures c) = Some (map remove_thought_signatures ps)"
    using assms(1) c wf by (simp add: candidate_parts_def obj_get_remove keys_remove_from_fields
        get_remove_from_fields remove_from_items_map)
qed

lemma candidates_remove:
  assumes "json_wf body" "candidates_of body = Some cs"
  shows "candidates_of (remove_thought_signatures body) = Some (map remove_thought_signatures cs)" "items_wf cs"
proof -
  obtain m where m: "body = JObject m" "obj_get m ''candidates'' = Some (JArray cs)"
    using assms(2) by (auto simp: candidates_of_Some_iff)
  then have "json_wf (JArray cs)" using assms(1) json_wf_obj_get by blast
  then show "items_wf cs" by simp
  show "candidates_of (remove_thought_signatures body) = Some (map remove_thought_signatures cs)"
    using assms(1) m by (simp add: candidates_of_def obj_get_remove keys_remove_from_fields
        get_remove_from_fields remove_from_items_map)
qed

text \<open>
  (C34) Of a Gemini answer every candidate keeps its parts, without thought signatures and in their
  order, except for its images: when one of them has a byte, exactly one image is kept, the first of
  the largest ones, in its place among the other parts.
\<close>

theorem gemini_answer_keeps_largest_image:
  assumes "json_wf body" "candidates_of body = Some cs" "i < length cs" "candidate_parts (cs ! i) = Some ps"
  shows "\<exists>cs' qs. candidates_of (normalize_gemini_response body) = Some cs' \<and> length cs' = length cs
    \<and> candidate_parts (cs' ! i) = Some (map remove_thought_signatures qs)
    \<and> (if \<forall>p \<in> set ps. base64_len p = 0 then qs = ps
       else \<exists>k. first_largest ps k \<and> qs = other_parts (take k ps) @ [ps ! k] @ other_parts (drop (Suc k) ps))"
proof -
  have c: "candidates_of (normalize_gemini_response body)
      = Some (map (keep_in_candidate \<circ> remove_thought_signatures) cs)" (is "_ = Some ?cs'")
    using candidates_remove [OF assms(1,2)] by (simp add: normalize_gemini_response_def keep_candidates)
  have "json_wf (cs ! i)" using candidates_remove(2) [OF assms(1,2)] assms(3) by (simp add: items_wf_iff)
  note cp = candidate_parts_remove [OF this assms(4)]
  have "candidate_parts (?cs' ! i) = Some (keep_best_part (map remove_thought_signatures ps))"
    using assms(3) cp(1) by (simp add: keep_parts)
  moreover have "keep_best_part (map remove_thought_signatures ps) = map remove_thought_signatures (keep_best_part ps)"
    using cp(2) by (intro keep_best_part_map payload_remove_thought_signatures) (simp add: items_wf_iff)
  moreover have "if \<forall>p \<in> set ps. base64_len p = 0 then keep_best_part ps = ps
       else \<exists>k. first_largest ps k \<and> keep_best_part ps = other_parts (take k ps) @ [ps ! k] @ other_parts (drop (Suc k) ps)"
  proof (cases ps rule: keep_best_part_cases)
    case (One k)
    then have "\<not> (\<forall>p \<in> set ps. base64_len p = 0)" using nth_mem [of k ps] by (fastforce simp: first_largest_def)
    with One show ?thesis by auto
  qed simp
  ultimately show ?thesis
    using c by (intro exI [of _ ?cs'] exI [of _ "keep_best_part ps"]) simp
qed

lemma gemini_answer_keeps_largest_image_witness:
  "let part = (\<lambda>data. JObject [(''inlineData'', JObject [(''data'', JString data)])]);
       note_part = JObject [(''text'', JString ''x''), (''thoughtSignature'', JString ''s'')];
       body = JObject [(''candidates'', JArray [JObject [(''content'', JObject [(''parts'',
         JArray [part ''aa'', note_part, part ''bbbb'', part ''cccc''])])]])]
   in \<exists>cs'. candidates_of (normalize_gemini_response body) = Some cs'
     \<and> candidate_parts (cs' ! 0) = Some [JObject [(''text'', JString ''x'')], part ''bbbb'']"
proof -
  let ?part = "\<lambda>data. JObject [(''inlineData'', JObject [(''data'', JString data)])]"
  let ?note = "JObject [(''text'', JString ''x''), (''thoughtSignature'', JString ''s'')]"
  let ?ps = "[?part ''aa'', ?note, ?part ''bbbb'', ?part ''cccc'']"
  let ?body = "JObject [(''candidates'', JArray [JObject [(''content'', JObject [(''parts'', JArray ?ps)])]])]"
  have e: "base64_len (?part ''aa'') = 2" "base64_len (?part ''bbbb'') = 4" "base64_len (?part ''cccc'') = 4"
    "base64_len ?note = 0" "is_base64_inline_image_part (?part ''aa'')" "is_base64_inline_image_part (?part ''cccc'')"
    "\<not> is_base64_inline_image_part ?note"
    by (simp_all add: base64_len_def inline_data_payload_def is_url_like_def starts_with_def is_base64_inline_image_part_def)
  have "json_wf ?body" by (simp add: u64_max_def)
  from gemini_answer_keeps_largest_image [OF this, of "[JObject [(''content'', JObject [(''parts'', JArray ?ps)])]]" 0 ?ps] e
  obtain cs' k where r: "candidates_of (normalize_gemini_response ?body) = Some cs'" "first_largest ?ps k"
    "candidate_parts (cs' ! 0) = Some (map remove_thought_signatures
       (other_parts (take k ?ps) @ [?ps ! k] @ other_parts (drop (Suc k) ?ps)))"
    by (auto simp: candidates_of_def candidate_parts_def)
  have "k = 2"
  proof -
    have "k < 4" using r(2) by (simp add: first_largest_def)
    then have "k = 0 \<or> k = 1 \<or> k = 2 \<or> k = 3" by auto
    then show ?thesis
      using r(2) e by (elim disjE) (auto simp: first_largest_def dest: spec [of _ 2])
  qed
  with r e show ?thesis by (simp add: Let_def other_parts_def)
qed

lemma obj_insert_twice [simp]: "obj_insert k v (obj_insert k w m) = obj_insert k v m"
  by (induction m) auto

lemma keep_in_candidate_idem: "keep_in_candidate (keep_in_candidate c) = keep_in_candidate c"
  by (auto simp: keep_in_candidate_def split: json.splits option.splits)

lemma keep_largest_idem: "keep_largest_inline_image (keep_largest_inline_image b) = keep_largest_inline_image b"
  by (auto simp: keep_largest_inline_image_def keep_in_candidate_idem comp_def split: json.splits option.splits)

lemma item_keys_eq: "item_keys xs = (\<Union>x \<in> set xs. json_keys x)"
  by (induction xs) auto

lemma field_keys_insert:
  assumes "obj_get m k = Some w" "json_keys v \<subseteq> json_keys w"
  shows "field_keys (obj_insert k v m) \<subseteq> field_keys m"
  using assms by (induction m) (auto split: if_splits)

lemma set_keep_best_part: "set (keep_best_part ps) \<subseteq> set ps"
proof (cases ps rule: keep_best_part_cases)
  case (One k)
  then have "k < length ps" by (simp add: first_largest_def)
  then show ?thesis
    using One(2) by (auto simp: other_parts_def dest: in_set_takeD in_set_dropD)
qed simp

lemma keys_keep_in_candidate: "json_keys (keep_in_candidate c) \<subseteq> json_keys c"
proof (cases "candidate_parts c")
  case (Some ps)
  then obtain m content where c: "c = JObject m" "obj_get m ''content'' = Some (JObject content)"
    "obj_get content ''parts'' = Some (JArray ps)"
    by (auto simp: candidate_parts_Some_iff)
  have "item_keys (keep_best_part ps) \<subseteq> item_keys ps"
    using set_keep_best_part [of ps] by (auto simp: item_keys_eq)
  then have "field_keys (obj_insert ''parts'' (JArray (keep_best_part ps)) content) \<subseteq> field_keys content"
    by (intro field_keys_insert [OF c(3)]) simp
  then have "field_keys (obj_insert ''content'' (JObject (obj_insert ''parts'' (JArray (keep_best_part ps)) content)) m)
      \<subseteq> field_keys m"
    by (intro field_keys_insert [OF c(2)]) simp
  then show ?thesis using c by (simp add: keep_in_candidate_def)
next
  case None
  then have "keep_in_candidate c = c"
    by (auto simp: keep_in_candidate_def candidate_parts_def split: json.splits option.splits)
  then show ?thesis by simp
qed

lemma keys_keep_largest: "json_keys (keep_largest_inline_image b) \<subseteq> json_keys b"
proof (cases "candidates_of b")
  case (Some cs)
  then obtain m where b: "b = JObject m" "obj_get m ''candidates'' = Some (JArray cs)"
    by (auto simp: candidates_of_Some_iff)
  have "item_keys (map keep_in_candidate cs) \<subseteq> item_keys cs"
    using keys_keep_in_candidate by (fastforce simp: item_keys_eq)
  then have "field_keys (obj_insert ''candidates'' (JArray (map keep_in_candidate cs)) m) \<subseteq> field_keys m"
    by (intro field_keys_insert [OF b(2)]) simp
  then show ?thesis using b by (simp add: keep_largest_inline_image_def)
next
  case None
  then have "keep_largest_inline_image b = b"
    by (auto simp: keep_largest_inline_image_def candidates_of_def split: json.splits option.splits)
  then show ?thesis by simp
qed

text \<open>
  (C35) A normalized answer has no thought signature at any depth, and normalizing it again changes
  nothing.
\<close>

theorem normalized_gemini_answer_is_final:
  assumes "json_wf body" "out = normalize_gemini_response body"
  shows "''thoughtSignature'' \<notin> json_keys out \<and> normalize_gemini_response out = out"
proof -
  have k: "''thoughtSignature'' \<notin> json_keys out"
    using no_thought_signatures [OF assms(1)] keys_keep_largest [of "remove_thought_signatures body"]
    by (auto simp: assms(2) normalize_gemini_response_def)
  then have "remove_thought_signatures out = out" by (rule remove_thought_signatures_id)
  with k show ?thesis
    by (simp add: normalize_gemini_response_def assms(2) keep_largest_idem)
qed

lemma normalized_gemini_answer_is_final_witness:
  "let out = normalize_gemini_response (JObject [(''candidates'', JArray [JObject
        [(''thoughtSignature'', JString ''s''), (''index'', jnat 0)]])])
   in ''thoughtSignature'' \<notin> json_keys out \<and> normalize_gemini_response out = out"
  unfolding Let_def by (rule normalized_gemini_answer_is_final [OF _ refl]) (simp add: u64_max_def)

section \<open>Properties of the translated answers\<close>

lemma map_sum_right_Ok_iff: "map_sum id f r = Ok y \<longleftrightarrow> (\<exists>x. r = Ok x \<and> y = f x)"
  by (cases r) auto

lemma output_parts_Ok:
  assumes "output_parts E mode fs cfg n urls st = (Some (Ok parts), st')"
  shows "length parts = length urls
    \<and> (\<forall>i < length urls. \<exists>st0. fst (output_part E mode fs cfg (n + i) (urls ! i) st0) = Some (Ok (parts ! i)))"
  using assms
proof (induction urls arbitrary: n st parts)
  case (Cons url urls)
  obtain p st1 where p: "output_part E mode fs cfg n url st = (Some (Ok p), st1)"
    using Cons.prems by (auto split: prod.splits option.splits sum.splits)
  obtain ps where ps: "output_parts E mode fs cfg (n + 1) urls st1 = (Some (Ok ps), st')" "parts = p # ps"
    using Cons.prems p by (auto split: prod.splits simp: map_sum_right_Ok_iff)
  note IH = Cons.IH [OF ps(1)]
  have "\<exists>st0. fst (output_part E mode fs cfg (n + i) ((url # urls) ! i) st0) = Some (Ok (parts ! i))"
    if "i < Suc (length urls)" for i
    using that IH p ps(2) by (cases i) (auto simp: p intro: exI [of _ st])
  with IH ps(2) show ?case by simp
qed simp

lemma output_part_Ok:
  assumes "fst (output_part E mode fs cfg n url st) = Some (Ok part)"
  shows "case mode of
      OutputUrl \<Rightarrow> inline_data_payload part = Some (output_image_url (rp_url E) cfg url)
    | OutputBase64 \<Rightarrow> \<exists>st0 image. fst (fetch_output_image E fs n url st0) = Some (Ok image)
        \<and> inline_data_payload part = Some (b64_encode (rp_b64 E) (fi_bytes image))"
proof (cases mode)
  case OutputBase64
  then show ?thesis
    using assms by (auto simp: output_part_def inline_data_part_def inline_data_payload_def map_sum_right_Ok_iff
        split: prod.splits intro!: exI [of _ st])
qed (use assms in \<open>auto simp: output_part_def inline_data_part_def inline_data_payload_def\<close>)

lemma url_mode_returns:
  "\<exists>parts. output_parts E OutputUrl fs cfg n urls st = (Some (Ok parts), st)"
proof (induction urls arbitrary: n)
  case (Cons url urls)
  then obtain parts where "output_parts E OutputUrl fs cfg (n + 1) urls st = (Some (Ok parts), st)" by blast
  then show ?case by (simp add: output_part_def)
qed simp

lemma gemini_answer_parts: "jpointer FIRST_PARTS (gemini_answer parts) = Some (JArray parts)"
proof -
  have "show_nat 0 = ''0''" by code_simp
  with show_nat_index [of 0] have "parse_index ''0'' = Some 0" by simp
  then show ?thesis by (simp add: FIRST_PARTS_def gemini_answer_def jstep_def)
qed


section \<open>The markdown answer\<close>

lemma inline_part_contains: "contains_inline_data (inline_data_part mime data)"
  by (simp add: inline_data_part_def obj_has_def)

lemma fields_inline_data_iff: "fields_inline_data m \<longleftrightarrow> (\<exists>(k, v) \<in> set m. contains_inline_data v)"
  by (induction m) auto

lemma items_inline_data_iff: "items_inline_data xs \<longleftrightarrow> (\<exists>x \<in> set xs. contains_inline_data x)"
  by (induction xs) auto

lemma in_set_obj_insert: "(k, v) \<in> set (obj_insert k v m)"
  by (induction m) auto

text \<open>A value written through a pointer that leads somewhere is contained in the result.\<close>

lemma contains_jpointer_update:
  assumes "jpointer ts v \<noteq> None" "\<And>w. contains_inline_data (f w)"
  shows "contains_inline_data (jpointer_update ts f v)"
  using assms(1)
proof (induction ts arbitrary: v)
  case (Cons t ts)
  then obtain w where w: "jstep t v = Some w" "jpointer ts w \<noteq> None"
    by (auto split: option.splits)
  note IH = Cons.IH [OF w(2)]
  show ?case
  proof (cases v)
    case (JObject m)
    with w(1) IH have "fields_inline_data (obj_insert t (jpointer_update ts f w) m)"
      using in_set_obj_insert [of t "jpointer_update ts f w" m] by (auto simp: fields_inline_data_iff)
    with JObject w(1) show ?thesis by (simp add: jstep_def)
  next
    case (JArray xs)
    with w(1) obtain i where i: "parse_index t = Some i" "i < length xs" "w = xs ! i"
      by (auto simp: jstep_def split: option.splits if_splits)
    then have "jpointer_update ts f w \<in> set (xs[i := jpointer_update ts f w])"
      by (simp add: set_update_memI)
    with IH have "items_inline_data (xs[i := jpointer_update ts f w])"
      by (auto simp: items_inline_data_iff)
    with JArray i show ?thesis by simp
  qed (use w(1) in \<open>simp_all add: jstep_def\<close>)
qed (use assms(2) in simp)

lemma output_part_contains:
  assumes "fst (output_part E mode fs cfg n url st) = Some (Ok part)"
  shows "contains_inline_data part"
  using assms by (cases mode) (auto simp: output_part_def inline_part_contains map_sum_right_Ok_iff split: prod.splits)

text \<open>An answer with an image, or without parts or a link, is returned as it is.\<close>

lemma markdown_unchanged:
  assumes "contains_inline_data body
    \<or> \<not> (\<exists>parts url. jpointer FIRST_PARTS body = Some (JArray parts)
          \<and> extract_first_markdown_image_url_from_parts parts = Some url)"
  shows "normalize_special_markdown_image_response E body mode fs cfg st = (Some (Ok body), st)"
  using assms by (auto simp: normalize_special_markdown_image_response_def bind_eq_Some_conv as_array_Some_iff
      split: option.splits)

text \<open>
  Translating a markdown answer settles: what a call returned is returned unchanged, and without
  fetching anything, by every later call, in either mode and under every configuration.
\<close>

theorem markdown_answer_settles:
  assumes run: "normalize_special_markdown_image_response E body mode fs cfg st = (Some (Ok out), st')"
  shows "normalize_special_markdown_image_response E2 out mode2 fs2 cfg2 st2 = (Some (Ok out), st2)
    \<and> (out \<noteq> body \<longrightarrow> (\<exists>parts url part. jpointer FIRST_PARTS body = Some (JArray parts)
          \<and> extract_first_markdown_image_url_from_parts parts = Some url
          \<and> fst (output_part E mode fs cfg 0 url st) = Some (Ok part)
          \<and> out = jpointer_update FIRST_PARTS (\<lambda>_. JArray [part]) body))"
proof (cases "\<exists>parts url. \<not> contains_inline_data body \<and> jpointer FIRST_PARTS body = Some (JArray parts)
    \<and> extract_first_markdown_image_url_from_parts parts = Some url")
  case True
  then obtain parts url where u: "\<not> contains_inline_data body" "jpointer FIRST_PARTS body = Some (JArray parts)"
    "extract_first_markdown_image_url_from_parts parts = Some url" by blast
  then obtain part where part: "fst (output_part E mode fs cfg 0 url st) = Some (Ok part)"
    "out = jpointer_update FIRST_PARTS (\<lambda>_. JArray [part]) body"
    using run by (auto simp: normalize_special_markdown_image_response_def map_sum_right_Ok_iff split: prod.splits)
  have "contains_inline_data out"
    unfolding part(2) by (rule contains_jpointer_update) (use u(2) output_part_contains [OF part(1)] in simp_all)
  with part u show ?thesis by (simp add: normalize_special_markdown_image_response_def)
next
  case False
  then have "contains_inline_data body
    \<or> \<not> (\<exists>parts url. jpointer FIRST_PARTS body = Some (JArray parts)
          \<and> extract_first_markdown_image_url_from_parts parts = Some url)" by blast
  note same = markdown_unchanged [OF this]
  from run have "out = body" unfolding same by simp
  then show ?thesis by (simp add: same)
qed

section \<open>Samples\<close>

definition sample_response_env :: "(sample_u, (string, memory_entry) lru_state) response_env" where
  "sample_response_env =
     \<lparr>rp_url = sample_url, rp_b64 = base64_std, rp_get = (\<lambda>_. sample_get), rp_lru = lru_list,
      rp_disk = sample_disk_env, rp_interfere = (\<lambda>_ s. s), rp_view = (\<lambda>_ _. sample_view),
      rp_direct = (\<lambda>_. Err (Message ''e''))\<rparr>"

lemma sample_host_allowed:
  "\<not> is_forbidden_fetch_target sample_url
     \<lparr>su_scheme = ''http'', su_host = ''x.example'', su_path = ''/a'', su_query = None, su_fragment = None\<rparr>"
proof -
  have "parse_ip_addr ''x.example'' = None" by code_simp
  moreover have "trim ''x.example'' = ''x.example''" by (simp add: trim_plain plain_char_def bval_def)
  ultimately show ?thesis
    by (simp add: is_forbidden_fetch_target_def host_or_empty_def forbidden_host_def sample_url_def
        eq_ignore_case_def to_lower_def lower_char_def bval_def)
qed

lemma sample_base64_part:
  "output_part sample_response_env OutputBase64 None cfg n ''http://x.example/a'' st
     = (Some (Ok (inline_data_part ''image/webp'' (b64_encode base64_std ''abcde''))), st)"
proof -
  have "normalize_image_mime_type (Some ''image/webp'') ''http://x.example/a'' = ''image/webp''"
    by (simp add: normalize_image_mime_type_def Let_def trim_plain plain_char_def bval_def starts_with_def to_lower_def lower_char_def)
  moreover have "url_parse sample_url ''http://x.example/a'' = Ok
      \<lparr>su_scheme = ''http'', su_host = ''x.example'', su_path = ''/a'', su_query = None, su_fragment = None\<rparr>"
    by (simp add: sample_url_eval)
  moreover have "url_scheme sample_url = su_scheme" "url_host sample_url = (\<lambda>u. Some (su_host u))"
    by (simp_all add: sample_url_def)
  ultimately show ?thesis using sample_host_allowed
    by (simp add: output_part_def fetch_output_image_def sample_response_env_def fetch_image_as_inline_data_def
        fetch_image_as_inline_data_with_options_def sample_get_def is_http_scheme_def host_or_empty_def
        is_success_def enforce_max_size_def DEFAULT_MAX_IMAGE_BYTES_def)
qed

definition sample_task_result :: json where
  "sample_task_result =
     JObject [(''result'', JObject [(''items'', JArray [JObject
        [(''type'', JString ''IMAGE''), (''url'', JString ''http://x.example/a'')]])])]"

lemma sample_task_urls: "extract_aiapidev_image_urls sample_task_result = [''http://x.example/a'']"
proof -
  have "eq_ignore_case ''IMAGE'' ''image''" by code_simp
  then show ?thesis
    by (simp add: sample_task_result_def extract_aiapidev_image_urls_def jstep_def aiapidev_item_url_def jget_str_def
        is_http_url_def starts_with_def)
qed


definition sample_markdown_answer :: json where
  "sample_markdown_answer =
     JObject [(''candidates'', JArray [JObject [(''content'', JObject [(''parts'', JArray
        [JObject [(''text'', JString ''![i](http://x.example/a) b'')]])])]])]"

lemma sample_markdown_url: "extract_first_markdown_image_url_from_parts
    [JObject [(''text'', JString ''![i](http://x.example/a) b'')]] = Some ''http://x.example/a''"
  by (simp add: extract_first_markdown_image_url_from_parts_def part_markdown_image_url_def jget_str_def
      extract_markdown_image_url_def trim_plain plain_char_def bval_def is_http_url_def starts_with_def)

lemma markdown_answer_settles_witness:
  "let cfg = config_from_env sample_url r2_env; st = sample_state in \<exists>out. normalize_special_markdown_image_response sample_response_env sample_markdown_answer OutputBase64 None cfg st
       = (Some (Ok out), st)
     \<and> normalize_special_markdown_image_response sample_response_env out OutputUrl None cfg st = (Some (Ok out), st)
     \<and> out \<noteq> sample_markdown_answer"
proof -
  let ?cfg = "config_from_env sample_url r2_env"
  let ?ps = "[JObject [(''text'', JString ''![i](http://x.example/a) b'')]]"
  let ?out = "jpointer_update FIRST_PARTS (\<lambda>_. JArray [inline_data_part ''image/webp'' (b64_encode base64_std ''abcde'')])
      sample_markdown_answer"
  have "show_nat 0 = ''0''" by code_simp
  with show_nat_index [of 0] have idx: "parse_index ''0'' = Some 0" by simp
  have ptr: "jpointer FIRST_PARTS sample_markdown_answer = Some (JArray ?ps)"
    by (simp add: FIRST_PARTS_def sample_markdown_answer_def jstep_def idx)
  have plain: "\<not> contains_inline_data sample_markdown_answer"
    by (simp add: sample_markdown_answer_def obj_has_def)
  have run: "normalize_special_markdown_image_response sample_response_env sample_markdown_answer OutputBase64 None ?cfg sample_state
      = (Some (Ok ?out), sample_state)"
    by (simp add: normalize_special_markdown_image_response_def plain ptr sample_markdown_url sample_base64_part)
  have "contains_inline_data ?out"
    by (rule contains_jpointer_update) (simp_all add: ptr inline_part_contains)
  with plain have "?out \<noteq> sample_markdown_answer" by metis
  with markdown_answer_settles [OF run, of sample_response_env OutputUrl None ?cfg sample_state] run
  show ?thesis unfolding Let_def by blast
qed

end
