(* ===== verification/Upload.thy ===== *)
theory Upload
  imports Base64_Reader Response_Rewrite
begin

text \<open>
  \<^verbatim>\<open>src/upload.rs\<close>: putting an image on an image host, R2 with a signed request or one of two
  legacy hosts with a multipart form, from bytes, from a blob or from base64 text. The HTTP client,
  the clock, the random bytes, SHA-256, HMAC and the hex encoder are parameters.
\<close>

section \<open>Data\<close>

definition UPLOAD_USER_AGENT :: string where
  "UPLOAD_USER_AGENT = ''ComfyUI-Banana/1.0''"

datatype image_host_mode = Legacy | R2 | R2ThenLegacy

record upload_result =
  ul_url :: string
  ul_provider :: string

text \<open>\<^verbatim>\<open>OffsetDateTime\<close>: its calendar fields and the milliseconds since 1970.\<close>

record clock =
  ck_year :: nat
  ck_month :: nat
  ck_day :: nat
  ck_hour :: nat
  ck_minute :: nat
  ck_second :: nat
  ck_unix_ms :: int

text \<open>
  A request: the body is a text or a form with one file part, whose content is what its reader
  gives (a stream can end in an error) and whose length is announced or not.
\<close>

record form_part =
  fp_field :: string
  fp_file_name :: string
  fp_mime_type :: string
  fp_length :: "nat option"
  fp_content :: "string fallible"

datatype upload_body = PlainBody "string fallible" | MultipartBody form_part

record upload_request =
  uq_method :: string
  uq_url :: string
  uq_headers :: "(string \<times> string) list"
  uq_body :: upload_body

record upload_response =
  ur_status :: status
  ur_text :: "string fallible"

text \<open>
  What one upload runs in. \<open>up_mime_error\<close> is the error of \<^verbatim>\<open>Part::mime_str\<close>, if any; \<open>up_key_time\<close>
  and \<open>up_sign_time\<close> are the two looks at the clock; \<open>up_io n\<close> are the file faults of the \<open>n\<close>th time
  the blob is opened.
\<close>

record 'u upload_env =
  up_url :: "'u url_api"
  up_b64 :: base64_api
  up_serde :: serde
  up_fmt :: fmt_api
  up_shape_error :: "json \<Rightarrow> string"
  up_sha256 :: "string \<Rightarrow> string"
  up_hmac :: "string \<Rightarrow> string \<Rightarrow> string fallible"
  up_hex :: "string \<Rightarrow> string"
  up_mime_error :: "string \<Rightarrow> anyhow option"
  up_send :: "upload_request \<Rightarrow> upload_response fallible"
  up_key_time :: clock
  up_sign_time :: clock
  up_random :: "nat \<Rightarrow> string"
  up_chunker :: chunker
  up_io :: "nat \<Rightarrow> fault_schedule"

section \<open>Names and addresses\<close>

definition parse_image_host_mode :: "string \<Rightarrow> image_host_mode fallible" where
  "parse_image_host_mode raw =
     (let raw = to_lower (trim raw) in
      if raw = [] \<or> raw = ''legacy'' then Ok Legacy
      else if raw = ''r2'' then Ok R2
      else if raw = ''r2_then_legacy'' then Ok R2ThenLegacy
      else Err (Message (''unsupported IMAGE_HOST_MODE '' @ raw)))"

definition extension_from_mime :: "string \<Rightarrow> string" where
  "extension_from_mime mime_type =
     (if mime_type = ''image/jpeg'' then ''.jpg''
      else if mime_type = ''image/webp'' then ''.webp''
      else if mime_type = ''image/gif'' then ''.gif''
      else ''.png'')"

definition build_r2_object_key :: "string \<Rightarrow> string \<Rightarrow> clock \<Rightarrow> string \<Rightarrow> string" where
  "build_r2_object_key key_prefix mime_type now random_hex =
     (let key_prefix = trim_char (CHR ''/'') (trim key_prefix);
          key_prefix = (if key_prefix = [] then ''images'' else key_prefix)
      in key_prefix @ ''/'' @ pad_zero 4 (show_nat (ck_year now)) @ ''/'' @ pad_zero 2 (show_nat (ck_month now))
         @ ''/'' @ pad_zero 2 (show_nat (ck_day now)) @ ''/'' @ show_int (ck_unix_ms now) @ ''-'' @ random_hex
         @ ''.'' @ trim_start_char (CHR ''.'') (extension_from_mime mime_type))"

definition build_r2_object_url :: "'u url_api \<Rightarrow> 'u \<Rightarrow> string \<Rightarrow> string \<Rightarrow> string \<times> string" where
  "build_r2_object_url U endpoint bucket key =
     (let bucket = trim bucket;
          key = trim_start_char (CHR ''/'') (trim key);
          plain_path = ''/'' @ bucket @ ''/'' @ key;
          canonical_uri = ''/'' @ byte_serialize U bucket @ ''/''
            @ join_with ''/'' (map (byte_serialize U) (split_on (CHR ''/'') key));
          object_url = url_set_path U (trim_end_char (CHR ''/'') (url_path U endpoint) @ plain_path) endpoint
      in (url_text U object_url, canonical_uri))"

section \<open>Hashes\<close>

definition sha256_hex :: "'u upload_env \<Rightarrow> string \<Rightarrow> string" where
  "sha256_hex E data = up_hex E (up_sha256 E data)"

definition sha256_hex_base64 :: "'u upload_env \<Rightarrow> string \<Rightarrow> string fallible" where
  "sha256_hex_base64 E data_base64 = map_sum id (sha256_hex E) (decode_from (up_b64 E) data_base64 0)"

text \<open>What reads on a reader give in all; an empty read is the end.\<close>

fun reads_content :: "(string, string) result list \<Rightarrow> string fallible" where
  "reads_content [] = Ok []"
| "reads_content (Inl e # reads) = Err (Message e)"
| "reads_content (Inr s # reads) =
     (if s = [] then Ok [] else map_sum id (\<lambda>rest. s @ rest) (reads_content reads))"

definition open_blob :: "'u upload_env \<Rightarrow> nat \<Rightarrow> blob_runtime \<Rightarrow> blob_handle \<Rightarrow> (string, string) result list fallible" where
  "open_blob E n rt blob = map_sum Message id (open_reader (up_chunker E) rt (up_io E n) blob)"

definition sha256_hex_blob :: "'u upload_env \<Rightarrow> nat \<Rightarrow> blob_runtime \<Rightarrow> blob_handle \<Rightarrow> string fallible" where
  "sha256_hex_blob E n rt blob =
     (case bh_storage blob of
        Inline bytes \<Rightarrow> Ok (sha256_hex E bytes)
      | Shared bytes \<Rightarrow> Ok (sha256_hex E bytes)
      | Spilled _ \<Rightarrow>
          (case open_blob E n rt blob of
             Err e \<Rightarrow> Err e
           | Ok reads \<Rightarrow> map_sum id (sha256_hex E) (reads_content reads)))"

definition hmac_sha256 :: "'u upload_env \<Rightarrow> string \<Rightarrow> string \<Rightarrow> string fallible" where
  "hmac_sha256 E key data = up_hmac E key data"

definition ok_or_default :: "string fallible \<Rightarrow> string" where
  "ok_or_default r = (case r of Err _ \<Rightarrow> [] | Ok s \<Rightarrow> s)"

definition derive_aws_v4_signing_key :: "'u upload_env \<Rightarrow> string \<Rightarrow> string \<Rightarrow> string \<Rightarrow> string \<Rightarrow> string" where
  "derive_aws_v4_signing_key E secret_access_key date_stamp region service =
     (let k_date = ok_or_default (hmac_sha256 E (''AWS4'' @ secret_access_key) date_stamp);
          k_region = ok_or_default (hmac_sha256 E k_date region);
          k_service = ok_or_default (hmac_sha256 E k_region service)
      in ok_or_default (hmac_sha256 E k_service ''aws4_request''))"

definition random_hex :: "'u upload_env \<Rightarrow> nat \<Rightarrow> string" where
  "random_hex E bytes_len = up_hex E (up_random E bytes_len)"

section \<open>The legacy hosts\<close>

definition file_part :: "string \<Rightarrow> string \<Rightarrow> nat option \<Rightarrow> string fallible \<Rightarrow> form_part" where
  "file_part field_name mime_type content_length content =
     \<lparr>fp_field = field_name, fp_file_name = ''image'' @ extension_from_mime mime_type,
      fp_mime_type = mime_type, fp_length = content_length, fp_content = content\<rparr>"

text \<open>Building the part fails for a MIME type that does not parse; then the form is sent.\<close>

definition send_form ::
  "'u upload_env \<Rightarrow> string \<Rightarrow> (string \<times> string) list \<Rightarrow> form_part \<Rightarrow> upload_response fallible" where
  "send_form E target_url headers part =
     (case up_mime_error E (fp_mime_type part) of
        Some e \<Rightarrow> Err e
      | None \<Rightarrow>
          up_send E \<lparr>uq_method = ''POST'', uq_url = target_url, uq_headers = headers, uq_body = MultipartBody part\<rparr>)"

definition send_streaming_multipart_reader ::
  "'u upload_env \<Rightarrow> string fallible \<Rightarrow> nat \<Rightarrow> string \<Rightarrow> string \<Rightarrow> string \<Rightarrow> bool \<Rightarrow> upload_response fallible" where
  "send_streaming_multipart_reader E content content_length target_url field_name mime_type accept_json =
     send_form E target_url
       ((''user-agent'', UPLOAD_USER_AGENT) # (if accept_json then [(''accept'', ''application/json'')] else []))
       (file_part field_name mime_type (Some content_length) content)"

definition send_streaming_multipart ::
  "'u upload_env \<Rightarrow> nat \<Rightarrow> blob_runtime \<Rightarrow> blob_handle \<Rightarrow> string \<Rightarrow> string \<Rightarrow> string \<Rightarrow> bool
   \<Rightarrow> upload_response fallible" where
  "send_streaming_multipart E n rt blob target_url field_name mime_type accept_json =
     (case open_blob E n rt blob of
        Err e \<Rightarrow> Err e
      | Ok reads \<Rightarrow>
          send_streaming_multipart_reader E (reads_content reads) (unat (bh_size_bytes blob)) target_url field_name
            mime_type accept_json)"

definition as_bool :: "json \<Rightarrow> bool option" where
  "as_bool v = (case v of JBool b \<Rightarrow> Some b | _ \<Rightarrow> None)"

text \<open>\<^verbatim>\<open>UguuResponse\<close> (success and the files' URLs) and \<^verbatim>\<open>KefanResponse\<close> (success and data).\<close>

definition uguu_of_json :: "json \<Rightarrow> (bool \<times> string list) option" where
  "uguu_of_json v =
     (let field = struct_field [''success'', ''files''] v in
      Option.bind (Option.bind (field ''success'') as_bool) (\<lambda>success.
      Option.bind (Option.bind (field ''files'') as_array) (\<lambda>files.
      Option.bind (those (map (\<lambda>f. Option.bind (struct_field [''url''] f ''url'') as_str) files)) (\<lambda>urls.
        Some (success, urls)))))"

definition kefan_of_json :: "json \<Rightarrow> (bool \<times> string) option" where
  "kefan_of_json v =
     (let field = struct_field [''success'', ''data''] v in
      Option.bind (Option.bind (field ''success'') as_bool) (\<lambda>success.
      Option.bind (Option.bind (field ''data'') as_str) (\<lambda>data. Some (success, data))))"

definition typed_from_str :: "'u upload_env \<Rightarrow> (json \<Rightarrow> 'a option) \<Rightarrow> string \<Rightarrow> (string, 'a) result" where
  "typed_from_str E of_json body =
     (case from_slice (up_serde E) body of
        Err e \<Rightarrow> Err e
      | Ok v \<Rightarrow> (case of_json v of None \<Rightarrow> Err (up_shape_error E v) | Some a \<Rightarrow> Ok a))"

definition uguu_answer :: "'u upload_env \<Rightarrow> upload_response \<Rightarrow> string fallible" where
  "uguu_answer E response =
     (case ur_text response of
        Err e \<Rightarrow> Err e
      | Ok body \<Rightarrow>
          if \<not> is_success (ur_status response)
          then Err (Message (''uguu status '' @ status_text (up_fmt E) (ur_status response) @ '': '' @ trim body))
          else (case typed_from_str E uguu_of_json body of
              Err err \<Rightarrow> Err (Message (''uguu invalid json: '' @ err @ '': '' @ trim body))
            | Ok (success, files) \<Rightarrow>
                if \<not> success \<or> files = [] \<or> trim (hd files) = []
                then Err (Message (''uguu upload failed: '' @ trim body))
                else Ok (hd files)))"

definition kefan_answer :: "'u upload_env \<Rightarrow> upload_response \<Rightarrow> string fallible" where
  "kefan_answer E response =
     (case ur_text response of
        Err e \<Rightarrow> Err e
      | Ok body \<Rightarrow>
          (case typed_from_str E kefan_of_json body of
             Err err \<Rightarrow> Err (Message (''kefan invalid json: '' @ err @ '': '' @ trim body))
           | Ok (success, data) \<Rightarrow>
               if \<not> success \<or> trim data = [] then Err (Message (''kefan upload failed: '' @ trim body))
               else Ok data))"

definition and_then :: "'a fallible \<Rightarrow> ('a \<Rightarrow> 'b fallible) \<Rightarrow> 'b fallible" where
  "and_then r f = (case r of Err e \<Rightarrow> Err e | Ok a \<Rightarrow> f a)"

definition upload_to_uguu :: "'u upload_env \<Rightarrow> string \<Rightarrow> string \<Rightarrow> string \<Rightarrow> string fallible" where
  "upload_to_uguu E target_url data mime_type =
     and_then (send_form E target_url [(''user-agent'', UPLOAD_USER_AGENT), (''accept'', ''application/json'')]
                 (file_part ''files[]'' mime_type (Some (length data)) (Ok data)))
       (uguu_answer E)"

definition upload_to_kefan :: "'u upload_env \<Rightarrow> string \<Rightarrow> string \<Rightarrow> string \<Rightarrow> string fallible" where
  "upload_to_kefan E target_url data mime_type =
     and_then (send_form E target_url [(''user-agent'', UPLOAD_USER_AGENT)]
                 (file_part ''file'' mime_type (Some (length data)) (Ok data)))
       (kefan_answer E)"

text \<open>A blob is opened for the \<open>n\<close>th time.\<close>

definition upload_blob_to_uguu ::
  "'u upload_env \<Rightarrow> config \<Rightarrow> nat \<Rightarrow> blob_runtime \<Rightarrow> blob_handle \<Rightarrow> string \<Rightarrow> string fallible" where
  "upload_blob_to_uguu E cfg n rt blob mime_type =
     and_then (send_streaming_multipart E n rt blob (legacy_uguu_upload_url cfg) ''files[]'' mime_type True)
       (uguu_answer E)"

definition upload_blob_to_kefan ::
  "'u upload_env \<Rightarrow> config \<Rightarrow> nat \<Rightarrow> blob_runtime \<Rightarrow> blob_handle \<Rightarrow> string \<Rightarrow> string fallible" where
  "upload_blob_to_kefan E cfg n rt blob mime_type =
     and_then (send_streaming_multipart E n rt blob (legacy_kefan_upload_url cfg) ''file'' mime_type False)
       (kefan_answer E)"

definition upload_base64_to_uguu :: "'u upload_env \<Rightarrow> config \<Rightarrow> string \<Rightarrow> string \<Rightarrow> string fallible" where
  "upload_base64_to_uguu E cfg data_base64 mime_type =
     and_then (decoded_base64_len data_base64) (\<lambda>decoded_len.
     and_then (send_streaming_multipart_reader E (drain_reader (up_b64 E) (b64_reader_new data_base64)) decoded_len
                 (legacy_uguu_upload_url cfg) ''files[]'' mime_type True)
       (uguu_answer E))"

definition upload_base64_to_kefan :: "'u upload_env \<Rightarrow> config \<Rightarrow> string \<Rightarrow> string \<Rightarrow> string fallible" where
  "upload_base64_to_kefan E cfg data_base64 mime_type =
     and_then (decoded_base64_len data_base64) (\<lambda>decoded_len.
     and_then (send_streaming_multipart_reader E (drain_reader (up_b64 E) (b64_reader_new data_base64)) decoded_len
                 (legacy_kefan_upload_url cfg) ''file'' mime_type False)
       (kefan_answer E))"

text \<open>First one host, then the other.\<close>

definition legacy_result :: "string fallible \<Rightarrow> string fallible \<Rightarrow> upload_result fallible" where
  "legacy_result uguu kefan =
     map_sum id (\<lambda>url. \<lparr>ul_url = url, ul_provider = ''legacy''\<rparr>) (case uguu of Ok url \<Rightarrow> Ok url | Err _ \<Rightarrow> kefan)"

definition upload_legacy :: "'u upload_env \<Rightarrow> config \<Rightarrow> string \<Rightarrow> string \<Rightarrow> upload_result fallible" where
  "upload_legacy E cfg data mime_type =
     legacy_result (upload_to_uguu E (legacy_uguu_upload_url cfg) data mime_type)
       (upload_to_kefan E (legacy_kefan_upload_url cfg) data mime_type)"

definition upload_legacy_base64 :: "'u upload_env \<Rightarrow> config \<Rightarrow> string \<Rightarrow> string \<Rightarrow> upload_result fallible" where
  "upload_legacy_base64 E cfg data_base64 mime_type =
     legacy_result (upload_base64_to_uguu E cfg data_base64 mime_type)
       (upload_base64_to_kefan E cfg data_base64 mime_type)"

definition upload_legacy_blob ::
  "'u upload_env \<Rightarrow> config \<Rightarrow> blob_runtime \<Rightarrow> blob_handle \<Rightarrow> string \<Rightarrow> upload_result fallible" where
  "upload_legacy_blob E cfg rt blob mime_type =
     legacy_result (upload_blob_to_uguu E cfg 2 rt blob mime_type) (upload_blob_to_kefan E cfg 3 rt blob mime_type)"

section \<open>R2\<close>

definition nl :: string where
  "nl = [CHR 0x0A]"

definition amz_date :: "clock \<Rightarrow> string" where
  "amz_date now =
     pad_zero 4 (show_nat (ck_year now)) @ pad_zero 2 (show_nat (ck_month now)) @ pad_zero 2 (show_nat (ck_day now))
     @ ''T'' @ pad_zero 2 (show_nat (ck_hour now)) @ pad_zero 2 (show_nat (ck_minute now))
     @ pad_zero 2 (show_nat (ck_second now)) @ ''Z''"

definition date_stamp :: "clock \<Rightarrow> string" where
  "date_stamp now =
     pad_zero 4 (show_nat (ck_year now)) @ pad_zero 2 (show_nat (ck_month now)) @ pad_zero 2 (show_nat (ck_day now))"

definition SIGNED_HEADERS :: string where
  "SIGNED_HEADERS = ''content-type;host;x-amz-content-sha256;x-amz-date''"

definition canonical_request :: "string \<Rightarrow> string \<Rightarrow> string \<Rightarrow> string \<Rightarrow> string \<Rightarrow> string" where
  "canonical_request canonical_uri mime_type host payload_hash amz =
     ''PUT'' @ nl @ canonical_uri @ nl @ nl
     @ (''content-type:'' @ mime_type @ nl @ ''host:'' @ host @ nl
        @ ''x-amz-content-sha256:'' @ payload_hash @ nl @ ''x-amz-date:'' @ amz @ nl)
     @ nl @ SIGNED_HEADERS @ nl @ payload_hash"

definition r2_authorization ::
  "'u upload_env \<Rightarrow> config \<Rightarrow> 'u \<Rightarrow> string \<Rightarrow> string \<Rightarrow> string \<Rightarrow> string fallible" where
  "r2_authorization E cfg endpoint canonical_uri mime_type payload_hash =
     (let now = up_sign_time E;
          amz = amz_date now;
          stamp = date_stamp now;
          request = canonical_request canonical_uri mime_type (host_or_empty (up_url E) endpoint) payload_hash amz;
          credential_scope = stamp @ ''/auto/s3/aws4_request'';
          string_to_sign = ''AWS4-HMAC-SHA256'' @ nl @ amz @ nl @ credential_scope @ nl @ sha256_hex E request;
          signing_key = derive_aws_v4_signing_key E (r2_secret_access_key cfg) stamp ''auto'' ''s3''
      in map_sum id (\<lambda>mac. ''AWS4-HMAC-SHA256 Credential='' @ r2_access_key_id cfg @ ''/'' @ credential_scope
             @ '', SignedHeaders='' @ SIGNED_HEADERS @ '', Signature='' @ up_hex E mac)
           (hmac_sha256 E signing_key string_to_sign))"

definition r2_headers :: "string \<Rightarrow> string \<Rightarrow> string \<Rightarrow> string \<Rightarrow> (string \<times> string) list" where
  "r2_headers mime_type payload_hash amz authorization =
     [(''content-type'', mime_type), (''x-amz-content-sha256'', payload_hash), (''x-amz-date'', amz),
      (''authorization'', authorization)]"

definition put_object_stream ::
  "'u upload_env \<Rightarrow> string \<Rightarrow> string \<Rightarrow> string \<Rightarrow> string \<Rightarrow> string \<Rightarrow> nat \<Rightarrow> string fallible
   \<Rightarrow> upload_response fallible" where
  "put_object_stream E object_url authorization amz payload_hash mime_type content_length content =
     up_send E
       \<lparr>uq_method = ''PUT'', uq_url = object_url,
        uq_headers = (''content-length'', show_nat content_length) # r2_headers mime_type payload_hash amz authorization,
        uq_body = PlainBody content\<rparr>"

definition r2_answer :: "'u upload_env \<Rightarrow> config \<Rightarrow> string \<Rightarrow> upload_response \<Rightarrow> upload_result fallible" where
  "r2_answer E cfg key response =
     (if \<not> is_success (ur_status response)
      then Err (Message (''r2 put object failed: status '' @ status_text (up_fmt E) (ur_status response) @ '': ''
             @ trim (ok_or_default (ur_text response))))
      else Ok \<lparr>ul_url = trim_end_char (CHR ''/'') (r2_public_base_url cfg) @ ''/'' @ key, ul_provider = ''r2''\<rparr>)"

text \<open>The start of the three R2 uploads: the endpoint, the object's key and its two addresses.\<close>

definition r2_object_key :: "'u upload_env \<Rightarrow> config \<Rightarrow> string \<Rightarrow> string" where
  "r2_object_key E cfg mime_type =
     build_r2_object_key (r2_object_prefix cfg) mime_type (up_key_time E) (random_hex E 4)"

definition r2_target :: "'u upload_env \<Rightarrow> config \<Rightarrow> string \<Rightarrow> ('u \<times> string \<times> string \<times> string) fallible" where
  "r2_target E cfg mime_type =
     (case url_parse (up_url E) (r2_endpoint cfg) of
        Err e \<Rightarrow> Err (Message e)
      | Ok endpoint \<Rightarrow>
          (let key = r2_object_key E cfg mime_type;
               (object_url, canonical_uri) = build_r2_object_url (up_url E) endpoint (r2_bucket cfg) key
           in Ok (endpoint, key, object_url, canonical_uri)))"

definition upload_r2 :: "'u upload_env \<Rightarrow> config \<Rightarrow> string \<Rightarrow> string \<Rightarrow> upload_result fallible" where
  "upload_r2 E cfg data mime_type =
     and_then (r2_target E cfg mime_type) (\<lambda>(endpoint, key, object_url, canonical_uri).
       let payload_hash = sha256_hex E data in
       and_then (r2_authorization E cfg endpoint canonical_uri mime_type payload_hash) (\<lambda>authorization.
       and_then (up_send E
           \<lparr>uq_method = ''PUT'', uq_url = object_url,
            uq_headers = r2_headers mime_type payload_hash (amz_date (up_sign_time E)) authorization,
            uq_body = PlainBody (Ok data)\<rparr>)
         (r2_answer E cfg key)))"

definition upload_r2_blob ::
  "'u upload_env \<Rightarrow> config \<Rightarrow> blob_runtime \<Rightarrow> blob_handle \<Rightarrow> string \<Rightarrow> upload_result fallible" where
  "upload_r2_blob E cfg rt blob mime_type =
     and_then (r2_target E cfg mime_type) (\<lambda>(endpoint, key, object_url, canonical_uri).
     and_then (sha256_hex_blob E 0 rt blob) (\<lambda>payload_hash.
     and_then (r2_authorization E cfg endpoint canonical_uri mime_type payload_hash) (\<lambda>authorization.
     and_then (open_blob E 1 rt blob) (\<lambda>reads.
     and_then (put_object_stream E object_url authorization (amz_date (up_sign_time E)) payload_hash mime_type
                 (unat (bh_size_bytes blob)) (reads_content reads))
       (r2_answer E cfg key)))))"

definition upload_r2_base64 :: "'u upload_env \<Rightarrow> config \<Rightarrow> string \<Rightarrow> string \<Rightarrow> upload_result fallible" where
  "upload_r2_base64 E cfg data_base64 mime_type =
     and_then (r2_target E cfg mime_type) (\<lambda>(endpoint, key, object_url, canonical_uri).
     and_then (sha256_hex_base64 E data_base64) (\<lambda>payload_hash.
     and_then (decoded_base64_len data_base64) (\<lambda>content_length.
     and_then (r2_authorization E cfg endpoint canonical_uri mime_type payload_hash) (\<lambda>authorization.
     and_then (put_object_stream E object_url authorization (amz_date (up_sign_time E)) payload_hash mime_type
                 content_length (drain_reader (up_b64 E) (b64_reader_new data_base64)))
       (r2_answer E cfg key)))))"

section \<open>The uploader\<close>

definition by_mode ::
  "image_host_mode \<Rightarrow> upload_result fallible \<Rightarrow> upload_result fallible \<Rightarrow> upload_result fallible" where
  "by_mode mode r2 legacy =
     (case mode of
        Legacy \<Rightarrow> legacy
      | R2 \<Rightarrow> r2
      | R2ThenLegacy \<Rightarrow> (case r2 of Ok result \<Rightarrow> Ok result | Err _ \<Rightarrow> legacy))"

definition upload_image :: "'u upload_env \<Rightarrow> config \<Rightarrow> string \<Rightarrow> string \<Rightarrow> upload_result fallible" where
  "upload_image E cfg data mime_type =
     and_then (parse_image_host_mode (image_host_mode cfg)) (\<lambda>mode.
       by_mode mode (upload_r2 E cfg data mime_type) (upload_legacy E cfg data mime_type))"

definition upload_blob ::
  "'u upload_env \<Rightarrow> config \<Rightarrow> blob_runtime \<Rightarrow> blob_handle \<Rightarrow> string \<Rightarrow> upload_result fallible" where
  "upload_blob E cfg rt blob mime_type =
     and_then (parse_image_host_mode (image_host_mode cfg)) (\<lambda>mode.
       by_mode mode (upload_r2_blob E cfg rt blob mime_type) (upload_legacy_blob E cfg rt blob mime_type))"

definition upload_inline_data_base64 :: "'u upload_env \<Rightarrow> config \<Rightarrow> string \<Rightarrow> string \<Rightarrow> upload_result fallible" where
  "upload_inline_data_base64 E cfg data_base64 mime_type =
     and_then (parse_image_host_mode (image_host_mode cfg)) (\<lambda>mode.
       by_mode mode (upload_r2_base64 E cfg data_base64 mime_type) (upload_legacy_base64 E cfg data_base64 mime_type))"

definition upload_image_with_mode ::
  "image_host_mode \<Rightarrow> string \<Rightarrow> string \<Rightarrow> (string \<Rightarrow> string \<Rightarrow> upload_result fallible)
   \<Rightarrow> (string \<Rightarrow> string \<Rightarrow> upload_result fallible) \<Rightarrow> upload_result fallible" where
  "upload_image_with_mode mode data mime_type r2_uploader legacy_uploader =
     by_mode mode (r2_uploader data mime_type) (legacy_uploader data mime_type)"

section \<open>The three ways of uploading agree\<close>

lemma and_then_simps [simp]: "and_then (Err e) f = Err e" "and_then (Ok a) f = f a"
  by (simp_all add: and_then_def)

lemma and_then_Ok_iff: "and_then r f = Ok b \<longleftrightarrow> (\<exists>a. r = Ok a \<and> f a = Ok b)"
  by (cases r) auto

text \<open>
  The client announces the length of a body it has in full, so announcing it explicitly makes no
  difference.
\<close>

definition length_is_implied :: "'u upload_env \<Rightarrow> bool" where
  "length_is_implied E \<longleftrightarrow>
     (\<forall>url headers body.
        up_send E \<lparr>uq_method = ''PUT'', uq_url = url, uq_headers = (''content-length'', show_nat (length body)) # headers,
                   uq_body = PlainBody (Ok body)\<rparr>
        = up_send E \<lparr>uq_method = ''PUT'', uq_url = url, uq_headers = headers, uq_body = PlainBody (Ok body)\<rparr>)"

text \<open>A blob whose content can be read, in whatever pieces.\<close>

definition blob_readable :: "'u upload_env \<Rightarrow> blob_runtime \<Rightarrow> blob_handle \<Rightarrow> string \<Rightarrow> bool" where
  "blob_readable E rt blob bytes \<longleftrightarrow>
     blob_content rt blob = Some bytes \<and> unat (bh_size_bytes blob) = length bytes
     \<and> (\<forall>n. up_io E n = no_faults) \<and> (\<forall>s. reads_content (up_chunker E s) = Ok s)"

lemma open_readable:
  assumes "blob_readable E rt blob bytes"
  shows "\<exists>reads. open_blob E n rt blob = Ok reads \<and> reads_content reads = Ok bytes"
proof -
  have "read_bytes rt (up_io E n) blob = Ok bytes"
    using assms by (auto simp: blob_readable_def read_bytes_def blob_content_def no_faults_def
        split: blob_storage.splits option.splits)
  then show ?thesis using assms by (simp add: open_blob_def open_reader_def blob_readable_def)
qed

lemma hash_readable: "blob_readable E rt blob bytes \<Longrightarrow> sha256_hex_blob E n rt blob = Ok (sha256_hex E bytes)"
proof (cases "bh_storage blob")
  case (Spilled path)
  assume "blob_readable E rt blob bytes"
  from open_readable [OF this, of n] Spilled show ?thesis by (auto simp: sha256_hex_blob_def)
qed (simp_all add: sha256_hex_blob_def blob_readable_def blob_content_def read_bytes_def)

lemma upload_base64_same:
  assumes "base64_laws (up_b64 E)" "base64_padding (up_b64 E)" "length_is_implied E"
  shows "upload_inline_data_base64 E cfg (b64_encode (up_b64 E) bytes) mime = upload_image E cfg bytes mime"
proof -
  note reader = drain_encoded [OF assms(1)] decoded_len_encoded [OF assms(1,2)]
  have "upload_legacy_base64 E cfg (b64_encode (up_b64 E) bytes) mime = upload_legacy E cfg bytes mime"
    by (simp add: upload_legacy_base64_def upload_legacy_def upload_base64_to_uguu_def upload_base64_to_kefan_def
        upload_to_uguu_def upload_to_kefan_def reader send_streaming_multipart_reader_def)
  moreover have "upload_r2_base64 E cfg (b64_encode (up_b64 E) bytes) mime = upload_r2 E cfg bytes mime"
    using assms(3) decode_from_encoded [OF assms(1), of 0 bytes]
    by (simp add: upload_r2_base64_def upload_r2_def sha256_hex_base64_def reader put_object_stream_def
        length_is_implied_def Let_def)
  ultimately show ?thesis by (simp add: upload_inline_data_base64_def upload_image_def)
qed

lemma upload_blob_same:
  assumes "blob_readable E rt blob bytes" "length_is_implied E"
  shows "upload_blob E cfg rt blob mime = upload_image E cfg bytes mime"
proof -
  have sz: "unat (bh_size_bytes blob) = length bytes" using assms(1) by (simp add: blob_readable_def)
  have send: "send_streaming_multipart E n rt blob url field mime a
      = send_streaming_multipart_reader E (Ok bytes) (length bytes) url field mime a" for n url field a
    using open_readable [OF assms(1), of n] sz by (auto simp: send_streaming_multipart_def)
  have "upload_legacy_blob E cfg rt blob mime = upload_legacy E cfg bytes mime"
    by (simp add: upload_legacy_blob_def upload_legacy_def upload_blob_to_uguu_def upload_blob_to_kefan_def
        upload_to_uguu_def upload_to_kefan_def send send_streaming_multipart_reader_def)
  moreover have "upload_r2_blob E cfg rt blob mime = upload_r2 E cfg bytes mime"
    using assms(2) open_readable [OF assms(1), of 1] hash_readable [OF assms(1), of 0]
    by (auto simp: upload_r2_blob_def upload_r2_def put_object_stream_def sz length_is_implied_def Let_def)
  ultimately show ?thesis by (simp add: upload_blob_def upload_image_def)
qed

text \<open>
  (C30) Uploading an image from its base64 text or from its blob, streamed, has the same outcome as
  uploading its bytes, in every mode and for every answer of the hosts: the same requests with the
  same signature and length are sent.
\<close>

theorem uploads_agree:
  assumes "base64_laws (up_b64 E)" "base64_padding (up_b64 E)" "length_is_implied E"
    and "blob_readable E rt blob bytes"
  shows "upload_inline_data_base64 E cfg (b64_encode (up_b64 E) bytes) mime = upload_image E cfg bytes mime
    \<and> upload_blob E cfg rt blob mime = upload_image E cfg bytes mime"
  using upload_base64_same [OF assms(1-3)] upload_blob_same [OF assms(4,3)] by blast

section \<open>Where an uploaded image is\<close>

text \<open>
  (C31) A successful upload is an image a host has accepted: with provider r2, an accepted PUT of
  exactly the image's bytes under the object's key, and the URL is the public address of that key;
  otherwise a URL that a legacy host returned, which is not blank.
\<close>

theorem uploaded_image_accepted:
  assumes "upload_image E cfg data mime = Ok r"
  shows "(ul_provider r = ''r2'' \<and> parse_image_host_mode (image_host_mode cfg) \<noteq> Ok Legacy
      \<and> ul_url r = trim_end_char (CHR ''/'') (r2_public_base_url cfg) @ ''/'' @ r2_object_key E cfg mime
      \<and> (\<exists>endpoint headers resp. url_parse (up_url E) (r2_endpoint cfg) = Ok endpoint
          \<and> up_send E \<lparr>uq_method = ''PUT'',
                uq_url = fst (build_r2_object_url (up_url E) endpoint (r2_bucket cfg) (r2_object_key E cfg mime)),
                uq_headers = headers, uq_body = PlainBody (Ok data)\<rparr> = Ok resp
          \<and> is_success (ur_status resp)))
    \<or> (ul_provider r = ''legacy'' \<and> parse_image_host_mode (image_host_mode cfg) \<noteq> Ok R2 \<and> \<not> blank (ul_url r)
      \<and> (\<exists>url headers field resp.
           up_send E \<lparr>uq_method = ''POST'', uq_url = url, uq_headers = headers,
              uq_body = MultipartBody (file_part field mime (Some (length data)) (Ok data))\<rparr> = Ok resp
           \<and> (uguu_answer E resp = Ok (ul_url r) \<or> kefan_answer E resp = Ok (ul_url r))))"
proof -
  obtain mode where mode: "parse_image_host_mode (image_host_mode cfg) = Ok mode"
    "by_mode mode (upload_r2 E cfg data mime) (upload_legacy E cfg data mime) = Ok r"
    using assms by (auto simp: upload_image_def and_then_Ok_iff)
  have which: "mode \<noteq> Legacy \<and> upload_r2 E cfg data mime = Ok r \<or> mode \<noteq> R2 \<and> upload_legacy E cfg data mime = Ok r"
    using mode(2) by (cases mode) (auto simp: by_mode_def split: sum.splits)
  have r2: "ul_provider r = ''r2'' \<and> ul_url r = trim_end_char (CHR ''/'') (r2_public_base_url cfg) @ ''/'' @ r2_object_key E cfg mime
      \<and> (\<exists>endpoint headers resp. url_parse (up_url E) (r2_endpoint cfg) = Ok endpoint
          \<and> up_send E \<lparr>uq_method = ''PUT'',
                uq_url = fst (build_r2_object_url (up_url E) endpoint (r2_bucket cfg) (r2_object_key E cfg mime)),
                uq_headers = headers, uq_body = PlainBody (Ok data)\<rparr> = Ok resp
          \<and> is_success (ur_status resp))"
    if "upload_r2 E cfg data mime = Ok r"
    using that by (fastforce simp: upload_r2_def r2_target_def and_then_Ok_iff r2_answer_def Let_def
        split: sum.splits prod.splits if_splits)
  have answers: "uguu_answer E resp = Ok url \<or> kefan_answer E resp = Ok url \<Longrightarrow> \<not> blank url" for resp url
    by (auto simp: uguu_answer_def kefan_answer_def blank_def split: sum.splits prod.splits if_splits)
  have legacy: "ul_provider r = ''legacy'' \<and> (\<exists>url headers field resp.
           up_send E \<lparr>uq_method = ''POST'', uq_url = url, uq_headers = headers,
              uq_body = MultipartBody (file_part field mime (Some (length data)) (Ok data))\<rparr> = Ok resp
           \<and> (uguu_answer E resp = Ok (ul_url r) \<or> kefan_answer E resp = Ok (ul_url r)))"
    if "upload_legacy E cfg data mime = Ok r"
    using that by (auto simp: upload_legacy_def legacy_result_def upload_to_uguu_def upload_to_kefan_def
        send_form_def and_then_Ok_iff map_sum_right_Ok_iff split: sum.splits option.splits)
  from which show ?thesis
  proof (elim disjE conjE)
    assume "mode \<noteq> Legacy" "upload_r2 E cfg data mime = Ok r"
    with r2 mode(1) show ?thesis by simp
  next
    assume l: "mode \<noteq> R2" "upload_legacy E cfg data mime = Ok r"
    then have "\<not> blank (ul_url r)" using legacy answers by blast
    with legacy [OF l(2)] mode(1) l(1) show ?thesis by (intro disjI2) simp
  qed
qed

section \<open>Samples\<close>

text \<open>Hosts that accept everything, except that a PUT of an empty body is refused.\<close>

definition sample_send :: "upload_request \<Rightarrow> upload_response fallible" where
  "sample_send q =
     (if uq_body q = PlainBody (Ok []) then Ok \<lparr>ur_status = 400, ur_text = Ok ''empty''\<rparr>
      else Ok \<lparr>ur_status = 200, ur_text = Ok ''ok''\<rparr>)"

definition sample_clock :: clock where
  "sample_clock = \<lparr>ck_year = 2025, ck_month = 1, ck_day = 31, ck_hour = 7, ck_minute = 5, ck_second = 9, ck_unix_ms = 1738307109000\<rparr>"

definition sample_upload_env :: "sample_u upload_env" where
  "sample_upload_env =
     \<lparr>up_url = sample_url, up_b64 = base64_std,
      up_serde = sample_serde [(''ok'', JObject [(''success'', JBool True), (''data'', JString ''https://host.example/k.png'')])],
      up_fmt = sample_fmt, up_shape_error = (\<lambda>_. ''missing field''), up_sha256 = (\<lambda>s. take 4 s),
      up_hmac = (\<lambda>k s. Ok (take 2 k @ take 2 s)), up_hex = (\<lambda>s. s), up_mime_error = (\<lambda>_. None), up_send = sample_send,
      up_key_time = sample_clock, up_sign_time = sample_clock, up_random = (\<lambda>n. replicate n (CHR ''a'')),
      up_chunker = one_chunk, up_io = (\<lambda>_. no_faults)\<rparr>"

definition sample_blob :: blob_handle where
  "sample_blob = \<lparr>bh_id = 1, bh_mime_type = ''image/png'', bh_size_bytes = 5, bh_storage = Inline ''abcde''\<rparr>"

lemma uploads_agree_witness:
  "let cfg = config_from_env sample_url r2_env; rt = blob_runtime_new small_cfg (\<lambda>_. None)
   in upload_inline_data_base64 sample_upload_env cfg (b64_encode (up_b64 sample_upload_env) ''abcde'') ''image/png''
        = upload_image sample_upload_env cfg ''abcde'' ''image/png''
    \<and> upload_blob sample_upload_env cfg rt sample_blob ''image/png''
        = upload_image sample_upload_env cfg ''abcde'' ''image/png''"
proof -
  have "reads_content (one_chunk s) = Ok s" for s
  proof -
    have "reads_content (map (\<lambda>c. Ok [c]) s) = Ok s" by (induction s) auto
    then show ?thesis by (simp add: one_chunk_def)
  qed
  then have "blob_readable sample_upload_env (blob_runtime_new small_cfg (\<lambda>_. None)) sample_blob ''abcde''"
    by (simp add: blob_readable_def sample_upload_env_def sample_blob_def blob_content_def read_bytes_def)
  moreover have "base64_laws (up_b64 sample_upload_env)" "base64_padding (up_b64 sample_upload_env)"
    "length_is_implied sample_upload_env"
    by (simp_all add: sample_upload_env_def base64_std_laws base64_std_padding length_is_implied_def sample_send_def)
  ultimately show ?thesis unfolding Let_def by (intro uploads_agree)
qed

lemma uploaded_image_accepted_witness:
  "\<exists>r. upload_image sample_upload_env (config_from_env sample_url r2_env) ''abcde'' ''image/png'' = Ok r
     \<and> (ul_provider r = ''r2'' \<or> ul_provider r = ''legacy'')"
proof -
  let ?cfg = "config_from_env sample_url r2_env"
  have mode: "parse_image_host_mode (image_host_mode ?cfg) = Ok R2"
    by (simp add: parse_image_host_mode_def config_from_env_simps env_image_host_mode_def env_trimmed_def r2_env_def
        trim_plain plain_char_def bval_def to_lower_def lower_char_def)
  have "\<exists>endpoint. url_parse sample_url (r2_endpoint ?cfg) = Ok endpoint"
    by (simp add: config_from_env_simps r2_env_def env_trimmed_def sample_url_eval)
  then obtain r where "upload_image sample_upload_env ?cfg ''abcde'' ''image/png'' = Ok r"
    by (auto simp: upload_image_def mode by_mode_def upload_r2_def r2_target_def sample_upload_env_def Let_def
        r2_authorization_def hmac_sha256_def sample_send_def r2_answer_def is_success_def split: prod.splits)
  with uploaded_image_accepted [OF this] show ?thesis by blast
qed

end
