(* ===== verification/Response_Materialize.thy ===== *)
theory Response_Materialize
  imports Upload
begin

text \<open>
  \<^verbatim>\<open>src/response_materialize.rs\<close>: the inline images of an answer are collected once each, then
  re-encoded or uploaded, and every occurrence is patched. Both passes are proved to act on the
  sequence of the answer's images element by element.
\<close>

section \<open>Collecting\<close>

record inline_data_entry =
  ie_mime_type :: string
  ie_data :: string

record inline_data_replacement =
  ir_mime_type :: string
  ir_data :: "string option"

definition entry_of :: "jobject \<Rightarrow> inline_data_entry option" where
  "entry_of m =
     (case obj_get m ''inlineData'' of
        Some (JObject inline_data) \<Rightarrow>
          (case (obj_get inline_data ''data'', obj_get inline_data ''mimeType'') of
             (Some (JString data), Some (JString mime_type)) \<Rightarrow> Some \<lparr>ie_mime_type = mime_type, ie_data = data\<rparr>
           | _ \<Rightarrow> None)
      | _ \<Rightarrow> None)"

definition push_entry :: "inline_data_entry option \<Rightarrow> inline_data_entry list \<Rightarrow> inline_data_entry list" where
  "push_entry entry entries =
     (case entry of
        None \<Rightarrow> entries
      | Some e \<Rightarrow> if is_url_like (ie_data e) \<or> e \<in> set entries then entries else entries @ [e])"

fun walk_entries :: "json \<Rightarrow> inline_data_entry list \<Rightarrow> inline_data_entry list"
and walk_field_entries :: "jobject \<Rightarrow> inline_data_entry list \<Rightarrow> inline_data_entry list"
and walk_item_entries :: "json list \<Rightarrow> inline_data_entry list \<Rightarrow> inline_data_entry list" where
  "walk_entries (JObject m) entries = walk_field_entries m (push_entry (entry_of m) entries)"
| "walk_entries (JArray xs) entries = walk_item_entries xs entries"
| "walk_entries _ entries = entries"
| "walk_field_entries [] entries = entries"
| "walk_field_entries ((k, v) # m) entries = walk_field_entries m (walk_entries v entries)"
| "walk_item_entries [] entries = entries"
| "walk_item_entries (x # xs) entries = walk_item_entries xs (walk_entries x entries)"

definition scan_inline_data_base64_entries :: "json \<Rightarrow> inline_data_entry list" where
  "scan_inline_data_base64_entries node = walk_entries node []"

section \<open>Patching\<close>

text \<open>
  The common walk of the two patch functions: \<open>P\<close> changes the \<^verbatim>\<open>inlineData\<close> object of a replaced entry.
  The source changes the object before it visits the children; \<open>patch_top_down\<close> below shows that
  visiting the children first, as here, gives the same value.
\<close>

definition patch_member :: "(inline_data_entry \<Rightarrow> (jobject \<Rightarrow> jobject) option) \<Rightarrow> jobject \<Rightarrow> jobject" where
  "patch_member P m =
     (case (entry_of m, obj_get m ''inlineData'') of
        (Some e, Some (JObject inline_data)) \<Rightarrow>
          (case P e of
             None \<Rightarrow> m
           | Some change \<Rightarrow> obj_insert ''inlineData'' (JObject (change inline_data)) m)
      | _ \<Rightarrow> m)"

fun patch_inline_data :: "(inline_data_entry \<Rightarrow> (jobject \<Rightarrow> jobject) option) \<Rightarrow> json \<Rightarrow> json"
and patch_fields :: "(inline_data_entry \<Rightarrow> (jobject \<Rightarrow> jobject) option) \<Rightarrow> jobject \<Rightarrow> jobject"
and patch_items :: "(inline_data_entry \<Rightarrow> (jobject \<Rightarrow> jobject) option) \<Rightarrow> json list \<Rightarrow> json list" where
  "patch_inline_data P (JObject m) = JObject (patch_member P (patch_fields P m))"
| "patch_inline_data P (JArray xs) = JArray (patch_items P xs)"
| "patch_inline_data P v = v"
| "patch_fields P [] = []"
| "patch_fields P ((k, v) # m) = (k, patch_inline_data P v) # patch_fields P m"
| "patch_items P [] = []"
| "patch_items P (x # xs) = patch_inline_data P x # patch_items P xs"

definition patch_inline_data_urls :: "(inline_data_entry \<Rightarrow> string option) \<Rightarrow> json \<Rightarrow> json" where
  "patch_inline_data_urls replacements =
     patch_inline_data (\<lambda>e. map_option (\<lambda>url. obj_insert ''data'' (JString url)) (replacements e))"

definition apply_replacement :: "inline_data_replacement \<Rightarrow> jobject \<Rightarrow> jobject" where
  "apply_replacement r inline_data =
     (let inline_data = obj_insert ''mimeType'' (JString (ir_mime_type r)) inline_data in
      case ir_data r of None \<Rightarrow> inline_data | Some data \<Rightarrow> obj_insert ''data'' (JString data) inline_data)"

definition patch_inline_data_base64 :: "(inline_data_entry \<Rightarrow> inline_data_replacement option) \<Rightarrow> json \<Rightarrow> json" where
  "patch_inline_data_base64 replacements = patch_inline_data (\<lambda>e. map_option apply_replacement (replacements e))"

section \<open>Re-encoding\<close>

text \<open>\<open>None\<close> when the entry keeps its place.\<close>

definition optimize_entry ::
  "'i image_api \<Rightarrow> base64_api \<Rightarrow> bool \<Rightarrow> nat \<Rightarrow> nat \<Rightarrow> inline_data_entry
   \<Rightarrow> inline_data_replacement option fallible" where
  "optimize_entry I B enabled threshold_bytes jpeg_quality entry =
     (case b64_decode B (ie_data entry) of
        Err _ \<Rightarrow> Ok None
      | Ok image_bytes \<Rightarrow>
          (case maybe_compress_png_bytes_result I image_bytes (ie_mime_type entry) enabled threshold_bytes jpeg_quality of
             Err e \<Rightarrow> Err e
           | Ok (Unchanged mime_type) \<Rightarrow>
               Ok (if mime_type = ie_mime_type entry then None
                   else Some \<lparr>ir_mime_type = mime_type, ir_data = None\<rparr>)
           | Ok (Reencoded mime_type bytes) \<Rightarrow>
               Ok (Some \<lparr>ir_mime_type = mime_type, ir_data = Some (b64_encode B bytes)\<rparr>)))"

fun optimize_entries ::
  "'i image_api \<Rightarrow> base64_api \<Rightarrow> bool \<Rightarrow> nat \<Rightarrow> nat \<Rightarrow> inline_data_entry list
   \<Rightarrow> (inline_data_entry \<Rightarrow> inline_data_replacement option)
   \<Rightarrow> (inline_data_entry \<Rightarrow> inline_data_replacement option) fallible" where
  "optimize_entries I B en thr q [] R = Ok R"
| "optimize_entries I B en thr q (e # es) R =
     (case optimize_entry I B en thr q e of
        Err err \<Rightarrow> Err err
      | Ok None \<Rightarrow> optimize_entries I B en thr q es R
      | Ok (Some r) \<Rightarrow> optimize_entries I B en thr q es (R(e \<mapsto> r)))"

definition optimize_inline_data_images_with_options ::
  "'i image_api \<Rightarrow> base64_api \<Rightarrow> json \<Rightarrow> bool \<Rightarrow> nat \<Rightarrow> nat \<Rightarrow> unit fallible \<times> json" where
  "optimize_inline_data_images_with_options I B body enabled threshold_bytes jpeg_quality =
     (if \<not> enabled then (Ok (), body)
      else (case optimize_entries I B enabled threshold_bytes jpeg_quality (scan_inline_data_base64_entries body) Map.empty of
          Err e \<Rightarrow> (Err e, body)
        | Ok replacements \<Rightarrow> (Ok (), patch_inline_data_base64 replacements body)))"

definition optimize_inline_data_images ::
  "'i image_api \<Rightarrow> base64_api \<Rightarrow> json \<Rightarrow> config \<Rightarrow> unit fallible \<times> json" where
  "optimize_inline_data_images I B body cfg =
     optimize_inline_data_images_with_options I B body (enable_image_compression cfg) PNG_COMPRESSION_THRESHOLD_BYTES
       (image_compression_jpeg_quality cfg)"

section \<open>Uploading\<close>

definition should_proxy_standard_output_url :: "config \<Rightarrow> string \<Rightarrow> bool" where
  "should_proxy_standard_output_url cfg provider = should_proxy_uploaded_output_url cfg provider"

definition final_output_url :: "'u url_api \<Rightarrow> config \<Rightarrow> upload_result \<Rightarrow> string" where
  "final_output_url U cfg r =
     (let external_proxy_prefix = resolved_external_image_proxy_prefix cfg in
      if \<not> should_proxy_standard_output_url cfg (ul_provider r) \<or> trim external_proxy_prefix = [] then ul_url r
      else wrap_external_proxy_url U external_proxy_prefix (ul_url r))"

text \<open>The \<open>n\<close>th upload of the call runs in \<open>E n\<close>; one that fails is skipped.\<close>

definition upload_entry :: "'u upload_env \<Rightarrow> config \<Rightarrow> inline_data_entry \<Rightarrow> string option" where
  "upload_entry E cfg e =
     (case upload_inline_data_base64 E cfg (ie_data e) (ie_mime_type e) of
        Err _ \<Rightarrow> None
      | Ok r \<Rightarrow> Some (final_output_url (up_url E) cfg r))"

fun upload_entries ::
  "(nat \<Rightarrow> 'u upload_env) \<Rightarrow> config \<Rightarrow> nat \<Rightarrow> inline_data_entry list \<Rightarrow> (inline_data_entry \<Rightarrow> string option)
   \<Rightarrow> inline_data_entry \<Rightarrow> string option" where
  "upload_entries E cfg n [] R = R"
| "upload_entries E cfg n (e # es) R =
     upload_entries E cfg (n + 1) es (case upload_entry (E n) cfg e of None \<Rightarrow> R | Some url \<Rightarrow> R(e \<mapsto> url))"

definition finalize_output_urls ::
  "(nat \<Rightarrow> 'u upload_env) \<Rightarrow> json \<Rightarrow> config \<Rightarrow> unit fallible \<times> json" where
  "finalize_output_urls E body cfg =
     (let entries = scan_inline_data_base64_entries body;
          replacements = upload_entries E cfg 0 entries Map.empty
      in (Ok (), patch_inline_data_urls replacements body))"

section \<open>The images of an answer\<close>

text \<open>Every image with its MIME type, in the order of the walk, also those that are URLs.\<close>

definition opt_list :: "'a option \<Rightarrow> 'a list" where
  "opt_list x = (case x of None \<Rightarrow> [] | Some a \<Rightarrow> [a])"

fun images_of :: "json \<Rightarrow> inline_data_entry list"
and field_images :: "jobject \<Rightarrow> inline_data_entry list"
and item_images :: "json list \<Rightarrow> inline_data_entry list" where
  "images_of (JObject m) = opt_list (entry_of m) @ field_images m"
| "images_of (JArray xs) = item_images xs"
| "images_of _ = []"
| "field_images [] = []"
| "field_images ((k, v) # m) = images_of v @ field_images m"
| "item_images [] = []"
| "item_images (x # xs) = images_of x @ item_images xs"

lemma push_entry_set: "set (push_entry e es) = set es \<union> {x \<in> set (opt_list e). \<not> is_url_like (ie_data x)}"
  by (auto simp: push_entry_def opt_list_def split: option.splits)

lemma push_entry_distinct: "distinct es \<Longrightarrow> distinct (push_entry e es)"
  by (auto simp: push_entry_def split: option.splits)

lemma walk_entries_set:
  "set (walk_entries v es) = set es \<union> {x \<in> set (images_of v). \<not> is_url_like (ie_data x)}"
  "set (walk_field_entries m es) = set es \<union> {x \<in> set (field_images m). \<not> is_url_like (ie_data x)}"
  "set (walk_item_entries xs es) = set es \<union> {x \<in> set (item_images xs). \<not> is_url_like (ie_data x)}"
  by (induction v es and m es and xs es rule: walk_entries_walk_field_entries_walk_item_entries.induct)
     (auto simp: push_entry_set)

lemma walk_entries_distinct:
  "distinct es \<Longrightarrow> distinct (walk_entries v es)"
  "distinct es \<Longrightarrow> distinct (walk_field_entries m es)"
  "distinct es \<Longrightarrow> distinct (walk_item_entries xs es)"
  by (induction v es and m es and xs es rule: walk_entries_walk_field_entries_walk_item_entries.induct)
     (auto simp: push_entry_distinct)

lemma scanned_entries:
  "set (scan_inline_data_base64_entries body) = {x \<in> set (images_of body). \<not> is_url_like (ie_data x)}"
  "distinct (scan_inline_data_base64_entries body)"
  by (simp_all add: scan_inline_data_base64_entries_def walk_entries_set walk_entries_distinct)

section \<open>Patching acts image by image\<close>

text \<open>
  Both patch functions replace strings of the \<^verbatim>\<open>inlineData\<close> object only: \<open>changes_to P f\<close> says that
  \<open>P\<close> turns the entry \<open>e\<close> of such an object into \<open>f e\<close> and touches nothing else.
\<close>

definition holds_entry :: "inline_data_entry \<Rightarrow> jobject \<Rightarrow> bool" where
  "holds_entry e d \<longleftrightarrow> obj_get d ''data'' = Some (JString (ie_data e)) \<and> obj_get d ''mimeType'' = Some (JString (ie_mime_type e))"

definition changes_to ::
  "(inline_data_entry \<Rightarrow> (jobject \<Rightarrow> jobject) option) \<Rightarrow> (inline_data_entry \<Rightarrow> inline_data_entry) \<Rightarrow> bool" where
  "changes_to P f \<longleftrightarrow>
     (\<forall>e. case P e of
        None \<Rightarrow> f e = e
      | Some change \<Rightarrow> \<forall>d. holds_entry e d \<longrightarrow>
          holds_entry (f e) (change d) \<and> images_of (JObject (change d)) = images_of (JObject d))"

lemma entry_of_Some_iff:
  "entry_of m = Some e \<longleftrightarrow> (\<exists>d. obj_get m ''inlineData'' = Some (JObject d) \<and> holds_entry e d)"
  by (cases e) (auto simp: entry_of_def holds_entry_def split: option.splits json.splits)

lemma field_images_insert:
  "obj_get m k = Some w \<Longrightarrow> images_of v = images_of w \<Longrightarrow> field_images (obj_insert k v m) = field_images m"
  by (induction m) (auto split: if_splits)

lemma images_insert_string:
  assumes "obj_get d k = Some (JString s)" "k \<noteq> ''inlineData''"
  shows "images_of (JObject (obj_insert k (JString t) d)) = images_of (JObject d)"
proof -
  have "entry_of (obj_insert k (JString t) d) = entry_of d" using assms(2) by (simp add: entry_of_def)
  moreover have "field_images (obj_insert k (JString t) d) = field_images d"
    by (rule field_images_insert [OF assms(1)]) simp
  ultimately show ?thesis by simp
qed

lemma get_patch_fields: "obj_get (patch_fields P m) k = map_option (patch_inline_data P) (obj_get m k)"
  by (induction m) auto

lemma get_patch_member: "k \<noteq> ''inlineData'' \<Longrightarrow> obj_get (patch_member P m) k = obj_get m k"
  by (auto simp: patch_member_def split: option.splits json.splits)

lemma patch_string_iff: "patch_inline_data P v = JString s \<longleftrightarrow> v = JString s"
  by (cases v) auto

lemma holds_entry_patched:
  "holds_entry e (patch_member P (patch_fields P d)) \<longleftrightarrow> holds_entry e d"
  by (auto simp: holds_entry_def get_patch_member get_patch_fields patch_string_iff)

lemma entry_of_patch_fields: "entry_of (patch_fields P m) = entry_of m"
proof -
  have "entry_of (patch_fields P m) = Some e \<longleftrightarrow> entry_of m = Some e" for e
  proof
    assume "entry_of (patch_fields P m) = Some e"
    then obtain d v where "obj_get m ''inlineData'' = Some v" "patch_inline_data P v = JObject d" "holds_entry e d"
      by (auto simp: entry_of_Some_iff get_patch_fields)
    then show "entry_of m = Some e"
      by (cases v) (auto simp: entry_of_Some_iff holds_entry_patched)
  next
    assume "entry_of m = Some e"
    then show "entry_of (patch_fields P m) = Some e"
      by (auto simp: entry_of_Some_iff get_patch_fields holds_entry_patched)
  qed
  then show ?thesis by (metis not_None_eq)
qed

lemma patch_member_images:
  assumes "changes_to P f"
  shows "opt_list (entry_of (patch_member P m)) = map f (opt_list (entry_of m))
    \<and> field_images (patch_member P m) = field_images m"
proof (cases "entry_of m")
  case None
  then show ?thesis by (simp add: patch_member_def opt_list_def)
next
  case (Some e)
  then obtain d where d: "obj_get m ''inlineData'' = Some (JObject d)" "holds_entry e d"
    by (auto simp: entry_of_Some_iff)
  show ?thesis
  proof (cases "P e")
    case None
    then have "f e = e" using assms by (force simp: changes_to_def dest: spec [of _ e])
    with None Some d show ?thesis by (simp add: patch_member_def opt_list_def)
  next
    case (Some change)
    then have c: "holds_entry (f e) (change d)" "images_of (JObject (change d)) = images_of (JObject d)"
      using assms d(2) by (force simp: changes_to_def dest: spec [of _ e])+
    have m: "patch_member P m = obj_insert ''inlineData'' (JObject (change d)) m"
      using \<open>entry_of m = Some e\<close> d Some by (simp add: patch_member_def)
    have "entry_of (patch_member P m) = Some (f e)"
      unfolding m entry_of_Some_iff using c(1) by simp
    moreover have "field_images (patch_member P m) = field_images m"
      unfolding m by (rule field_images_insert [OF d(1) c(2)])
    ultimately show ?thesis using \<open>entry_of m = Some e\<close> by (simp add: opt_list_def)
  qed
qed

lemma images_of_patch:
  assumes "changes_to P f"
  shows "images_of (patch_inline_data P v) = map f (images_of v)"
proof (induction v rule: json_induct)
  case (JArray xs)
  then have "item_images (patch_items P xs) = map f (item_images xs)"
    by (induction xs) auto
  then show ?case by simp
next
  case (JObject m)
  have "\<forall>(k, v) \<in> set m. images_of (patch_inline_data P v) = map f (images_of v)"
    using JObject by blast
  then have "field_images (patch_fields P m) = map f (field_images m)"
    by (induction m) auto
  with patch_member_images [OF assms, of "patch_fields P m"] show ?case
    by (simp add: entry_of_patch_fields)
qed auto

lemma url_changes:
  "changes_to (\<lambda>e. map_option (\<lambda>url. obj_insert ''data'' (JString url)) (R e))
     (\<lambda>e. case R e of None \<Rightarrow> e | Some url \<Rightarrow> e\<lparr>ie_data := url\<rparr>)"
  by (auto simp: changes_to_def holds_entry_def images_insert_string simp del: images_of.simps split: option.splits)

definition replaced_entry :: "inline_data_entry \<Rightarrow> inline_data_replacement \<Rightarrow> inline_data_entry" where
  "replaced_entry e r = \<lparr>ie_mime_type = ir_mime_type r, ie_data = unwrap_or (ir_data r) (ie_data e)\<rparr>"

lemma base64_changes:
  "changes_to (\<lambda>e. map_option apply_replacement (R e)) (\<lambda>e. case R e of None \<Rightarrow> e | Some r \<Rightarrow> replaced_entry e r)"
proof -
  have "holds_entry e d \<Longrightarrow> images_of (JObject (apply_replacement r d)) = images_of (JObject d)" for e r d
    by (cases "ir_data r") (simp_all add: apply_replacement_def holds_entry_def images_insert_string del: images_of.simps)
  moreover have "holds_entry e d \<Longrightarrow> holds_entry (replaced_entry e r) (apply_replacement r d)" for e r d
    by (cases "ir_data r") (simp_all add: apply_replacement_def holds_entry_def replaced_entry_def)
  ultimately show ?thesis by (auto simp: changes_to_def simp del: images_of.simps split: option.splits)
qed

text \<open>The order of the source: the object is changed, then its children are visited.\<close>

definition string_change :: "(jobject \<Rightarrow> jobject) \<Rightarrow> bool" where
  "string_change c \<longleftrightarrow>
     (\<exists>ks. set (map fst ks) \<subseteq> {''data'', ''mimeType''} \<and> c = fold (\<lambda>(k, s). obj_insert k (JString s)) ks)"

lemma patch_fields_insert: "patch_fields P (obj_insert k v m) = obj_insert k (patch_inline_data P v) (patch_fields P m)"
  by (induction m) auto

lemma obj_insert_commute:
  "k \<noteq> k' \<Longrightarrow> obj_get m k \<noteq> None \<Longrightarrow> obj_get m k' \<noteq> None
   \<Longrightarrow> obj_insert k v (obj_insert k' v' m) = obj_insert k' v' (obj_insert k v m)"
  by (induction m) (auto split: if_splits)

lemma string_insert_commutes:
  assumes "k \<in> {''data'', ''mimeType''}" "obj_get d k \<noteq> None"
  shows "patch_member P (patch_fields P (obj_insert k (JString s) d))
    = obj_insert k (JString s) (patch_member P (patch_fields P d))"
proof -
  let ?m = "patch_fields P d"
  have ne: "k \<noteq> ''inlineData''" using assms(1) by auto
  have "entry_of (obj_insert k (JString s) ?m) = entry_of ?m" using ne by (simp add: entry_of_def)
  then show ?thesis
    using ne assms(2) obj_insert_commute [of "''inlineData''" k ?m]
    by (auto simp: patch_fields_insert patch_member_def get_patch_fields split: option.splits json.splits)
qed

lemma string_change_commutes:
  assumes "set (map fst ks) \<subseteq> {''data'', ''mimeType''}" "\<forall>k \<in> {''data'', ''mimeType''}. obj_get d k \<noteq> None"
  shows "patch_member P (patch_fields P (fold (\<lambda>(k, s). obj_insert k (JString s)) ks d))
    = fold (\<lambda>(k, s). obj_insert k (JString s)) ks (patch_member P (patch_fields P d))"
  using assms
proof (induction ks arbitrary: d)
  case (Cons x ks)
  obtain k s where x: "x = (k, s)" by (cases x)
  have k: "k \<in> {''data'', ''mimeType''}" using Cons.prems(1) x by auto
  then have "patch_member P (patch_fields P (obj_insert k (JString s) d))
      = obj_insert k (JString s) (patch_member P (patch_fields P d))"
    using Cons.prems(2) by (intro string_insert_commutes) auto
  with Cons x show ?case by simp
qed simp

lemma patch_top_down:
  assumes "\<And>e c. P e = Some c \<Longrightarrow> string_change c"
  shows "patch_inline_data P (JObject m) = JObject (patch_fields P (patch_member P m))"
proof (cases "entry_of m")
  case None
  then show ?thesis by (simp add: patch_member_def entry_of_patch_fields)
next
  case (Some e)
  then obtain d where d: "obj_get m ''inlineData'' = Some (JObject d)" "holds_entry e d"
    by (auto simp: entry_of_Some_iff)
  show ?thesis
  proof (cases "P e")
    case None
    then show ?thesis using Some by (simp add: patch_member_def entry_of_patch_fields split: option.splits json.splits)
  next
    case (Some c)
    then obtain ks where ks: "set (map fst ks) \<subseteq> {''data'', ''mimeType''}" "c = fold (\<lambda>(k, s). obj_insert k (JString s)) ks"
      using assms by (auto simp: string_change_def)
    have "patch_member P (patch_fields P (c d)) = c (patch_member P (patch_fields P d))"
      unfolding ks(2) using d(2) by (intro string_change_commutes [OF ks(1)]) (auto simp: holds_entry_def)
    then show ?thesis
      using Some \<open>entry_of m = Some e\<close> d(1)
      by (simp add: patch_member_def entry_of_patch_fields get_patch_fields patch_fields_insert)
  qed
qed

section \<open>Properties\<close>

lemma upload_entries_other: "e \<notin> set es \<Longrightarrow> upload_entries E cfg n es R e = R e"
  by (induction es arbitrary: n R) (auto split: option.splits)

lemma upload_entries_nth:
  "distinct es \<Longrightarrow> \<forall>e \<in> set es. R e = None \<Longrightarrow> i < length es
   \<Longrightarrow> upload_entries E cfg n es R (es ! i) = upload_entry (E (n + i)) cfg (es ! i)"
proof (induction es arbitrary: n R i)
  case (Cons e es)
  show ?case
  proof (cases i)
    case 0
    then show ?thesis using Cons.prems by (auto simp: upload_entries_other split: option.splits)
  next
    case (Suc j)
    have "\<forall>x \<in> set es. (case upload_entry (E n) cfg e of None \<Rightarrow> R | Some url \<Rightarrow> R(e \<mapsto> url)) x = None"
      using Cons.prems by (auto split: option.splits)
    with Suc Cons show ?thesis by simp
  qed
qed simp

lemma map_replace_others:
  assumes "\<And>e u. R e = Some u \<Longrightarrow> \<not> is_url_like (ie_data e)" "\<And>e u. R e = Some u \<Longrightarrow> is_url_like u"
  shows "{x \<in> set (map (\<lambda>e. case R e of None \<Rightarrow> e | Some url \<Rightarrow> e\<lparr>ie_data := url\<rparr>) xs). \<not> is_url_like (ie_data x)}
    = {e \<in> set xs. \<not> is_url_like (ie_data e) \<and> R e = None}"
  using assms by (force split: option.splits)

text \<open>
  (C32) The images of a finalized answer are those of the answer one by one: every distinct base64
  image is uploaded exactly once, each of its occurrences becomes the final URL when the upload
  succeeded, and everything else stays. When the final URLs have the form of URLs, the base64
  images that are left are exactly those whose upload failed; the call itself never fails.
\<close>

theorem finalized_images:
  assumes "finalize_output_urls E body cfg = (r, out)" "entries = scan_inline_data_base64_entries body"
  shows "r = Ok () \<and> distinct entries \<and> set entries = {e \<in> set (images_of body). \<not> is_url_like (ie_data e)}
    \<and> (\<exists>R. images_of out = map (\<lambda>e. case R e of None \<Rightarrow> e | Some url \<Rightarrow> e\<lparr>ie_data := url\<rparr>) (images_of body)
         \<and> (\<forall>n < length entries. R (entries ! n) = upload_entry (E n) cfg (entries ! n))
         \<and> (\<forall>e. e \<notin> set entries \<longrightarrow> R e = None)
         \<and> ((\<forall>e url. R e = Some url \<longrightarrow> is_url_like url)
            \<longrightarrow> set (scan_inline_data_base64_entries out) = {e \<in> set entries. R e = None}))"
proof -
  note es = scanned_entries [of body, folded assms(2)]
  define R where "R = upload_entries E cfg 0 entries Map.empty"
  have r: "r = Ok ()" and out: "out = patch_inline_data_urls R body"
    using assms by (auto simp: finalize_output_urls_def R_def Let_def)
  have im: "images_of out = map (\<lambda>e. case R e of None \<Rightarrow> e | Some url \<Rightarrow> e\<lparr>ie_data := url\<rparr>) (images_of body)"
    unfolding out patch_inline_data_urls_def by (rule images_of_patch [OF url_changes])
  have other: "e \<notin> set entries \<longrightarrow> R e = None" for e by (simp add: R_def upload_entries_other)
  have nth: "\<forall>n < length entries. R (entries ! n) = upload_entry (E n) cfg (entries ! n)"
    using upload_entries_nth [OF es(2), of Map.empty _ E cfg 0] by (simp add: R_def)
  have "set (scan_inline_data_base64_entries out) = {e \<in> set entries. R e = None}"
    if "\<forall>e url. R e = Some url \<longrightarrow> is_url_like url"
  proof -
    have "\<not> is_url_like (ie_data e)" if "R e = Some u" for e u using other [of e] es(1) that by auto
    from map_replace_others [OF this] that show ?thesis
      by (simp only: scanned_entries(1) im es(1)) auto
  qed
  with r es im other nth show ?thesis by blast
qed

lemma optimize_entries_result:
  "optimize_entries I B en thr q es R0 = Ok R \<Longrightarrow> distinct es \<Longrightarrow> \<forall>e \<in> set es. R0 e = None
   \<Longrightarrow> (\<forall>e \<in> set es. optimize_entry I B en thr q e = Ok (R e)) \<and> (\<forall>e. e \<notin> set es \<longrightarrow> R e = R0 e)"
proof (induction es arbitrary: R0)
  case (Cons e es)
  show ?case
  proof (cases "optimize_entry I B en thr q e")
    case (Inr o')
    have o: "optimize_entries I B en thr q es (case o' of None \<Rightarrow> R0 | Some r \<Rightarrow> R0(e \<mapsto> r)) = Ok R"
      using Cons.prems(1) Inr by (auto split: option.splits)
    have "\<forall>x \<in> set es. (case o' of None \<Rightarrow> R0 | Some r \<Rightarrow> R0(e \<mapsto> r)) x = None"
      using Cons.prems(2,3) by (auto split: option.splits)
    with Cons.IH [OF o] Cons.prems(2)
    have IH: "\<forall>x \<in> set es. optimize_entry I B en thr q x = Ok (R x)"
      "\<forall>x. x \<notin> set es \<longrightarrow> R x = (case o' of None \<Rightarrow> R0 | Some r \<Rightarrow> R0(e \<mapsto> r)) x" by auto
    have "R e = o'" using IH(2) Cons.prems(2,3) by (auto split: option.splits)
    with IH Inr Cons.prems(3) show ?thesis by (auto split: option.splits)
  qed (use Cons.prems in simp)
qed simp

lemma optimize_entries_Err:
  "optimize_entries I B en thr q es R0 = Err err \<Longrightarrow> \<exists>e \<in> set es. optimize_entry I B en thr q e = Err err"
proof (induction es arbitrary: R0)
  case (Cons e es)
  then show ?case by (auto split: sum.splits option.splits)
qed simp

text \<open>The decoder accepts only the encoder's length (padding is required).\<close>

definition base64_strict :: "base64_api \<Rightarrow> bool" where
  "base64_strict B \<longleftrightarrow> (\<forall>d s. b64_decode B d = Ok s \<longrightarrow> length d = 4 * ((length s + 2) div 3))"

lemma optimize_entry_shorter:
  assumes "optimize_entry I B en thr q e = Ok (Some r)" "base64_laws B" "base64_strict B"
  shows "length (ie_data (replaced_entry e r)) \<le> length (ie_data e)"
proof -
  obtain bytes where b: "b64_decode B (ie_data e) = Ok bytes"
    using assms(1) by (auto simp: optimize_entry_def split: sum.splits)
  then obtain opt where o: "maybe_compress_png_bytes_result I bytes (ie_mime_type e) en thr q = Ok opt"
    using assms(1) by (auto simp: optimize_entry_def split: sum.splits)
  have sz: "length (oi_bytes (into_optimized_image opt bytes)) \<le> length bytes"
    using compress_result_smaller [OF o] by blast
  show ?thesis
  proof (cases opt)
    case (Unchanged mime)
    with assms(1) b o show ?thesis
      by (auto simp: optimize_entry_def replaced_entry_def split: if_splits)
  next
    case (Reencoded mime out)
    then have r: "r = \<lparr>ir_mime_type = mime, ir_data = Some (b64_encode B out)\<rparr>"
      using assms(1) b o by (auto simp: optimize_entry_def)
    have "length out \<le> length bytes" using sz Reencoded by simp
    moreover have "length (ie_data e) = 4 * ((length bytes + 2) div 3)"
      using assms(3) b by (simp add: base64_strict_def)
    moreover have "(length out + 2) div 3 \<le> (length bytes + 2) div 3"
      using \<open>length out \<le> length bytes\<close> by (intro div_le_mono) simp
    ultimately show ?thesis by (simp add: r replaced_entry_def base64_length [OF assms(2)])
  qed
qed


section \<open>Samples\<close>

definition sample_answer :: json where
  "sample_answer =
     JArray [inline_data_part '' IMAGE/png'' (std_encode ''abcde''), inline_data_part ''image/png'' ''https://x.example/a''
       , inline_data_part '' IMAGE/png'' (std_encode ''abcde'')]"

lemma finalized_images_witness:
  "\<exists>R out. finalize_output_urls (\<lambda>_. sample_upload_env) sample_answer (config_from_env sample_url r2_env) = (Ok (), out)
     \<and> images_of out = map (\<lambda>e. case R e of None \<Rightarrow> e | Some url \<Rightarrow> e\<lparr>ie_data := url\<rparr>) (images_of sample_answer)"
proof -
  obtain r out where run: "finalize_output_urls (\<lambda>_. sample_upload_env) sample_answer (config_from_env sample_url r2_env) = (r, out)"
    by (cases "finalize_output_urls (\<lambda>_. sample_upload_env) sample_answer (config_from_env sample_url r2_env)")
  from finalized_images [OF run refl] run show ?thesis by auto
qed

lemma std_decode_length: "std_decode d = Some s \<Longrightarrow> length d = 4 * ((length s + 2) div 3)"
proof (induction d arbitrary: s rule: std_decode.induct)
  case (2 a b c d s')
  show ?case
  proof (cases "s' = [] \<and> d = CHR ''=''")
    case True
    then show ?thesis using "2.prems"
      by (auto simp: dec1_def dec2_def split: option.splits if_splits bind_splits)
  next
    case False
    then obtain r x y z w where "std_decode s' = Some r" "s = dec3 x y z w @ r"
      "b64_value a = Some x" "b64_value b = Some y" "b64_value c = Some z" "b64_value d = Some w"
      using "2.prems" by (auto split: option.splits)
    moreover from this have "length s' = 4 * ((length r + 2) div 3)" using "2.IH" False by blast
    moreover have "(length r + 3 + 2) div 3 = (length r + 2) div 3 + 1" by presburger
    ultimately show ?thesis by (simp add: dec3_def)
  qed
qed auto

lemma base64_std_strict: "base64_strict base64_std"
  by (auto simp: base64_strict_def base64_std_def std_decode_length split: option.splits)

definition sample_image_api :: "unit image_api" where
  "sample_image_api =
     \<lparr>load_png = (\<lambda>_. Ok ()), img_width = (\<lambda>_. 1), img_height = (\<lambda>_. 1),
      jpeg_encode = (\<lambda>_ _. Ok ''ab''), webp_encode = (\<lambda>_. Err ''no'')\<rparr>"


end
