(* ===== verification/Grsai.thy ===== *)
theory Grsai
  imports Messages Samples
begin

text \<open>
  \<^verbatim>\<open>src/grsai.rs\<close>: the translation of a Gemini or an OpenAI image request into the request of the
  provider grsai, and the reading of its answer, which is a JSON text or a stream of events.
\<close>

section \<open>Data\<close>

definition IMAGE_GENERATION_PATH :: string where
  "IMAGE_GENERATION_PATH = ''/v1/draw/nano-banana''"

definition DEFAULT_MODEL :: string where
  "DEFAULT_MODEL = ''nano-banana-fast''"

datatype grsai_source = Gemini | OpenAi

record grsai_image_params =
  gp_model :: string
  gp_prompt :: string
  gp_urls :: "string list"
  gp_aspect_ratio :: string
  gp_image_size :: string
  gp_output :: string

record grsai_result =
  gr_status :: string
  gr_image_urls :: "string list"
  gr_failure_reason :: "string option"
  gr_error_detail :: "string option"
  gr_start_time :: "int option"
  gr_end_time :: "int option"
  gr_raw_data :: json

record grsai_error =
  ge_http_status :: status
  ge_message :: string
  ge_upstream_code :: "int option"
  ge_failure_reason :: "string option"
  ge_body_text :: string
  ge_raw_json :: "json option"

type_synonym 'a grsai = "(grsai_error, 'a) result"

definition invalid_request :: "string \<Rightarrow> grsai_error" where
  "invalid_request message =
     \<lparr>ge_http_status = BAD_REQUEST, ge_message = message, ge_upstream_code = None, ge_failure_reason = None,
      ge_body_text = [], ge_raw_json = None\<rparr>"

definition parse_error :: "string \<Rightarrow> string \<Rightarrow> json option \<Rightarrow> grsai_error" where
  "parse_error message body_text raw_json =
     \<lparr>ge_http_status = BAD_GATEWAY, ge_message = MSG_PARSE_UPSTREAM_FAILED @ '': '' @ message,
      ge_upstream_code = None, ge_failure_reason = None, ge_body_text = body_text, ge_raw_json = raw_json\<rparr>"

section \<open>The request\<close>

definition normalize_model :: "string \<Rightarrow> grsai_source \<Rightarrow> string" where
  "normalize_model raw_model source =
     (let model = trim raw_model in
      if model = [] then DEFAULT_MODEL
      else (case source of
          Gemini \<Rightarrow>
            (if model = ''gemini-3-pro-image-preview'' then ''nano-banana-pro''
             else if model = ''gemini-2.5-flash-image'' then DEFAULT_MODEL
             else if model = ''gemini-3.1-flash-image-preview'' then ''nano-banana-2''
             else model)
        | OpenAi \<Rightarrow> model))"

text \<open>\<^verbatim>\<open>map(str::trim).filter(|value| !value.is_empty())\<close>.\<close>

definition trimmed_text :: "string option \<Rightarrow> string option" where
  "trimmed_text s = opt_filter (\<lambda>v. v \<noteq> []) (map_option trim s)"

definition pick_gemini_content :: "jobject \<Rightarrow> json option" where
  "pick_gemini_content m =
     Option.bind (Option.bind (obj_get m ''contents'') as_array) (\<lambda>contents.
       opt_or (find (\<lambda>content. jget_str ''role'' content = Some ''user'') contents)
         (case contents of [] \<Rightarrow> None | c # _ \<Rightarrow> Some c))"

definition extract_part_url :: "json \<Rightarrow> string option" where
  "extract_part_url part =
     trimmed_text (Option.bind
       (opt_or (jpointer [''inlineData'', ''data''] part) (jpointer [''inline_data'', ''data''] part)) as_str)"

definition parse_query_map :: "'u url_api \<Rightarrow> string option \<Rightarrow> (string \<times> string) list" where
  "parse_query_map U query = (case query of None \<Rightarrow> [] | Some q \<Rightarrow> form_parse U q)"

definition query_value :: "(string \<times> string) list \<Rightarrow> string \<Rightarrow> string option" where
  "query_value query_map key =
     map_option (\<lambda>(_, value). trim value) (find (\<lambda>(name, value). name = key \<and> \<not> blank value) query_map)"

definition pick_string_override ::
  "(string \<times> string) list \<Rightarrow> string list \<Rightarrow> json option \<Rightarrow> string list \<Rightarrow> string \<Rightarrow> string" where
  "pick_string_override query_map query_keys v object_keys fallback =
     (case find_map (query_value query_map) query_keys of
        Some value \<Rightarrow> value
      | None \<Rightarrow>
          unwrap_or (trimmed_text (Option.bind v (\<lambda>value. find_map (\<lambda>key. jget_str key value) object_keys))) fallback)"

definition pick_object_string :: "jobject \<Rightarrow> string list \<Rightarrow> string \<Rightarrow> string" where
  "pick_object_string m keys fallback =
     unwrap_or (trimmed_text (find_map (\<lambda>key. Option.bind (obj_get m key) as_str) keys)) fallback"

definition extract_string_array :: "json \<Rightarrow> string list grsai" where
  "extract_string_array value =
     (case as_array value of
        None \<Rightarrow> Err (invalid_request MSG_GRSAI_URLS)
      | Some array \<Rightarrow>
          collect_results (\<lambda>item.
            case trimmed_text (as_str item) of
              None \<Rightarrow> Err (invalid_request MSG_GRSAI_URLS)
            | Some url \<Rightarrow> Ok url) array)"

definition extract_gemini_params ::
  "'u url_api \<Rightarrow> json \<Rightarrow> string \<Rightarrow> string option \<Rightarrow> grsai_image_params grsai" where
  "extract_gemini_params U body raw_model query =
     (case as_object body of
        None \<Rightarrow> Err (invalid_request MSG_GRSAI_NOT_OBJECT)
      | Some m \<Rightarrow>
          (case pick_gemini_content m of
             None \<Rightarrow> Err (invalid_request MSG_GRSAI_NO_CONTENTS)
           | Some content \<Rightarrow>
               (case Option.bind (jget ''parts'' content) as_array of
                  None \<Rightarrow> Err (invalid_request MSG_GRSAI_NO_PARTS)
                | Some parts \<Rightarrow>
                    (let prompt = join_with [CHR 0x0A]
                           (filter_map (\<lambda>part. trimmed_text (jget_str ''text'' part)) parts);
                         urls = filter_map extract_part_url parts;
                         image_config = opt_or (jpointer [''generationConfig'', ''imageConfig''] body)
                           (jpointer [''generation_config'', ''image_config''] body);
                         query_map = parse_query_map U query
                     in Ok
                       \<lparr>gp_model = normalize_model raw_model Gemini, gp_prompt = prompt, gp_urls = urls,
                        gp_aspect_ratio = pick_string_override query_map [''aspectRatio'', ''aspect_ratio''] image_config
                          [''aspectRatio'', ''aspect_ratio''] ''auto'',
                        gp_image_size = pick_string_override query_map [''imageSize'', ''image_size''] image_config
                          [''imageSize'', ''image_size''] ''1K'',
                        gp_output = pick_string_override query_map [''output''] image_config [''output''] []\<rparr>))))"

definition extract_openai_params :: "json \<Rightarrow> grsai_image_params grsai" where
  "extract_openai_params body =
     (case as_object body of
        None \<Rightarrow> Err (invalid_request MSG_GRSAI_NOT_OBJECT)
      | Some m \<Rightarrow>
          (let model = unwrap_or (opt_or (Option.bind (obj_get m ''model'') as_str)
                 (Option.bind (obj_get m ''model_name'') as_str)) [];
               prompt = unwrap_or (Option.bind (obj_get m ''prompt'') as_str) []
           in case (case opt_or (obj_get m ''urls'') (obj_get m ''images'') of
                 None \<Rightarrow> Ok []
               | Some v \<Rightarrow> extract_string_array v) of
             Err e \<Rightarrow> Err e
           | Ok urls \<Rightarrow> Ok
               \<lparr>gp_model = normalize_model model OpenAi, gp_prompt = prompt, gp_urls = urls,
                gp_aspect_ratio = pick_object_string m [''aspect_ratio'', ''aspectRatio''] ''auto'',
                gp_image_size = pick_object_string m [''image_size'', ''imageSize''] ''1K'',
                gp_output = pick_object_string m [''output''] ''url''\<rparr>))"

definition build_grsai_request_body :: "grsai_image_params \<Rightarrow> json" where
  "build_grsai_request_body params =
     JObject
       [(''model'', JString (gp_model params)), (''prompt'', JString (gp_prompt params)),
        (''urls'', JArray (map JString (gp_urls params))), (''aspectRatio'', JString (gp_aspect_ratio params)),
        (''imageSize'', JString (gp_image_size params)), (''shutProgress'', JBool True)]"

section \<open>The answer\<close>

definition data_line :: "string \<Rightarrow> string option" where
  "data_line line = map_option trim (strip_prefix line ''data:'')"

definition extract_payload_text :: "string \<Rightarrow> string \<Rightarrow> string grsai" where
  "extract_payload_text body body_text =
     (if body = [] \<or> trim body_text = [] then Err (parse_error MSG_GRSAI_EMPTY_BODY body_text None)
      else
        (let trimmed_body = trim_start body_text in
         if starts_with trimmed_body ''{'' \<or> starts_with trimmed_body ''['' then Ok trimmed_body
         else (case find (\<lambda>line. line \<noteq> [] \<and> line \<noteq> ''[DONE]'')
                  (rev (filter_map data_line (str_lines body_text))) of
             None \<Rightarrow> Err (parse_error MSG_GRSAI_NO_SEGMENT body_text None)
           | Some line \<Rightarrow> Ok line)))"

definition object_string :: "jobject \<Rightarrow> string list \<Rightarrow> string option" where
  "object_string m keys = trimmed_text (find_map (\<lambda>key. Option.bind (obj_get m key) as_str) keys)"

definition guess_business_status :: "int \<Rightarrow> string \<Rightarrow> status" where
  "guess_business_status code message =
     (if code = 400 then BAD_REQUEST
      else if code = 401 then UNAUTHORIZED
      else if code = 403 then FORBIDDEN
      else if code = 404 then NOT_FOUND
      else if code = 409 then CONFLICT
      else if code = 422 then UNPROCESSABLE_ENTITY
      else if code = 429 then TOO_MANY_REQUESTS
      else
        (let lower = to_lower message in
         if contains_str lower ''api key'' \<or> contains_str lower ''unauthorized'' \<or> contains_str lower ''auth''
            \<or> contains_str lower ''token'' \<or> contains_str lower ''invalid key''
         then UNAUTHORIZED else BAD_GATEWAY))"

definition failure_reason_of :: "jobject \<Rightarrow> string option" where
  "failure_reason_of m =
     Option.bind (Option.bind (obj_get m ''data'') as_object) (\<lambda>data. object_string data [''failure_reason''])"

definition unwrap_payload :: "json \<Rightarrow> string \<Rightarrow> (json \<times> int option \<times> string) grsai" where
  "unwrap_payload raw_json body_text =
     (case as_object raw_json of
        None \<Rightarrow> Ok (raw_json, None, [])
      | Some m \<Rightarrow>
          (let message = unwrap_or (Option.bind (opt_or (obj_get m ''msg'') (obj_get m ''message'')) as_str) [] in
           case Option.bind (obj_get m ''code'') as_i64 of
             Some code \<Rightarrow>
               (if code \<noteq> 0 then
                  Err \<lparr>ge_http_status = guess_business_status code message,
                       ge_message = (if blank message then MSG_GRSAI_BUSINESS else message),
                       ge_upstream_code = Some code, ge_failure_reason = failure_reason_of m,
                       ge_body_text = body_text, ge_raw_json = Some (JObject m)\<rparr>
                else (case obj_get m ''data'' of
                    None \<Rightarrow> Err (parse_error MSG_GRSAI_NO_DATA body_text (Some (JObject m)))
                  | Some data \<Rightarrow> Ok (data, Some code, message)))
           | None \<Rightarrow> Ok (JObject m, None, message)))"

definition build_http_error :: "fmt_api \<Rightarrow> status \<Rightarrow> string \<Rightarrow> json \<Rightarrow> grsai_error" where
  "build_http_error F status body_text raw_json =
     (let object_opt = as_object raw_json in
      \<lparr>ge_http_status = status,
       ge_message = unwrap_or (trimmed_text (Option.bind (Option.bind object_opt
           (\<lambda>m. opt_or (obj_get m ''msg'') (obj_get m ''message''))) as_str))
         (unwrap_or (canonical_reason F status) ''upstream error''),
       ge_upstream_code = Option.bind (Option.bind object_opt (\<lambda>m. obj_get m ''code'')) as_i64,
       ge_failure_reason = Option.bind object_opt failure_reason_of,
       ge_body_text = body_text, ge_raw_json = Some raw_json\<rparr>)"

definition result_urls :: "jobject \<Rightarrow> string list" where
  "result_urls m =
     (case Option.bind (obj_get m ''results'') as_array of
        None \<Rightarrow> []
      | Some results \<Rightarrow> filter_map (jget_str ''url'') results)"

definition parse_grsai_response :: "serde \<Rightarrow> fmt_api \<Rightarrow> status \<Rightarrow> string \<Rightarrow> grsai_result grsai" where
  "parse_grsai_response S F status body =
     (let body_text = utf8_lossy body in
      case extract_payload_text body body_text of
        Err e \<Rightarrow> Err e
      | Ok payload_text \<Rightarrow>
          (case from_slice S payload_text of
             Err err \<Rightarrow> Err (parse_error err body_text None)
           | Ok raw_json \<Rightarrow>
               if \<not> is_success status then Err (build_http_error F status body_text raw_json)
               else (case unwrap_payload raw_json body_text of
                   Err e \<Rightarrow> Err e
                 | Ok (payload, code, _) \<Rightarrow>
                     (case as_object payload of
                        None \<Rightarrow> Err ((parse_error MSG_GRSAI_DATA_NOT_OBJECT body_text (Some payload))
                                   \<lparr>ge_upstream_code := code\<rparr>)
                      | Some m \<Rightarrow>
                          (case trimmed_text (Option.bind (obj_get m ''status'') as_str) of
                             None \<Rightarrow> Err ((parse_error MSG_GRSAI_NO_STATUS body_text (Some payload))
                                 \<lparr>ge_upstream_code := code, ge_failure_reason := object_string m [''failure_reason'']\<rparr>)
                           | Some status_value \<Rightarrow> Ok
                               \<lparr>gr_status = status_value, gr_image_urls = result_urls m,
                                gr_failure_reason = object_string m [''failure_reason''],
                                gr_error_detail = object_string m [''error_detail'', ''errorDetail'', ''detail''],
                                gr_start_time = Option.bind (obj_get m ''start_time'') as_i64,
                                gr_end_time = Option.bind (obj_get m ''end_time'') as_i64,
                                gr_raw_data = payload\<rparr>)))))"

section \<open>The request is a fixpoint\<close>

definition clean :: "string \<Rightarrow> bool" where
  "clean s \<longleftrightarrow> trim s = s \<and> s \<noteq> []"

lemma trimmed_text_clean: "trimmed_text x = Some s \<Longrightarrow> clean s"
  by (auto simp: trimmed_text_def opt_filter_Some_iff clean_def)

lemma trimmed_text_of_clean: "clean s \<Longrightarrow> trimmed_text (Some s) = Some s"
  by (simp add: trimmed_text_def clean_def)

lemma clean_or: "clean fallback \<Longrightarrow> clean (unwrap_or (trimmed_text x) fallback)"
  by (cases "trimmed_text x") (auto dest: trimmed_text_clean)

lemma clean_constants: "clean ''auto''" "clean ''1K''" "clean ''url''" "clean DEFAULT_MODEL" "clean ''nano-banana-pro''"
  "clean ''nano-banana-2''"
  by (simp_all add: clean_def DEFAULT_MODEL_def trim_plain plain_char_def bval_def)

lemma clean_model: "clean (normalize_model raw source)"
proof -
  have "trim raw \<noteq> [] \<Longrightarrow> clean (trim raw)" by (simp add: clean_def)
  then show ?thesis by (cases source) (simp_all add: normalize_model_def Let_def clean_constants)
qed

lemma clean_override: "clean fallback \<Longrightarrow> clean (pick_string_override qm ks v oks fallback)"
proof -
  assume f: "clean fallback"
  have "clean value" if "find_map (query_value qm) ks = Some value" for "value"
    using find_map_SomeD [OF that]
    by (auto simp: query_value_def find_Some_iff clean_def blank_def)
  with clean_or [OF f] show ?thesis by (auto simp: pick_string_override_def split: option.splits)
qed

lemma filter_map_all: "(\<And>x y. f x = Some y \<Longrightarrow> P y) \<Longrightarrow> \<forall>y \<in> set (filter_map f xs). P y"
  by (auto simp: set_filter_map)

text \<open>What both extractions promise of their result, and what the provider's request keeps.\<close>

definition params_ok :: "grsai_image_params \<Rightarrow> bool" where
  "params_ok p \<longleftrightarrow> clean (gp_model p) \<and> (\<forall>u \<in> set (gp_urls p). clean u) \<and> clean (gp_aspect_ratio p) \<and> clean (gp_image_size p)"

lemma gemini_params_ok:
  assumes "extract_gemini_params U body raw_model query = Ok p"
  shows "params_ok p"
proof -
  let ?qm = "parse_query_map U query"
  let ?v = "opt_or (jpointer [''generationConfig'', ''imageConfig''] body) (jpointer [''generation_config'', ''image_config''] body)"
  have fields: "gp_model p = normalize_model raw_model Gemini" "\<exists>parts. gp_urls p = filter_map extract_part_url parts"
    "gp_aspect_ratio p = pick_string_override ?qm [''aspectRatio'', ''aspect_ratio''] ?v
        [''aspectRatio'', ''aspect_ratio''] ''auto''"
    "gp_image_size p = pick_string_override ?qm [''imageSize'', ''image_size''] ?v [''imageSize'', ''image_size''] ''1K''"
    using assms by (auto simp: extract_gemini_params_def Let_def simp del: jpointer.simps split: option.splits)
  have "\<forall>u \<in> set (filter_map extract_part_url parts). clean u" for parts
    by (rule filter_map_all) (simp add: extract_part_url_def trimmed_text_clean)
  with fields show ?thesis
    by (auto simp: params_ok_def clean_model clean_constants intro: clean_override)
qed

lemma extract_string_array_clean: "extract_string_array v = Ok us \<Longrightarrow> \<forall>u \<in> set us. clean u"
proof
  fix u
  assume "extract_string_array v = Ok us" "u \<in> set us"
  let ?f = "\<lambda>item. case trimmed_text (as_str item) of
      None \<Rightarrow> Err (invalid_request MSG_GRSAI_URLS) | Some url \<Rightarrow> Ok url"
  obtain xs where "collect_results ?f xs = Ok us"
    using \<open>extract_string_array v = Ok us\<close> by (auto simp: extract_string_array_def split: option.splits)
  from collect_results_OkD [OF this] \<open>u \<in> set us\<close> obtain x where "?f x = Ok u"
    by (auto simp: list_all2_conv_all_nth in_set_conv_nth)
  then show "clean u" by (auto dest: trimmed_text_clean split: option.splits)
qed

lemma openai_params_ok:
  assumes "extract_openai_params body = Ok p"
  shows "params_ok p"
proof -
  obtain m where m: "as_object body = Some m"
    using assms by (auto simp: extract_openai_params_def split: option.splits)
  have fields: "\<exists>raw. gp_model p = normalize_model raw OpenAi"
    "gp_aspect_ratio p = pick_object_string m [''aspect_ratio'', ''aspectRatio''] ''auto''"
    "gp_image_size p = pick_object_string m [''image_size'', ''imageSize''] ''1K''"
    "gp_urls p = [] \<or> (\<exists>v. extract_string_array v = Ok (gp_urls p))"
    using assms m by (auto simp: extract_openai_params_def Let_def split: option.splits sum.splits)
  have "clean (pick_object_string m ks fallback)" if "clean fallback" for ks fallback
    using clean_or [OF that] by (simp add: pick_object_string_def)
  with fields(1-3) clean_model clean_constants have "clean (gp_model p)" "clean (gp_aspect_ratio p)" "clean (gp_image_size p)"
    by auto
  moreover have "\<forall>u \<in> set (gp_urls p). clean u"
    using fields(4) by (elim disjE exE) (simp, rule extract_string_array_clean)
  ultimately show ?thesis by (simp add: params_ok_def)
qed

lemma collect_clean_strings:
  "\<forall>u \<in> set us. clean u \<Longrightarrow> extract_string_array (JArray (map JString us)) = Ok us"
proof -
  assume "\<forall>u \<in> set us. clean u"
  then show ?thesis
    unfolding extract_string_array_def by (induction us) (simp_all add: trimmed_text_of_clean)
qed

lemma extract_built:
  assumes "params_ok p"
  shows "extract_openai_params (build_grsai_request_body p) = Ok (p\<lparr>gp_output := ''url''\<rparr>)"
proof -
  have "normalize_model (gp_model p) OpenAi = gp_model p"
    using assms by (simp add: normalize_model_def params_ok_def clean_def)
  moreover have "trimmed_text (Some (gp_aspect_ratio p)) = Some (gp_aspect_ratio p)"
    "trimmed_text (Some (gp_image_size p)) = Some (gp_image_size p)"
    using assms by (simp_all add: params_ok_def trimmed_text_of_clean)
  moreover have "trimmed_text None = None" by (simp add: trimmed_text_def)
  ultimately show ?thesis
    using assms collect_clean_strings [of "gp_urls p"]
    by (simp add: extract_openai_params_def build_grsai_request_body_def params_ok_def pick_object_string_def)
qed

text \<open>
  (C38) The request sent to grsai holds the parameters without loss: reading it back as a request of
  that form gives what was extracted from the client's request (the output mode, which is not
  sent, apart), for a Gemini request as well as for an OpenAI request.
\<close>

theorem grsai_request_roundtrip:
  assumes "extract_gemini_params U body raw_model query = Ok p \<or> extract_openai_params body = Ok p"
  shows "extract_openai_params (build_grsai_request_body p) = Ok (p\<lparr>gp_output := ''url''\<rparr>)"
  using assms gemini_params_ok openai_params_ok by (intro extract_built) blast

lemma grsai_request_roundtrip_witness:
  "let body = JObject [(''model'', JString '' m ''), (''prompt'', JString ''a cat''), (''images'', JArray [JString ''https://x/a ''])]
   in \<exists>p. extract_openai_params body = Ok p \<and> extract_openai_params (build_grsai_request_body p) = Ok (p\<lparr>gp_output := ''url''\<rparr>)
      \<and> gp_prompt p = ''a cat''"
proof -
  let ?body = "JObject [(''model'', JString '' m ''), (''prompt'', JString ''a cat''), (''images'', JArray [JString ''https://x/a ''])]"
  have t: "trim ''https://x/a '' \<noteq> []" by code_simp
  then obtain p where p: "extract_openai_params ?body = Ok p" "gp_prompt p = ''a cat''"
    by (auto simp: extract_openai_params_def extract_string_array_def trimmed_text_def Let_def)
  have "extract_gemini_params sample_url ?body [] None = Ok p \<or> extract_openai_params ?body = Ok p" using p(1) by blast
  from grsai_request_roundtrip [OF this] p show ?thesis unfolding Let_def by blast
qed

section \<open>Errors\<close>


section \<open>Event streams\<close>

text \<open>An answer sent as a stream of events, one JSON text each, closed by the usual mark.\<close>

definition event :: "string \<Rightarrow> string" where
  "event payload = ''data: '' @ payload @ [CHR 0x0A, CHR 0x0A]"

definition event_stream :: "string list \<Rightarrow> string" where
  "event_stream payloads = concat (map event payloads) @ event ''[DONE]''"

definition one_line :: "string \<Rightarrow> bool" where
  "one_line s \<longleftrightarrow> clean s \<and> CHR 0x0A \<notin> set s \<and> s \<noteq> ''[DONE]''"

lemma trim_start_space: "trim_start (CHR '' '' # s) = trim_start s"
  by (subst trim_start.simps) (simp add: ws_seqs_def)

lemma data_line_event: "clean s \<Longrightarrow> data_line (''data: '' @ s) = Some s"
  by (simp add: data_line_def strip_prefix_def trim_def trim_start_space clean_def)

lemma clean_last: "clean s \<Longrightarrow> last s \<noteq> CHR 0x0D"
proof
  assume c: "clean s" "last s = CHR 0x0D"
  have "trimmed s" using c(1) trimmed_trim [of s] by (simp add: clean_def)
  then have "\<not> suffix [CHR 0x0D] s" by (auto simp: trimmed_def ws_seqs_def)
  moreover have "suffix [CHR 0x0D] s"
    using c by (metis append_butlast_last_id clean_def suffix_def)
  ultimately show False by simp
qed

lemma clean_trim_start: "clean s \<Longrightarrow> trim_start s = s"
  using trimmed_trim [of s] by (simp add: clean_def trim_start_trimmed)

lemma split_events:
  "(\<forall>p \<in> set ps. CHR 0x0A \<notin> set p) \<Longrightarrow>
   split_on (CHR 0x0A) (concat (map event ps)) = concat (map (\<lambda>p. [''data: '' @ p, []]) ps) @ [[]]"
proof (induction ps)
  case (Cons p ps)
  let ?rest = "concat (map event ps)"
  have e: "concat (map event (p # ps)) = (''data: '' @ p) @ CHR 0x0A # CHR 0x0A # ?rest" by (simp add: event_def)
  have "split_on (CHR 0x0A) (concat (map event (p # ps))) = (''data: '' @ p) # split_on (CHR 0x0A) (CHR 0x0A # ?rest)"
    unfolding e by (rule split_on_append) (use Cons.prems in auto)
  moreover have "split_on (CHR 0x0A) (CHR 0x0A # ?rest) = [] # split_on (CHR 0x0A) ?rest" by simp
  moreover have "split_on (CHR 0x0A) ?rest = concat (map (\<lambda>p. [''data: '' @ p, []]) ps) @ [[]]"
    using Cons by simp
  ultimately show ?case by (simp only: list.map concat.simps append.simps)
qed simp

lemma event_lines:
  assumes "\<forall>p \<in> set ps. clean p \<and> CHR 0x0A \<notin> set p"
  shows "str_lines (concat (map event ps)) = concat (map (\<lambda>p. [''data: '' @ p, []]) ps)"
proof -
  have "strip_cr (''data: '' @ p) = ''data: '' @ p" if "p \<in> set ps" for p
    using assms that clean_last [of p] by (auto simp: strip_cr_def clean_def)
  then have "map strip_cr (concat (map (\<lambda>p. [''data: '' @ p, []]) ps)) = concat (map (\<lambda>p. [''data: '' @ p, []]) ps)"
    by (induction ps) (simp_all add: strip_cr_def)
  with assms show ?thesis by (simp add: str_lines_def split_events)
qed

lemma data_lines_events:
  "(\<forall>p \<in> set ps. clean p) \<Longrightarrow> filter_map data_line (concat (map (\<lambda>p. [''data: '' @ p, []]) ps)) = ps"
proof (induction ps)
  case (Cons p ps)
  have "data_line [] = None" by (simp add: data_line_def strip_prefix_def)
  with Cons data_line_event [of p] show ?case by simp
qed simp

lemma trim_end_newline: "trim_end (s @ [CHR 0x0A]) = trim_end s"
  by (subst trim_end.simps) (simp add: ws_seqs_def)

lemma trim_start_data: "trim_start (''data: '' @ s) = ''data: '' @ s"
  by (subst trim_start.simps) (simp add: ws_seqs_def)

lemma event_stream_starts: "\<exists>s. event_stream ps = ''data: '' @ s"
  by (cases ps) (auto simp: event_stream_def event_def)

lemma event_stream_not_blank: "trim (event_stream ps) \<noteq> []"
proof -
  let ?s = "concat (map event ps) @ ''data: [DONE]''"
  have "event_stream ps = (?s @ [CHR 0x0A]) @ [CHR 0x0A]" by (simp add: event_stream_def event_def)
  then have "trim (event_stream ps) = trim_end ?s"
    using event_stream_starts [of ps] trim_start_data by (metis trim_def trim_end_newline)
  moreover have "trim ?s = trim_end ?s"
  proof -
    have "\<exists>s. ?s = ''data: '' @ s" by (cases ps) (auto simp: event_def)
    then show ?thesis using trim_start_data by (metis trim_def)
  qed
  moreover have "trim ?s = ?s"
  proof (rule trim_plain)
    show "plain_char (hd ?s)" by (cases ps) (auto simp: event_def plain_char_def bval_def)
  qed (simp_all add: plain_char_def bval_def)
  ultimately show ?thesis by simp
qed

lemma payload_of_stream:
  assumes "\<forall>p \<in> set ps. one_line p" "ps \<noteq> []"
  shows "extract_payload_text (event_stream ps) (event_stream ps) = Ok (last ps)"
proof -
  have mark: "clean ''[DONE]''" by (simp add: clean_def trim_plain plain_char_def bval_def)
  then have all: "\<forall>p \<in> set (ps @ [''[DONE]'']). clean p \<and> CHR 0x0A \<notin> set p"
    using assms(1) by (auto simp: one_line_def)
  have st: "event_stream ps = concat (map event (ps @ [''[DONE]'']))" by (simp add: event_stream_def)
  have lines: "filter_map data_line (str_lines (event_stream ps)) = ps @ [''[DONE]'']"
    unfolding st event_lines [OF all] using all by (intro data_lines_events) blast
  obtain s where s: "event_stream ps = ''data: '' @ s" using event_stream_starts by blast
  then have "trim_start (event_stream ps) = ''data: '' @ s" using trim_start_data by simp
  then have plain: "\<not> starts_with (trim_start (event_stream ps)) ''{''" "\<not> starts_with (trim_start (event_stream ps)) ''[''"
    by (simp_all add: starts_with_def)
  obtain qs q where q: "ps = qs @ [q]" using assms(2) by (metis rev_exhaust)
  then have "q \<noteq> [] \<and> q \<noteq> ''[DONE]''" using assms(1) by (simp add: one_line_def clean_def)
  then have "find (\<lambda>line. line \<noteq> [] \<and> line \<noteq> ''[DONE]'') (rev (ps @ [''[DONE]''])) = Some (last ps)" by (simp add: q)
  with lines plain event_stream_not_blank [of ps] s show ?thesis
    by (simp add: extract_payload_text_def Let_def)
qed

definition forget_body :: "grsai_error \<Rightarrow> grsai_error" where
  "forget_body e = e\<lparr>ge_body_text := []\<rparr>"

lemma unwrap_payload_body: "map_sum forget_body id (unwrap_payload j b) = map_sum forget_body id (unwrap_payload j b')"
  by (auto simp: unwrap_payload_def parse_error_def forget_body_def Let_def split: option.splits)

text \<open>
  (C40) An answer that arrives as a stream of events, closed by the mark \<^verbatim>\<open>[DONE]\<close>, is read as its last
  event would be read when it were the whole body: the same result, or the same error but for the
  quoted body.
\<close>

theorem event_stream_read_as_last_event:
  assumes "ps \<noteq> []" "\<forall>p \<in> set ps. one_line p" "starts_with (last ps) ''{''"
    and "utf8_valid (event_stream ps)" "utf8_valid (last ps)"
  shows "map_sum forget_body id (parse_grsai_response S F status (event_stream ps))
    = map_sum forget_body id (parse_grsai_response S F status (last ps))"
proof -
  have l: "clean (last ps)" using assms(1,2) last_in_set [of ps] by (auto simp: one_line_def)
  then have direct: "extract_payload_text (last ps) (last ps) = Ok (last ps)"
    using assms(3) by (simp add: extract_payload_text_def clean_trim_start) (simp add: clean_def)
  note stream = payload_of_stream [OF assms(2,1)]
  show ?thesis
  proof (cases "from_slice S (last ps)")
    case (Inr j)
    have same: "map_sum forget_body id (unwrap_payload j (event_stream ps)) = map_sum forget_body id (unwrap_payload j (last ps))"
      by (rule unwrap_payload_body)
    show ?thesis
    proof (cases "is_success status")
      case True
      then show ?thesis
        using Inr same by (cases "unwrap_payload j (event_stream ps)"; cases "unwrap_payload j (last ps)")
          (auto simp: parse_grsai_response_def utf8_lossy_valid [OF assms(4)] utf8_lossy_valid [OF assms(5)]
            direct stream forget_body_def parse_error_def Let_def split: option.splits)
    next
      case False
      then show ?thesis
        using Inr by (simp add: parse_grsai_response_def utf8_lossy_valid [OF assms(4)] utf8_lossy_valid [OF assms(5)]
            direct stream forget_body_def build_http_error_def Let_def)
    qed
  qed (simp add: parse_grsai_response_def utf8_lossy_valid [OF assms(4)] utf8_lossy_valid [OF assms(5)]
      direct stream forget_body_def parse_error_def)
qed

lemma event_stream_read_as_last_event_witness:
  "let payload = ''{1}''; S = sample_serde [(payload, JObject [(''status'', JString ''succeeded'')])]
   in map_sum forget_body id (parse_grsai_response S sample_fmt 200 (event_stream [''{0}'', payload]))
      = map_sum forget_body id (parse_grsai_response S sample_fmt 200 payload)"
proof -
  have "utf8_valid (event_stream [''{0}'', ''{1}''])" by code_simp
  moreover have "utf8_valid ''{1}''" by code_simp
  moreover have "one_line ''{0}''" "one_line ''{1}''"
    by (simp_all add: one_line_def clean_def trim_plain plain_char_def bval_def)
  ultimately show ?thesis
    using event_stream_read_as_last_event [of "[''{0}'', ''{1}'']"
        "sample_serde [(''{1}'', JObject [(''status'', JString ''succeeded'')])]" sample_fmt 200]
    by (simp add: starts_with_def)
qed

end
