(* ===== verification/Openai_Image.thy ===== *)
theory Openai_Image
  imports Messages Samples
begin

text \<open>
  \<^verbatim>\<open>src/openai_image.rs\<close>: the checks and the normal form of an OpenAI image request, and the answer
  built from the uploaded images. Parsing a date with the crate \<^verbatim>\<open>time\<close> is a parameter.
\<close>

section \<open>The request\<close>

definition IMAGE_FIELD_ALIASES :: "string list" where
  "IMAGE_FIELD_ALIASES = [''reference_images'', ''images'', ''image'']"

record uploaded_image =
  um_url :: string

definition validate_reference_image_url :: "'u url_api \<Rightarrow> string \<Rightarrow> unit fallible" where
  "validate_reference_image_url U raw =
     (case url_parse U raw of
        Err _ \<Rightarrow> Err (Message MSG_REFERENCE_URL)
      | Ok parsed \<Rightarrow>
          if \<not> is_http_scheme (url_scheme U parsed) then Err (Message MSG_REFERENCE_SCHEME)
          else if trim (host_or_empty U parsed) = [] then Err (Message MSG_REFERENCE_HOST)
          else Ok ())"

definition reference_image :: "'u url_api \<Rightarrow> string \<Rightarrow> json \<Rightarrow> string fallible" where
  "reference_image U alias item =
     (case as_str item of
        None \<Rightarrow> Err (Message (alias @ MSG_ITEM_MUST_BE_STRING))
      | Some raw \<Rightarrow> map_sum id (\<lambda>_. raw) (validate_reference_image_url U raw))"

text \<open>The loop over the aliases: each is removed, its images are added.\<close>

fun collect_aliases ::
  "'u url_api \<Rightarrow> string list \<Rightarrow> jobject \<Rightarrow> string list \<Rightarrow> (jobject \<times> string list) fallible" where
  "collect_aliases U [] m images = Ok (m, images)"
| "collect_aliases U (alias # aliases) m images =
     (case obj_get m alias of
        None \<Rightarrow> collect_aliases U aliases m images
      | Some v \<Rightarrow>
          (case as_array v of
             None \<Rightarrow> Err (Message (alias @ MSG_MUST_BE_ARRAY))
           | Some array \<Rightarrow>
               (case collect_results (reference_image U alias) array of
                  Err e \<Rightarrow> Err e
                | Ok raws \<Rightarrow> collect_aliases U aliases (obj_remove alias m) (images @ raws))))"

definition collect_reference_images ::
  "'u url_api \<Rightarrow> jobject \<Rightarrow> (jobject \<times> (string \<times> string list) option) fallible" where
  "collect_reference_images U m =
     (let target_alias = find (\<lambda>alias. obj_has m alias) (rev IMAGE_FIELD_ALIASES) in
      map_sum id (\<lambda>(m, images). (m, map_option (\<lambda>alias. (alias, images)) target_alias))
        (collect_aliases U IMAGE_FIELD_ALIASES m []))"

definition normalize_request_body :: "'u url_api \<Rightarrow> json \<Rightarrow> bool \<Rightarrow> json fallible" where
  "normalize_request_body U body force_b64_json =
     (case body of
        JObject m \<Rightarrow>
          (let response_format = unwrap_or (Option.bind (obj_get m ''response_format'') as_str) ''url'' in
           if \<not> eq_ignore_case response_format ''url'' then Err (Message MSG_RESPONSE_FORMAT)
           else (case collect_reference_images U m of
               Err e \<Rightarrow> Err e
             | Ok (m, image_field) \<Rightarrow>
                 (let m = (case image_field of
                        None \<Rightarrow> m
                      | Some (field_name, images) \<Rightarrow> obj_insert field_name (JArray (map JString images)) m)
                  in Ok (JObject (obj_insert ''response_format''
                       (JString (if force_b64_json then ''b64_json'' else ''url'')) m)))))
      | _ \<Rightarrow> Err (Message MSG_BODY_NOT_OBJECT))"

definition sized_model :: "jobject \<Rightarrow> jobject" where
  "sized_model m =
     (if Option.bind (obj_get m ''model'') as_str = Some ''seedream-5-pro'' then
        (case Option.bind (obj_get m ''size'') as_str of
           Some sz \<Rightarrow>
             if eq_ignore_case sz ''1K'' \<or> eq_ignore_case sz ''2K''
             then obj_insert ''model'' (JString (''GZ-seedream-5-pro-'' @ to_upper sz)) m
             else m
         | None \<Rightarrow> m)
      else m)"

definition move_to_images :: "string \<Rightarrow> jobject \<Rightarrow> jobject" where
  "move_to_images alias m =
     (case obj_get m alias of
        None \<Rightarrow> m
      | Some images \<Rightarrow> obj_insert ''images'' images (obj_remove alias m))"

definition is_tianyue :: "'u url_api \<Rightarrow> string \<Rightarrow> bool" where
  "is_tianyue U base_url \<longleftrightarrow>
     (case parse_ok U base_url of None \<Rightarrow> False | Some url \<Rightarrow> url_host U url = Some ''api.tianyue.xyz'')"

definition normalize_request_body_for_upstream :: "'u url_api \<Rightarrow> json \<Rightarrow> bool \<Rightarrow> string \<Rightarrow> json fallible" where
  "normalize_request_body_for_upstream U body force_b64_json base_url =
     (case normalize_request_body U body force_b64_json of
        Err e \<Rightarrow> Err e
      | Ok body \<Rightarrow>
          Ok (if is_tianyue U base_url then
                (case body of
                   JObject m \<Rightarrow> JObject (move_to_images ''reference_images'' (move_to_images ''image'' (sized_model m)))
                 | _ \<Rightarrow> body)
              else body))"

section \<open>The answer\<close>

definition build_fixed_usage :: json where
  "build_fixed_usage =
     JObject
       [(''input_tokens'', jnat 1024),
        (''input_tokens_details'', JObject [(''image_tokens'', jnat 1000), (''text_tokens'', jnat 24)]),
        (''output_tokens'', jnat 1024), (''total_tokens'', jnat 2048),
        (''output_tokens_details'', JObject [(''image_tokens'', jnat 1024), (''text_tokens'', jnat 0)])]"

definition uploaded_json :: "uploaded_image \<Rightarrow> json" where
  "uploaded_json u = JObject [(''url'', JString (um_url u))]"

definition build_response_payload_from_uploaded :: "uploaded_image list \<Rightarrow> int \<Rightarrow> json" where
  "build_response_payload_from_uploaded uploaded created =
     JObject [(''created'', jint created), (''data'', JArray (map uploaded_json uploaded)), (''usage'', build_fixed_usage)]"

text \<open>\<open>parse_time\<close> reads \<^verbatim>\<open>[year]-[month]-[day] [hour]:[minute]:[second]\<close> as a UTC time stamp.\<close>

definition parse_aiapidev_timestamp :: "(string \<Rightarrow> int option) \<Rightarrow> string \<Rightarrow> int option" where
  "parse_aiapidev_timestamp parse_time raw = parse_time (trim raw)"

definition extract_created_timestamp :: "(string \<Rightarrow> int option) \<Rightarrow> json \<Rightarrow> int \<Rightarrow> int" where
  "extract_created_timestamp parse_time upstream_body fallback_created =
     (case Option.bind (jget ''created'' upstream_body) as_i64 of
        Some created \<Rightarrow> created
      | None \<Rightarrow>
          unwrap_or
            (find_map (\<lambda>key. Option.bind (jget_str key upstream_body) (parse_aiapidev_timestamp parse_time))
               [''finishedTime'', ''submittedTime'', ''createTime''])
            fallback_created)"

definition build_response_payload ::
  "(string \<Rightarrow> int option) \<Rightarrow> json \<Rightarrow> uploaded_image list \<Rightarrow> int \<Rightarrow> json fallible" where
  "build_response_payload parse_time upstream_body uploaded fallback_created =
     (let created = extract_created_timestamp parse_time upstream_body fallback_created in
      Ok (JObject [(''created'', jint created), (''data'', JArray (map uploaded_json uploaded)),
        (''usage'', build_fixed_usage)]))"

section \<open>The reference images of a request\<close>

text \<open>The images listed under an alias, and all of them in the order of the aliases.\<close>

definition listed_images :: "jobject \<Rightarrow> string \<Rightarrow> string list" where
  "listed_images m alias =
     (case obj_get m alias of Some (JArray xs) \<Rightarrow> filter_map as_str xs | _ \<Rightarrow> [])"

definition all_images :: "jobject \<Rightarrow> string list" where
  "all_images m = concat (map (listed_images m) IMAGE_FIELD_ALIASES)"

definition good_image_url :: "'u url_api \<Rightarrow> string \<Rightarrow> bool" where
  "good_image_url U raw \<longleftrightarrow>
     (\<exists>u. url_parse U raw = Ok u \<and> is_http_scheme (url_scheme U u) \<and> \<not> blank (host_or_empty U u))"

lemma validate_Ok_iff: "validate_reference_image_url U raw = Ok () \<longleftrightarrow> good_image_url U raw"
  by (auto simp: validate_reference_image_url_def good_image_url_def blank_def split: sum.splits)

lemma reference_images_Ok:
  assumes "collect_results (reference_image U alias) xs = Ok raws"
  shows "xs = map JString raws \<and> (\<forall>r \<in> set raws. good_image_url U r)"
  using assms
proof (induction xs arbitrary: raws)
  case (Cons x xs)
  then obtain r rs where r: "reference_image U alias x = Ok r" "collect_results (reference_image U alias) xs = Ok rs" "raws = r # rs"
    by (auto split: sum.splits)
  from r(1) obtain v where v: "as_str x = Some v" "map_sum id (\<lambda>_. v) (validate_reference_image_url U v) = Ok r"
    by (auto simp: reference_image_def split: option.splits)
  then have "x = JString r" "validate_reference_image_url U r = Ok ()"
    by (cases "validate_reference_image_url U v"; auto simp: as_str_Some_iff)+
  with Cons.IH [OF r(2)] r(3) show ?case by (simp add: validate_Ok_iff)
qed simp

lemma filter_map_strings: "filter_map as_str (map JString raws) = raws"
  by (induction raws) auto

lemma collect_aliases_Ok:
  assumes "collect_aliases U als m imgs = Ok (m', imgs')" "distinct als" "distinct (map fst m)"
  shows "(\<forall>k. obj_get m' k = (if k \<in> set als then None else obj_get m k)) \<and> distinct (map fst m')
    \<and> imgs' = imgs @ concat (map (listed_images m) als)
    \<and> (\<forall>a \<in> set als. \<forall>r \<in> set (listed_images m a). good_image_url U r)"
  using assms
proof (induction als arbitrary: m imgs)
  case (Cons al als)
  show ?case
  proof (cases "obj_get m al")
    case None
    have rest: "collect_aliases U als m imgs = Ok (m', imgs')" using Cons.prems(1) None by simp
    have "listed_images m al = []" using None by (simp add: listed_images_def)
    with Cons.IH [OF rest] Cons.prems(2,3) None show ?thesis by auto
  next
    case (Some v)
    then obtain raws where v: "v = JArray (map JString raws)" "\<forall>r \<in> set raws. good_image_url U r"
      and rest: "collect_aliases U als (obj_remove al m) (imgs @ raws) = Ok (m', imgs')"
      using Cons.prems(1) by (auto simp: as_array_Some_iff dest!: reference_images_Ok split: option.splits sum.splits)
    have l: "listed_images m al = raws" using Some v(1) by (simp add: listed_images_def filter_map_strings)
    have same: "listed_images (obj_remove al m) a = listed_images m a" if "a \<in> set als" for a
      using that Cons.prems(2,3) by (auto simp: listed_images_def obj_get_remove)
    have "concat (map (listed_images (obj_remove al m)) als) = concat (map (listed_images m) als)"
      using same by (intro arg_cong [where f = concat] map_cong) auto
    moreover have "distinct als" "distinct (map fst (obj_remove al m))"
      using Cons.prems(2,3) distinct_obj_remove by auto
    ultimately show ?thesis
      using Cons.IH [OF rest] same l v(2) Cons.prems(2,3) by (auto simp: obj_get_remove)
  qed
qed simp

definition image_field :: "jobject \<Rightarrow> string option" where
  "image_field m = find (\<lambda>alias. obj_has m alias) (rev IMAGE_FIELD_ALIASES)"

lemma normalized_request:
  assumes "normalize_request_body U body force = Ok out" "json_wf body"
  shows "\<exists>m m'. body = JObject m \<and> out = JObject m' \<and> distinct (map fst m')
    \<and> (\<forall>r \<in> set (all_images m). good_image_url U r)
    \<and> (\<forall>k. obj_get m' k =
         (if k = ''response_format'' then Some (JString (if force then ''b64_json'' else ''url''))
          else if k \<in> set IMAGE_FIELD_ALIASES
          then (if image_field m = Some k then Some (JArray (map JString (all_images m))) else None)
          else obj_get m k))"
proof -
  obtain m where m: "body = JObject m" using assms(1) by (auto simp: normalize_request_body_def split: json.splits)
  have d: "distinct (map fst m)" using assms(2) m by simp
  obtain m1 field where c: "collect_reference_images U m = Ok (m1, field)"
    "out = JObject (obj_insert ''response_format'' (JString (if force then ''b64_json'' else ''url''))
       (case field of None \<Rightarrow> m1 | Some (name, images) \<Rightarrow> obj_insert name (JArray (map JString images)) m1))"
    using assms(1) m by (auto simp: normalize_request_body_def Let_def split: if_splits sum.splits)
  obtain images where i: "collect_aliases U IMAGE_FIELD_ALIASES m [] = Ok (m1, images)"
    "field = map_option (\<lambda>alias. (alias, images)) (image_field m)"
    using c(1) by (cases "collect_aliases U IMAGE_FIELD_ALIASES m []")
      (auto simp: collect_reference_images_def image_field_def Let_def)
  have "distinct IMAGE_FIELD_ALIASES" by (simp add: IMAGE_FIELD_ALIASES_def)
  note l = collect_aliases_Ok [OF i(1) this d]
  have images: "images = all_images m" using l by (simp add: all_images_def)
  have good: "\<forall>r \<in> set (all_images m). good_image_url U r" using l by (auto simp: all_images_def)
  have fld: "image_field m = Some k \<Longrightarrow> k \<in> set IMAGE_FIELD_ALIASES" for k
    by (auto simp: image_field_def find_Some_iff dest: nth_mem) (metis nth_mem length_rev set_rev)
  have rf: "''response_format'' \<notin> set IMAGE_FIELD_ALIASES" by (simp add: IMAGE_FIELD_ALIASES_def)
  show ?thesis
  proof (cases "image_field m")
    case None
    with c(2) i(2) l m good rf show ?thesis by (auto simp: distinct_obj_insert)
  next
    case (Some k)
    have "out = JObject (obj_insert ''response_format'' (JString (if force then ''b64_json'' else ''url''))
        (obj_insert k (JArray (map JString (all_images m))) m1))"
      using c(2) i(2) Some images by simp
    with l m good rf fld [OF Some] Some show ?thesis by (auto simp: distinct_obj_insert)
  qed
qed

text \<open>
  (C37) An accepted image request is normal: the images of all alias fields, in the order
  reference_images, images, image, are under one of the aliases that were present and under no
  other; each of them is a complete http or https URL with a host; the response format is the
  requested one; and every other field is as it was.
\<close>

theorem normalized_image_request:
  assumes "normalize_request_body U body force = Ok out" "json_wf body"
  shows "\<exists>m m'. body = JObject m \<and> out = JObject m' \<and> distinct (map fst m')
    \<and> (\<forall>r \<in> set (all_images m). good_image_url U r)
    \<and> (\<forall>k. obj_get m' k =
         (if k = ''response_format'' then Some (JString (if force then ''b64_json'' else ''url''))
          else if k \<in> set IMAGE_FIELD_ALIASES
          then (if image_field m = Some k then Some (JArray (map JString (all_images m))) else None)
          else obj_get m k))"
  by (rule normalized_request [OF assms])

lemma normalized_image_request_witness:
  "let body = JObject [(''image'', JArray [JString ''http://a.example/x'']), (''prompt'', JString ''p''),
         (''images'', JArray [JString ''http://b.example/y''])]
   in \<exists>m'. normalize_request_body sample_url body True = Ok (JObject m')
      \<and> obj_get m' ''image'' = Some (JArray [JString ''http://b.example/y'', JString ''http://a.example/x''])
      \<and> obj_get m' ''images'' = None \<and> obj_get m' ''prompt'' = Some (JString ''p'')"
proof -
  let ?m = "[(''image'', JArray [JString ''http://a.example/x'']), (''prompt'', JString ''p''),
         (''images'', JArray [JString ''http://b.example/y''])]"
  have "validate_reference_image_url sample_url ''http://a.example/x'' = Ok ()"
    "validate_reference_image_url sample_url ''http://b.example/y'' = Ok ()"
    by (simp_all add: validate_reference_image_url_def sample_url_def sample_url_parse_def split_opt_def
        is_http_scheme_def host_or_empty_def to_lower_def lower_char_def trim_plain plain_char_def bval_def)
  then obtain out where out: "normalize_request_body sample_url (JObject ?m) True = Ok out"
    by (simp add: normalize_request_body_def collect_reference_images_def IMAGE_FIELD_ALIASES_def obj_has_def
        reference_image_def)
  have wf: "json_wf (JObject ?m)" by (simp add: u64_max_def)
  have "image_field ?m = Some ''image''" "all_images ?m = [''http://b.example/y'', ''http://a.example/x'']"
    by (simp_all add: image_field_def IMAGE_FIELD_ALIASES_def obj_has_def all_images_def listed_images_def)
  with normalized_image_request [OF out wf] out show ?thesis
    unfolding Let_def by (auto simp: IMAGE_FIELD_ALIASES_def)
qed

section \<open>The request for one upstream\<close>

text \<open>
  The upstream api.tianyue.xyz takes its images under \<^verbatim>\<open>images\<close> only: for it, the other two
  aliases are gone and \<^verbatim>\<open>images\<close> holds all images of the request; for other upstreams the normal
  form is sent as it is.
\<close>

lemma upstream_image_field:
  assumes "normalize_request_body_for_upstream U body force base_url = Ok out" "json_wf body"
  shows "\<exists>m m'. body = JObject m \<and> out = JObject m'
    \<and> (if is_tianyue U base_url
       then obj_get m' ''image'' = None \<and> obj_get m' ''reference_images'' = None
         \<and> obj_get m' ''images'' = (if image_field m = None then None else Some (JArray (map JString (all_images m))))
       else normalize_request_body U body force = Ok out)"
proof -
  obtain norm where n: "normalize_request_body U body force = Ok norm"
    using assms(1) by (auto simp: normalize_request_body_for_upstream_def split: sum.splits)
  obtain m m1 where m: "body = JObject m" "norm = JObject m1" "distinct (map fst m1)"
    and get': "\<forall>k. obj_get m1 k =
         (if k = ''response_format'' then Some (JString (if force then ''b64_json'' else ''url''))
          else if k \<in> set IMAGE_FIELD_ALIASES
          then (if image_field m = Some k then Some (JArray (map JString (all_images m))) else None)
          else obj_get m k)"
    using normalized_request [OF n assms(2)] by blast
  have get: "obj_get m1 k = (if image_field m = Some k then Some (JArray (map JString (all_images m))) else None)"
    if "k \<in> set IMAGE_FIELD_ALIASES" for k
    using get' [THEN spec, of k] that by (auto simp: IMAGE_FIELD_ALIASES_def)
  show ?thesis
  proof (cases "is_tianyue U base_url")
    case False
    then have "out = norm" using assms(1) n by (simp add: normalize_request_body_for_upstream_def)
    with False n m(1,2) show ?thesis by auto
  next
    case True
    let ?s = "sized_model m1"
    have d: "distinct (map fst ?s)"
      using m(3) by (auto simp: sized_model_def distinct_obj_insert split: option.splits)
    have g: "k \<in> set IMAGE_FIELD_ALIASES \<Longrightarrow> obj_get ?s k = obj_get m1 k" for k
      by (auto simp: sized_model_def IMAGE_FIELD_ALIASES_def split: option.splits)
    have out: "out = JObject (move_to_images ''reference_images'' (move_to_images ''image'' ?s))"
      using assms(1) n m(2) True by (simp add: normalize_request_body_for_upstream_def)
    let ?v = "JArray (map JString (all_images m))"
    have al: "''image'' \<in> set IMAGE_FIELD_ALIASES" "''images'' \<in> set IMAGE_FIELD_ALIASES"
      "''reference_images'' \<in> set IMAGE_FIELD_ALIASES" by (simp_all add: IMAGE_FIELD_ALIASES_def)
    have s: "obj_get ?s ''image'' = (if image_field m = Some ''image'' then Some ?v else None)"
      "obj_get ?s ''images'' = (if image_field m = Some ''images'' then Some ?v else None)"
      "obj_get ?s ''reference_images'' = (if image_field m = Some ''reference_images'' then Some ?v else None)"
      by (simp_all only: g [OF al(1)] g [OF al(2)] g [OF al(3)] get [OF al(1)] get [OF al(2)] get [OF al(3)])
    have "image_field m \<in> {None, Some ''image'', Some ''images'', Some ''reference_images''}"
      by (simp add: image_field_def IMAGE_FIELD_ALIASES_def)
    then consider "image_field m = None" | "image_field m = Some ''image''" | "image_field m = Some ''images''"
      | "image_field m = Some ''reference_images''"
      by (elim insertE emptyE)
    then have "obj_get (move_to_images ''reference_images'' (move_to_images ''image'' ?s)) ''image'' = None
      \<and> obj_get (move_to_images ''reference_images'' (move_to_images ''image'' ?s)) ''reference_images'' = None
      \<and> obj_get (move_to_images ''reference_images'' (move_to_images ''image'' ?s)) ''images''
          = (if image_field m = None then None else Some ?v)"
      using d s by cases (simp_all add: move_to_images_def obj_get_remove)
    with m(1) out True show ?thesis by (intro exI) simp
  qed
qed

lemma upstream_image_field_witness:
  "\<exists>m'. normalize_request_body_for_upstream sample_url
       (JObject [(''image'', JArray [JString ''http://a.example/x''])]) False ''https://api.tianyue.xyz/v1'' = Ok (JObject m')
     \<and> obj_get m' ''images'' = Some (JArray [JString ''http://a.example/x'']) \<and> obj_get m' ''image'' = None"
proof -
  let ?m = "[(''image'', JArray [JString ''http://a.example/x''])]"
  have "validate_reference_image_url sample_url ''http://a.example/x'' = Ok ()" and t: "is_tianyue sample_url ''https://api.tianyue.xyz/v1''"
    by (simp_all add: validate_reference_image_url_def sample_url_def sample_url_parse_def split_opt_def is_tianyue_def parse_ok_def
        is_http_scheme_def host_or_empty_def to_lower_def lower_char_def trim_plain plain_char_def bval_def)
  then obtain out where out: "normalize_request_body_for_upstream sample_url (JObject ?m) False ''https://api.tianyue.xyz/v1'' = Ok out"
    by (simp add: normalize_request_body_for_upstream_def normalize_request_body_def collect_reference_images_def
        IMAGE_FIELD_ALIASES_def obj_has_def reference_image_def)
  have wf: "json_wf (JObject ?m)" by (simp add: u64_max_def)
  have "image_field ?m = Some ''image''" "all_images ?m = [''http://a.example/x'']"
    by (simp_all add: image_field_def IMAGE_FIELD_ALIASES_def obj_has_def all_images_def listed_images_def)
  with upstream_image_field [OF out wf] out t show ?thesis by auto
qed

end
