(* ===== verification/Proxy_Errors.thy ===== *)
theory Proxy_Errors
  imports Fetch_Service
begin

text \<open>
  The error half of \<^verbatim>\<open>src/http/router.rs\<close>: the answers the proxy gives itself, their JSON bodies,
  and how an error of the HTTP client is turned into one of them. An answer is a value of
  \<open>http_answer\<close>; its last component is the response extension \<^verbatim>\<open>OriginalUpstreamStatus\<close>.
\<close>

record http_answer =
  an_status :: status
  an_headers :: "(string \<times> string) list"
  an_body :: string
  an_upstream_status :: "status option"

abbreviation "CONTENT_TYPE \<equiv> ''content-type''"
abbreviation "APPLICATION_JSON \<equiv> ''application/json''"

text \<open>
  \<^verbatim>\<open>(status, Json(value)).into_response()\<close>. Serializing a \<^verbatim>\<open>Value\<close> does not fail; axum would send
  the text of the error.
\<close>

definition json_answer :: "serde \<Rightarrow> status \<Rightarrow> json \<Rightarrow> http_answer" where
  "json_answer S status v =
     \<lparr>an_status = status, an_headers = [(CONTENT_TYPE, APPLICATION_JSON)],
      an_body = (case to_vec S v of Ok b \<Rightarrow> b | Err e \<Rightarrow> e), an_upstream_status = None\<rparr>"

text \<open>The short form \<^verbatim>\<open>{"error": {"code", "message"}}\<close> most handlers write in place.\<close>

definition error_answer :: "serde \<Rightarrow> status \<Rightarrow> string \<Rightarrow> http_answer" where
  "error_answer S status message = json_answer S status (error_json status message)"

text \<open>\<^verbatim>\<open>StatusCode::into_response\<close>.\<close>

definition status_answer :: "status \<Rightarrow> http_answer" where
  "status_answer status = \<lparr>an_status = status, an_headers = [], an_body = [], an_upstream_status = None\<rparr>"

section \<open>What the client is told\<close>

definition contains_cjk :: "string \<Rightarrow> bool" where
  "contains_cjk s \<longleftrightarrow> (\<exists>ch \<in> set (utf8_chars s). 0x4E00 \<le> ch \<and> ch \<le> 0x9FFF)"

definition downstream_anyhow_message :: "fmt_api \<Rightarrow> anyhow \<Rightarrow> string" where
  "downstream_anyhow_message F err =
     (let message = anyhow_text F err in
      if contains_cjk message then message else MSG_PROXY_INTERNAL_ERROR)"

definition proxy_error_json :: "nat \<Rightarrow> string \<Rightarrow> string \<Rightarrow> string \<Rightarrow> string \<Rightarrow> json" where
  "proxy_error_json code message source stage kind =
     JObject [(''error'', JObject
       [(''code'', jnat code), (''message'', JString message), (''source'', JString source),
        (''stage'', JString stage), (''kind'', JString kind)])]"

definition proxy_error_response :: "serde \<Rightarrow> status \<Rightarrow> string \<Rightarrow> string \<Rightarrow> string \<Rightarrow> http_answer" where
  "proxy_error_response S status message stage kind =
     json_answer S status (proxy_error_json status message ''proxy'' stage kind)"

definition openai_upstream_error_response :: "serde \<Rightarrow> status \<Rightarrow> string \<Rightarrow> string \<Rightarrow> string \<Rightarrow> http_answer" where
  "openai_upstream_error_response S status message stage kind =
     (let code = (if kind = ''upstream_auth_failed'' then ''auth_error''
                  else ''upstream_http_'' @ show_nat status)
      in json_answer S status (JObject [(''error'', JObject
           [(''code'', JString code), (''message'', JString message), (''type'', JString ''banana_error''),
            (''param'', JNull), (''source'', JString ''proxy''), (''stage'', JString stage),
            (''kind'', JString kind)])]))"

text \<open>
  Reading the body of a request fails with an error whose chain of sources may hold the
  \<^verbatim>\<open>LengthLimitError\<close> of the body limit.
\<close>

record body_read_error =
  bd_length_limit :: bool
  bd_text :: string

definition request_body_read_error_response :: "body_read_error \<Rightarrow> status \<times> string \<times> string" where
  "request_body_read_error_response err =
     (if bd_length_limit err
      then (PAYLOAD_TOO_LARGE, MSG_REQUEST_BODY_TOO_LARGE, ''request_body_too_large'')
      else (BAD_GATEWAY, MSG_READ_REQUEST_BODY_FAILED, ''request_body_read_failed''))"

definition invalid_json_response :: "serde \<Rightarrow> http_answer" where
  "invalid_json_response S =
     proxy_error_response S BAD_REQUEST MSG_INVALID_REQUEST_JSON ''parse_request_json'' ''invalid_json''"

section \<open>Errors of the HTTP client\<close>

record reqwest_proxy_error_class =
  pc_message :: string
  pc_kind :: string

definition reqwest_error_detail :: "reqwest_error \<Rightarrow> string" where
  "reqwest_error_detail err = error_text err @ concat (map (\<lambda>e. '': '' @ e) (error_sources err))"

definition classify_reqwest_connect_error_detail :: "string \<Rightarrow> reqwest_proxy_error_class option" where
  "classify_reqwest_connect_error_detail detail =
     (let lower = to_lower detail in
      if contains_str lower ''dns error''
         \<or> contains_str lower ''failed to lookup address information''
         \<or> contains_str lower ''name or service not known''
         \<or> contains_str lower ''temporary failure in name resolution''
         \<or> contains_str lower ''nodename nor servname provided''
         \<or> contains_str lower ''no such host''
      then Some \<lparr>pc_message = MSG_UPSTREAM_DNS_FAILED, pc_kind = ''upstream_dns_failed''\<rparr>
      else if contains_str lower ''connection refused'' \<or> contains_str lower ''actively refused''
         \<or> contains_str lower ''os error 111''
      then Some \<lparr>pc_message = MSG_UPSTREAM_CONNECTION_REFUSED, pc_kind = ''upstream_connection_refused''\<rparr>
      else if contains_str lower ''timed out'' \<or> contains_str lower ''operation timed out''
      then Some \<lparr>pc_message = MSG_UPSTREAM_CONNECT_TIMEOUT, pc_kind = ''upstream_connect_timeout''\<rparr>
      else if contains_str lower ''tls'' \<or> contains_str lower ''certificate''
         \<or> contains_str lower ''invalid peer certificate''
      then Some \<lparr>pc_message = MSG_UPSTREAM_TLS_FAILED, pc_kind = ''upstream_tls_failed''\<rparr>
      else None)"

definition classify_reqwest_proxy_error :: "reqwest_error \<Rightarrow> reqwest_proxy_error_class" where
  "classify_reqwest_proxy_error err =
     (if is_connect err then
        (case classify_reqwest_connect_error_detail (reqwest_error_detail err) of
           Some class \<Rightarrow> class
         | None \<Rightarrow>
             if is_timeout err
             then \<lparr>pc_message = MSG_UPSTREAM_CONNECT_TIMEOUT, pc_kind = ''upstream_connect_timeout''\<rparr>
             else \<lparr>pc_message = MSG_UPSTREAM_CONNECT_FAILED, pc_kind = ''upstream_connect_failed''\<rparr>)
      else if is_timeout err then \<lparr>pc_message = MSG_UPSTREAM_TIMEOUT, pc_kind = ''upstream_timeout''\<rparr>
      else if is_body err
      then \<lparr>pc_message = MSG_UPSTREAM_REQUEST_BODY_FAILED, pc_kind = ''upstream_request_body_failed''\<rparr>
      else if is_request err
      then \<lparr>pc_message = MSG_UPSTREAM_REQUEST_FAILED, pc_kind = ''upstream_request_failed''\<rparr>
      else \<lparr>pc_message = MSG_UPSTREAM_TRANSPORT_ERROR, pc_kind = ''upstream_transport_error''\<rparr>)"

definition classify_reqwest_proxy_message :: "reqwest_error \<Rightarrow> string" where
  "classify_reqwest_proxy_message err = pc_message (classify_reqwest_proxy_error err)"

definition classify_standard_proxy_error_detail :: "anyhow \<Rightarrow> structured_error option" where
  "classify_standard_proxy_error_detail err =
     (case err of
        StructuredProxyError structured \<Rightarrow> Some structured
      | ReqwestError reqwest \<Rightarrow>
          (let class = classify_reqwest_proxy_error reqwest in
           Some \<lparr>se_message = pc_message class, se_stage = ''send_upstream_request'', se_kind = pc_kind class,
                 se_detail = reqwest_error_detail reqwest\<rparr>)
      | _ \<Rightarrow> None)"

definition classify_standard_proxy_error :: "anyhow \<Rightarrow> json option" where
  "classify_standard_proxy_error err =
     map_option (\<lambda>s. proxy_error_json 502 (se_message s) ''proxy'' (se_stage s) (se_kind s))
       (classify_standard_proxy_error_detail err)"

definition build_structured_proxy_error_response :: "serde \<Rightarrow> structured_error \<Rightarrow> http_answer" where
  "build_structured_proxy_error_response S structured =
     proxy_error_response S BAD_GATEWAY (se_message structured) (se_stage structured) (se_kind structured)"

text \<open>The answer both handlers give for a failed forward.\<close>

definition forward_failure_response :: "serde \<Rightarrow> anyhow \<Rightarrow> http_answer" where
  "forward_failure_response S err =
     (case classify_standard_proxy_error_detail err of
        Some structured \<Rightarrow> build_structured_proxy_error_response S structured
      | None \<Rightarrow>
          (case classify_standard_proxy_error err of
             Some structured_error \<Rightarrow> json_answer S BAD_GATEWAY structured_error
           | None \<Rightarrow> error_answer S BAD_GATEWAY MSG_PROXY_INTERNAL_ERROR))"

section \<open>The answers to the upstream's client are fixed texts\<close>

definition upstream_error_messages :: "string set" where
  "upstream_error_messages =
     {MSG_UPSTREAM_CONNECT_TIMEOUT, MSG_UPSTREAM_CONNECT_FAILED, MSG_UPSTREAM_DNS_FAILED,
      MSG_UPSTREAM_CONNECTION_REFUSED, MSG_UPSTREAM_TLS_FAILED, MSG_UPSTREAM_TIMEOUT,
      MSG_UPSTREAM_REQUEST_BODY_FAILED, MSG_UPSTREAM_REQUEST_FAILED, MSG_UPSTREAM_TRANSPORT_ERROR}"

lemma connect_class_message:
  "classify_reqwest_connect_error_detail d = Some c \<Longrightarrow> pc_message c \<in> upstream_error_messages"
  by (auto simp: classify_reqwest_connect_error_detail_def upstream_error_messages_def Let_def split: if_splits)

lemma reqwest_class_message: "pc_message (classify_reqwest_proxy_error err) \<in> upstream_error_messages"
proof (cases "is_connect err")
  case True
  show ?thesis
  proof (cases "classify_reqwest_connect_error_detail (reqwest_error_detail err)")
    case (Some c)
    with True connect_class_message show ?thesis by (simp add: classify_reqwest_proxy_error_def)
  qed (use True in \<open>simp add: classify_reqwest_proxy_error_def upstream_error_messages_def\<close>)
qed (simp add: classify_reqwest_proxy_error_def upstream_error_messages_def)

text \<open>An unstructured error, whatever its text, only shows as an internal error.\<close>

lemma forward_failure_cases:
  "forward_failure_response S err =
     (case err of
        StructuredProxyError s \<Rightarrow>
          proxy_error_response S BAD_GATEWAY (se_message s) (se_stage s) (se_kind s)
      | ReqwestError r \<Rightarrow>
          proxy_error_response S BAD_GATEWAY (pc_message (classify_reqwest_proxy_error r))
            ''send_upstream_request'' (pc_kind (classify_reqwest_proxy_error r))
      | _ \<Rightarrow> error_answer S BAD_GATEWAY MSG_PROXY_INTERNAL_ERROR)"
  by (simp add: forward_failure_response_def classify_standard_proxy_error_detail_def
      classify_standard_proxy_error_def build_structured_proxy_error_response_def Let_def split: anyhow.split)

end
