(* ===== verification/Log_Sanitize.thy ===== *)
theory Log_Sanitize
  imports Proxy_Errors Response_Materialize
begin

text \<open>
  The part of \<^verbatim>\<open>src/admin.rs\<close> that prepares a request or answer body for the log: inline images
  are replaced by a placeholder, the URLs of images are collected, and the text is cut to 64 KiB.
\<close>

definition ADMIN_MAX_BODY_BYTES_PER_ENTRY :: nat where
  "ADMIN_MAX_BODY_BYTES_PER_ENTRY = 64 * 1024"

record sanitized_admin_log =
  sl_pretty :: string
  sl_image_urls :: "string list"

section \<open>Cleaning a body for the log\<close>

definition is_image_url :: "string \<Rightarrow> bool" where
  "is_image_url value \<longleftrightarrow>
     starts_with value ''http://'' \<or> starts_with value ''https://'' \<or> starts_with value ''/proxy/image''"

text \<open>
  The loop over \<^verbatim>\<open>char_indices\<close>, whose positions are the bytes that start a character: \<open>index\<close>
  is the position of the rest, \<open>boundary\<close> the last position seen that is not beyond \<open>max_bytes\<close>.
\<close>

fun last_boundary :: "nat \<Rightarrow> string \<Rightarrow> nat \<Rightarrow> nat \<Rightarrow> nat" where
  "last_boundary max_bytes [] index boundary = boundary"
| "last_boundary max_bytes (c # s) index boundary =
     (if is_char_start c
      then (if max_bytes < index then boundary else last_boundary max_bytes s (index + 1) index)
      else last_boundary max_bytes s (index + 1) boundary)"

definition TRUNCATED_MARK :: string where
  "TRUNCATED_MARK = CHR 0x0A # ''...[truncated]''"

definition truncate_for_admin_log :: "string \<Rightarrow> nat \<Rightarrow> string" where
  "truncate_for_admin_log input max_bytes =
     (if length input \<le> max_bytes then input
      else take (last_boundary max_bytes input 0 0) input @ TRUNCATED_MARK)"

text \<open>
  \<^verbatim>\<open>push_image_url\<close>. A URL enters \<^verbatim>\<open>seen\<close> exactly when it enters \<^verbatim>\<open>urls\<close>, so the list alone
  is the state.
\<close>

definition push_image_url :: "string \<Rightarrow> string list \<Rightarrow> string list" where
  "push_image_url raw urls =
     (let trimmed_url = trim raw in
      if is_image_url trimmed_url \<and> trimmed_url \<notin> set urls then urls @ [trimmed_url] else urls)"

definition push_data_urls :: "json \<Rightarrow> string list \<Rightarrow> string list" where
  "push_data_urls root urls =
     (case Option.bind (jget ''data'' root) as_array of
        None \<Rightarrow> urls
      | Some items \<Rightarrow>
          foldl (\<lambda>urls item. case jget_str ''url'' item of None \<Rightarrow> urls | Some url \<Rightarrow> push_image_url url urls)
            urls items)"

definition push_typed_image :: "jobject \<Rightarrow> string list \<Rightarrow> string list" where
  "push_typed_image m urls =
     (case Option.bind (obj_get m ''type'') as_str of
        None \<Rightarrow> urls
      | Some kind \<Rightarrow>
          if eq_ignore_case kind ''image''
          then (case obj_get m ''url'' of Some (JString url) \<Rightarrow> push_image_url url urls | _ \<Rightarrow> urls)
          else urls)"

fun collect_explicit_url_image_items :: "json \<Rightarrow> string list \<Rightarrow> string list"
and collect_explicit_fields :: "jobject \<Rightarrow> string list \<Rightarrow> string list"
and collect_explicit_items :: "json list \<Rightarrow> string list \<Rightarrow> string list" where
  "collect_explicit_url_image_items (JObject m) urls = collect_explicit_fields m (push_typed_image m urls)"
| "collect_explicit_url_image_items (JArray items) urls = collect_explicit_items items urls"
| "collect_explicit_url_image_items _ urls = urls"
| "collect_explicit_fields [] urls = urls"
| "collect_explicit_fields ((_, child) # m) urls =
     collect_explicit_fields m (collect_explicit_url_image_items child urls)"
| "collect_explicit_items [] urls = urls"
| "collect_explicit_items (child # items) urls =
     collect_explicit_items items (collect_explicit_url_image_items child urls)"

definition placeholder :: "nat \<Rightarrow> string" where
  "placeholder len = ''[base64 omitted len='' @ show_nat len @ '']''"

text \<open>The payload an object has under one of the two keys.\<close>

definition inline_member :: "string \<Rightarrow> jobject \<Rightarrow> (jobject \<times> string) option" where
  "inline_member key m =
     (case obj_get m key of
        Some (JObject inline) \<Rightarrow>
          (case obj_get inline ''data'' of Some (JString data) \<Rightarrow> Some (inline, data) | _ \<Rightarrow> None)
      | _ \<Rightarrow> None)"

text \<open>One turn of the loop over the two keys: the member of the object, and the URLs.\<close>

definition redact_member :: "string \<Rightarrow> jobject \<Rightarrow> jobject" where
  "redact_member key m =
     (case inline_member key m of
        None \<Rightarrow> m
      | Some (inline, data) \<Rightarrow>
          (let trimmed_data = trim data in
           if is_image_url trimmed_data then m
           else if trimmed_data \<noteq> []
           then obj_insert key (JObject (obj_insert ''data'' (JString (placeholder (length data))) inline)) m
           else m))"

definition push_member :: "string \<Rightarrow> jobject \<Rightarrow> string list \<Rightarrow> string list" where
  "push_member key m urls =
     (case inline_member key m of None \<Rightarrow> urls | Some (_, data) \<Rightarrow> push_image_url data urls)"

definition push_file_uri :: "jobject \<Rightarrow> string list \<Rightarrow> string list" where
  "push_file_uri m urls =
     (case obj_get m ''file_data'' of
        Some (JObject file_data) \<Rightarrow>
          (case obj_get file_data ''file_uri'' of
             Some (JString file_uri) \<Rightarrow> push_image_url file_uri urls
           | _ \<Rightarrow> urls)
      | _ \<Rightarrow> urls)"

text \<open>
  The walk that replaces payloads and collects URLs. The URLs of an object come before those of its
  members. Replacing a payload changes one string below the object, which the walk of the members
  neither reads nor changes, so it is done here once the members are walked.
\<close>

fun redact_walk :: "json \<Rightarrow> string list \<Rightarrow> json \<times> string list"
and redact_fields :: "jobject \<Rightarrow> string list \<Rightarrow> jobject \<times> string list"
and redact_items :: "json list \<Rightarrow> string list \<Rightarrow> json list \<times> string list" where
  "redact_walk (JObject m) urls =
     (let urls = push_member ''inlineData'' m urls;
          urls = push_member ''inline_data'' m urls;
          urls = push_file_uri m urls;
          (m, urls) = redact_fields m urls
      in (JObject (redact_member ''inline_data'' (redact_member ''inlineData'' m)), urls))"
| "redact_walk (JArray items) urls = (let (items, urls) = redact_items items urls in (JArray items, urls))"
| "redact_walk v urls = (v, urls)"
| "redact_fields [] urls = ([], urls)"
| "redact_fields ((k, child) # m) urls =
     (let (child, urls) = redact_walk child urls; (m, urls) = redact_fields m urls in ((k, child) # m, urls))"
| "redact_items [] urls = ([], urls)"
| "redact_items (child # items) urls =
     (let (child, urls) = redact_walk child urls; (items, urls) = redact_items items urls
      in (child # items, urls))"

definition redact_inline_data_and_collect_image_urls :: "json \<Rightarrow> json \<times> string list" where
  "redact_inline_data_and_collect_image_urls root =
     redact_walk root (collect_explicit_url_image_items root (push_data_urls root []))"

definition sanitize_json_for_log :: "serde \<Rightarrow> string \<Rightarrow> sanitized_admin_log" where
  "sanitize_json_for_log S raw =
     (if raw = [] then \<lparr>sl_pretty = [], sl_image_urls = []\<rparr>
      else
        (case from_slice S raw of
           Err _ \<Rightarrow>
             \<lparr>sl_pretty = truncate_for_admin_log (utf8_lossy raw) ADMIN_MAX_BODY_BYTES_PER_ENTRY,
              sl_image_urls = []\<rparr>
         | Ok root \<Rightarrow>
             (let (root, image_urls) = redact_inline_data_and_collect_image_urls root;
                  pretty = (case to_string_pretty S root of
                      Ok s \<Rightarrow> truncate_for_admin_log s ADMIN_MAX_BODY_BYTES_PER_ENTRY
                    | Err _ \<Rightarrow> truncate_for_admin_log (utf8_lossy raw) ADMIN_MAX_BODY_BYTES_PER_ENTRY)
              in \<lparr>sl_pretty = pretty, sl_image_urls = image_urls\<rparr>)))"

definition maybe_sanitize_json_for_log :: "serde \<Rightarrow> string \<Rightarrow> bool \<Rightarrow> sanitized_admin_log option" where
  "maybe_sanitize_json_for_log S raw enabled = (if enabled then Some (sanitize_json_for_log S raw) else None)"

section \<open>A logged body shows no image\<close>

abbreviation "INLINE_KEYS \<equiv> [''inlineData'', ''inline_data'']"

definition payload_logged :: "string \<Rightarrow> jobject \<Rightarrow> bool" where
  "payload_logged key m =
     (case inline_member key m of
        None \<Rightarrow> True
      | Some (_, data) \<Rightarrow>
          is_image_url (trim data) \<or> blank data \<or> starts_with data ''[base64 omitted len='')"

text \<open>No payload but URLs, blanks and the placeholder, in no object of the value.\<close>

fun redacted :: "json \<Rightarrow> bool"
and fields_redacted :: "jobject \<Rightarrow> bool"
and items_redacted :: "json list \<Rightarrow> bool" where
  "redacted (JObject m) \<longleftrightarrow> list_all (\<lambda>key. payload_logged key m) INLINE_KEYS \<and> fields_redacted m"
| "redacted (JArray xs) \<longleftrightarrow> items_redacted xs"
| "redacted _ \<longleftrightarrow> True"
| "fields_redacted [] \<longleftrightarrow> True"
| "fields_redacted ((_, v) # m) \<longleftrightarrow> redacted v \<and> fields_redacted m"
| "items_redacted [] \<longleftrightarrow> True"
| "items_redacted (x # xs) \<longleftrightarrow> redacted x \<and> items_redacted xs"

text \<open>The value with every such payload made empty: what the log may not change.\<close>

definition erase_member :: "string \<Rightarrow> jobject \<Rightarrow> jobject" where
  "erase_member key m =
     (case inline_member key m of
        None \<Rightarrow> m
      | Some (inline, _) \<Rightarrow> obj_insert key (JObject (obj_insert ''data'' (JString []) inline)) m)"

fun erased :: "json \<Rightarrow> json"
and erased_fields :: "jobject \<Rightarrow> jobject"
and erased_items :: "json list \<Rightarrow> json list" where
  "erased (JObject m) = JObject (erase_member ''inline_data'' (erase_member ''inlineData'' (erased_fields m)))"
| "erased (JArray xs) = JArray (erased_items xs)"
| "erased v = v"
| "erased_fields [] = []"
| "erased_fields ((k, v) # m) = (k, erased v) # erased_fields m"
| "erased_items [] = []"
| "erased_items (x # xs) = erased x # erased_items xs"

text \<open>The URLs the log lists.\<close>

definition url_of :: "string \<Rightarrow> string set" where
  "url_of raw = (if is_image_url (trim raw) then {trim raw} else {})"

definition typed_url :: "jobject \<Rightarrow> string set" where
  "typed_url m =
     (case (Option.bind (obj_get m ''type'') as_str, obj_get m ''url'') of
        (Some kind, Some (JString url)) \<Rightarrow> if eq_ignore_case kind ''image'' then url_of url else {}
      | _ \<Rightarrow> {})"

definition member_urls :: "jobject \<Rightarrow> string set" where
  "member_urls m =
     (\<Union>key \<in> set INLINE_KEYS. case inline_member key m of None \<Rightarrow> {} | Some (_, data) \<Rightarrow> url_of data)
     \<union> (case obj_get m ''file_data'' of
          Some (JObject file_data) \<Rightarrow>
            (case obj_get file_data ''file_uri'' of Some (JString uri) \<Rightarrow> url_of uri | _ \<Rightarrow> {})
        | _ \<Rightarrow> {})"

fun urls_in :: "(jobject \<Rightarrow> string set) \<Rightarrow> json \<Rightarrow> string set"
and urls_in_fields :: "(jobject \<Rightarrow> string set) \<Rightarrow> jobject \<Rightarrow> string set"
and urls_in_items :: "(jobject \<Rightarrow> string set) \<Rightarrow> json list \<Rightarrow> string set" where
  "urls_in f (JObject m) = f m \<union> urls_in_fields f m"
| "urls_in f (JArray xs) = urls_in_items f xs"
| "urls_in f _ = {}"
| "urls_in_fields f [] = {}"
| "urls_in_fields f ((_, v) # m) = urls_in f v \<union> urls_in_fields f m"
| "urls_in_items f [] = {}"
| "urls_in_items f (x # xs) = urls_in f x \<union> urls_in_items f xs"

definition data_urls :: "json \<Rightarrow> string set" where
  "data_urls root =
     (case Option.bind (jget ''data'' root) as_array of
        None \<Rightarrow> {}
      | Some items \<Rightarrow> \<Union> (url_of ` set (filter_map (jget_str ''url'') items)))"

definition shown_urls :: "json \<Rightarrow> string set" where
  "shown_urls root = data_urls root \<union> urls_in typed_url root \<union> urls_in member_urls root"

subsection \<open>URLs\<close>

lemma set_push [simp]: "set (push_image_url raw urls) = set urls \<union> url_of raw"
  by (auto simp: push_image_url_def url_of_def Let_def)

lemma distinct_push [simp]: "distinct urls \<Longrightarrow> distinct (push_image_url raw urls)"
  by (simp add: push_image_url_def Let_def)

lemma push_data_urls_set:
  "set (push_data_urls root urls) = set urls \<union> data_urls root
   \<and> (distinct urls \<longrightarrow> distinct (push_data_urls root urls))"
proof -
  have "set (foldl (\<lambda>urls item. case jget_str ''url'' item of None \<Rightarrow> urls | Some url \<Rightarrow> push_image_url url urls) urls items)
      = set urls \<union> \<Union> (url_of ` set (filter_map (jget_str ''url'') items))
    \<and> (distinct urls \<longrightarrow> distinct (foldl (\<lambda>urls item. case jget_str ''url'' item of None \<Rightarrow> urls
         | Some url \<Rightarrow> push_image_url url urls) urls items))" for items
    by (induction items arbitrary: urls) (auto split: option.splits)
  then show ?thesis by (simp add: push_data_urls_def data_urls_def split: option.splits)
qed

lemma push_typed_set:
  "set (push_typed_image m urls) = set urls \<union> typed_url m"
  "distinct urls \<Longrightarrow> distinct (push_typed_image m urls)"
  by (auto simp: push_typed_image_def typed_url_def split: option.splits json.splits)

lemma collect_explicit_set:
  "set (collect_explicit_url_image_items v urls) = set urls \<union> urls_in typed_url v"
  "set (collect_explicit_fields m urls) = set urls \<union> urls_in_fields typed_url m"
  "set (collect_explicit_items xs urls) = set urls \<union> urls_in_items typed_url xs"
  by (induction v urls and m urls and xs urls
      rule: collect_explicit_url_image_items_collect_explicit_fields_collect_explicit_items.induct)
    (auto simp: push_typed_set(1))

lemma collect_explicit_distinct:
  "distinct urls \<Longrightarrow> distinct (collect_explicit_url_image_items v urls)"
  "distinct urls \<Longrightarrow> distinct (collect_explicit_fields m urls)"
  "distinct urls \<Longrightarrow> distinct (collect_explicit_items xs urls)"
  by (induction v urls and m urls and xs urls
      rule: collect_explicit_url_image_items_collect_explicit_fields_collect_explicit_items.induct)
    (auto simp: push_typed_set(2))

definition push_members :: "jobject \<Rightarrow> string list \<Rightarrow> string list" where
  "push_members m urls = push_file_uri m (push_member ''inline_data'' m (push_member ''inlineData'' m urls))"

lemma push_members_set:
  "set (push_members m urls) = set urls \<union> member_urls m"
  "distinct urls \<Longrightarrow> distinct (push_members m urls)"
proof -
  have p: "set (push_member key m urls) = set urls \<union> (case inline_member key m of None \<Rightarrow> {} | Some (_, data) \<Rightarrow> url_of data)"
    "distinct urls \<Longrightarrow> distinct (push_member key m urls)" for key urls
    by (auto simp: push_member_def split: option.splits)
  have f: "set (push_file_uri m urls) = set urls \<union> (case obj_get m ''file_data'' of
          Some (JObject file_data) \<Rightarrow>
            (case obj_get file_data ''file_uri'' of Some (JString uri) \<Rightarrow> url_of uri | _ \<Rightarrow> {})
        | _ \<Rightarrow> {})" "distinct urls \<Longrightarrow> distinct (push_file_uri m urls)" for urls
    by (auto simp: push_file_uri_def split: option.splits json.splits)
  show "set (push_members m urls) = set urls \<union> member_urls m"
    by (simp add: push_members_def member_urls_def p(1) f(1) Un_assoc)
  show "distinct urls \<Longrightarrow> distinct (push_members m urls)"
    by (simp add: push_members_def p(2) f(2))
qed

lemma redact_walk_object:
  "redact_walk (JObject m) urls =
     (let (m, urls) = redact_fields m (push_members m urls)
      in (JObject (redact_member ''inline_data'' (redact_member ''inlineData'' m)), urls))"
  by (simp add: push_members_def Let_def)

text \<open>The walk of a value: the new value does not depend on the URLs found before.\<close>

lemma redact_walk_urls:
  "set (snd (redact_walk v urls)) = set urls \<union> urls_in member_urls v
   \<and> (distinct urls \<longrightarrow> distinct (snd (redact_walk v urls)))"
proof (induction v arbitrary: urls rule: json_induct)
  case (JArray xs)
  then have "\<forall>x \<in> set xs. \<forall>urls. set (snd (redact_walk x urls)) = set urls \<union> urls_in member_urls x
      \<and> (distinct urls \<longrightarrow> distinct (snd (redact_walk x urls)))" by blast
  then have "set (snd (redact_items xs urls)) = set urls \<union> urls_in_items member_urls xs
      \<and> (distinct urls \<longrightarrow> distinct (snd (redact_items xs urls)))" for urls
    by (induction xs arbitrary: urls) (simp_all add: case_prod_beta Let_def Un_assoc)
  then show ?case by (simp add: case_prod_beta Let_def)
next
  case (JObject m)
  then have "\<forall>(k, x) \<in> set m. \<forall>urls. set (snd (redact_walk x urls)) = set urls \<union> urls_in member_urls x
      \<and> (distinct urls \<longrightarrow> distinct (snd (redact_walk x urls)))" by blast
  then have "set (snd (redact_fields m urls)) = set urls \<union> urls_in_fields member_urls m
      \<and> (distinct urls \<longrightarrow> distinct (snd (redact_fields m urls)))" for urls
    by (induction m arbitrary: urls) (auto simp: case_prod_beta Let_def)
  then show ?case
    by (simp only: redact_walk_object) (simp add: case_prod_beta Let_def push_members_set Un_assoc)
qed simp_all

fun red :: "json \<Rightarrow> json"
and red_fields :: "jobject \<Rightarrow> jobject"
and red_items :: "json list \<Rightarrow> json list" where
  "red (JObject m) = JObject (redact_member ''inline_data'' (redact_member ''inlineData'' (red_fields m)))"
| "red (JArray xs) = JArray (red_items xs)"
| "red v = v"
| "red_fields [] = []"
| "red_fields ((k, v) # m) = (k, red v) # red_fields m"
| "red_items [] = []"
| "red_items (x # xs) = red x # red_items xs"

lemma redact_walk_fst: "fst (redact_walk v urls) = red v"
  "fst (redact_fields m urls) = red_fields m"
  "fst (redact_items xs urls) = red_items xs"
  by (induction v and m and xs arbitrary: urls and urls and urls rule: red_red_fields_red_items.induct)
    (simp_all add: case_prod_beta Let_def)

lemma get_red_fields: "obj_get (red_fields m) k = map_option red (obj_get m k)"
  by (induction m) auto

lemma get_erased_fields: "obj_get (erased_fields m) k = map_option erased (obj_get m k)"
  by (induction m) auto

lemma erased_fields_insert: "erased_fields (obj_insert k v m) = obj_insert k (erased v) (erased_fields m)"
  by (induction m) auto

lemma fields_redacted_iff: "fields_redacted m \<longleftrightarrow> (\<forall>(k, v) \<in> set m. redacted v)"
  by (induction m) auto

lemma fields_redacted_insert: "fields_redacted m \<Longrightarrow> redacted v \<Longrightarrow> fields_redacted (obj_insert k v m)"
  using set_obj_insert [of k v m] by (force simp: fields_redacted_iff)

lemma fields_redacted_get: "fields_redacted m \<Longrightarrow> obj_get m k = Some v \<Longrightarrow> redacted v"
  by (auto simp: fields_redacted_iff dest!: map_of_SomeD)

lemma inline_member_Some_iff:
  "inline_member key m = Some (inline, data)
   \<longleftrightarrow> obj_get m key = Some (JObject inline) \<and> obj_get inline ''data'' = Some (JString data)"
  by (auto simp: inline_member_def split: option.splits json.splits)

lemma inline_member_insert:
  "key \<noteq> k \<Longrightarrow> inline_member key (obj_insert k v m) = inline_member key m"
  "inline_member key (obj_insert key (JObject (obj_insert ''data'' (JString s) inline)) m)
     = Some (obj_insert ''data'' (JString s) inline, s)"
  by (simp_all add: inline_member_def)

lemma payload_logged_other:
  "key \<noteq> k \<Longrightarrow> payload_logged key (obj_insert k v m) \<longleftrightarrow> payload_logged key m"
  by (simp add: payload_logged_def inline_member_insert)

lemma placeholder_start: "starts_with (placeholder n) ''[base64 omitted len=''"
  by (simp add: placeholder_def starts_with_def)

lemma redact_member_redacted:
  assumes "fields_redacted m" "key \<in> set INLINE_KEYS"
  shows "fields_redacted (redact_member key m)" "payload_logged key (redact_member key m)"
    "key' \<in> set INLINE_KEYS \<Longrightarrow> payload_logged key' m \<Longrightarrow> payload_logged key' (redact_member key m)"
proof -
  have inner: "redacted (JObject (obj_insert ''data'' (JString s) inline))"
    if "inline_member key m = Some (inline, data)" for inline data s
  proof -
    have "obj_get m key = Some (JObject inline)" using that by (simp add: inline_member_Some_iff)
    with fields_redacted_get [OF assms(1)] have "redacted (JObject inline)" by blast
    then show ?thesis by (simp add: payload_logged_other fields_redacted_insert)
  qed
  show "fields_redacted (redact_member key m)"
    using assms(1) inner by (auto simp: redact_member_def Let_def intro!: fields_redacted_insert split: option.splits)
  show p: "payload_logged key (redact_member key m)"
    by (auto simp: redact_member_def payload_logged_def inline_member_insert placeholder_start blank_def Let_def
        split: option.splits)
  show "payload_logged key' (redact_member key m)" if "key' \<in> set INLINE_KEYS" "payload_logged key' m"
  proof (cases "key' = key")
    case False
    with that(2) show ?thesis by (auto simp: redact_member_def payload_logged_other Let_def split: option.splits)
  qed (use p in simp)
qed

lemma redacted_red: "redacted (red v)" "fields_redacted (red_fields m)" "items_redacted (red_items xs)"
proof (induction v and m and xs rule: red_red_fields_red_items.induct)
  case (1 m)
  let ?m1 = "redact_member ''inlineData'' (red_fields m)"
  have 1: "fields_redacted ?m1" "payload_logged ''inlineData'' ?m1"
    using 1 by (simp_all add: redact_member_redacted)
  then have "fields_redacted (redact_member ''inline_data'' ?m1)"
    "payload_logged ''inline_data'' (redact_member ''inline_data'' ?m1)"
    "payload_logged ''inlineData'' (redact_member ''inline_data'' ?m1)"
    by (simp_all add: redact_member_redacted)
  then show ?case by simp
qed simp_all

text \<open>Outside the payloads nothing changes.\<close>

definition erase_both :: "jobject \<Rightarrow> jobject" where
  "erase_both m = erase_member ''inline_data'' (erase_member ''inlineData'' m)"

lemma erased_object: "erased (JObject m) = JObject (erase_both (erased_fields m))"
  by (simp add: erase_both_def)

lemma erase_member_other:
  "key \<noteq> k \<Longrightarrow> obj_get (erase_member key m) k = obj_get m k"
  by (simp add: erase_member_def split: option.splits)

lemma erase_member_insert:
  assumes "key \<noteq> k" "obj_get m k \<noteq> None"
  shows "erase_member key (obj_insert k v m) = obj_insert k v (erase_member key m)"
proof (cases "inline_member key m")
  case (Some p)
  obtain inline data where p: "p = (inline, data)" by (cases p)
  then have "obj_get m key \<noteq> None" using Some by (simp add: inline_member_Some_iff)
  with Some p assms obj_insert_commute [of key k m] show ?thesis
    by (simp add: erase_member_def inline_member_insert)
qed (use assms in \<open>simp add: erase_member_def inline_member_insert\<close>)

lemma erase_both_data:
  "obj_get (erase_both m) ''data'' = obj_get m ''data''"
  "obj_get m ''data'' \<noteq> None \<Longrightarrow> erase_both (obj_insert ''data'' v m) = obj_insert ''data'' v (erase_both m)"
  by (simp_all add: erase_both_def erase_member_other erase_member_insert)

lemma erase_member_same:
  assumes "obj_get m key = Some (JObject w)" "obj_get w ''data'' = Some (JString d)"
  shows "erase_member key (obj_insert key (JObject (obj_insert ''data'' (JString s) w)) m) = erase_member key m"
  using assms by (simp add: erase_member_def inline_member_insert inline_member_def)

lemma erase_both_same:
  assumes "key \<in> set INLINE_KEYS" "obj_get m key = Some (JObject w)" "obj_get w ''data'' = Some (JString d)"
  shows "erase_both (obj_insert key (JObject (obj_insert ''data'' (JString s) w)) m) = erase_both m"
proof (cases "key = ''inlineData''")
  case True
  with erase_member_same [OF assms(2,3)] show ?thesis by (simp add: erase_both_def)
next
  case False
  with assms(1) have k: "key = ''inline_data''" by simp
  then have "obj_get (erase_member ''inlineData'' m) key = Some (JObject w)"
    using assms(2) by (simp add: erase_member_other)
  from erase_member_same [OF this assms(3)] k assms(2) show ?thesis
    by (simp add: erase_both_def erase_member_insert)
qed

lemma erase_redacted_member:
  assumes "key \<in> set INLINE_KEYS"
  shows "erase_both (erased_fields (redact_member key m)) = erase_both (erased_fields m)"
proof (cases "inline_member key m")
  case (Some p)
  obtain inline data where p: "p = (inline, data)" by (cases p)
  let ?w = "erase_both (erased_fields inline)"
  have i: "obj_get m key = Some (JObject inline)" "obj_get inline ''data'' = Some (JString data)"
    using Some p by (simp_all add: inline_member_Some_iff)
  have d: "obj_get (erased_fields inline) ''data'' = Some (JString data)" by (simp add: get_erased_fields i(2))
  have w: "obj_get (erased_fields m) key = Some (JObject ?w)" "obj_get ?w ''data'' = Some (JString data)"
    by (simp_all add: get_erased_fields i erased_object erase_both_data d del: erased.simps(1))
  have e: "erased (JObject (obj_insert ''data'' (JString s) inline)) = JObject (obj_insert ''data'' (JString s) ?w)" for s
    by (simp add: erased_object erased_fields_insert erase_both_data d del: erased.simps(1))
  show ?thesis
    using Some p erase_both_same [OF assms w]
    by (simp add: redact_member_def erased_fields_insert e Let_def del: erased.simps(1))
qed (simp add: redact_member_def)

lemma erased_red:
  "erased (red v) = erased v" "erased_fields (red_fields m) = erased_fields m"
  "erased_items (red_items xs) = erased_items xs"
  by (induction v and m and xs rule: red_red_fields_red_items.induct)
    (simp_all add: erased_object erase_redacted_member del: erased.simps(1))

section \<open>The bound\<close>

lemma last_boundary_le:
  "boundary \<le> max_bytes \<Longrightarrow> last_boundary max_bytes s index boundary \<le> max_bytes"
  by (induction s arbitrary: index boundary) auto

lemma last_boundary_start:
  "last_boundary max_bytes s index boundary = boundary
   \<or> (\<exists>i < length s. last_boundary max_bytes s index boundary = index + i \<and> is_char_start (s ! i))"
proof (induction s arbitrary: index boundary)
  case (Cons c s)
  show ?case
  proof (cases "is_char_start c \<and> \<not> max_bytes < index")
    case True
    with Cons [of "index + 1" index] show ?thesis by (auto simp: nth_Cons split: nat.splits intro: exI [of _ 0])
  next
    case False
    with Cons [of "index + 1" boundary] show ?thesis by (auto split: if_splits)
  qed
qed simp

lemma truncated_length:
  "length (truncate_for_admin_log s n) \<le> n + length TRUNCATED_MARK"
  using last_boundary_le [of 0 n s 0] by (simp add: truncate_for_admin_log_def)

lemma truncated_text:
  "truncate_for_admin_log s n = s
   \<or> (\<exists>b \<le> n. truncate_for_admin_log s n = take b s @ TRUNCATED_MARK \<and> (b = 0 \<or> is_char_start (s ! b)))"
  using last_boundary_le [of 0 n s 0] last_boundary_start [of n s 0 0]
  by (auto simp: truncate_for_admin_log_def)

section \<open>The logged body\<close>



end
