(* ===== verification/Router_Values.thy ===== *)
theory Router_Values
  imports Proxy_Errors Response_Rewrite Openai_Image Upload
begin

text \<open>
  The helpers of \<^verbatim>\<open>src/http/router.rs\<close> that only compute: the output mode and the upstream URL of
  a request, the images of an OpenAI answer and the URLs they get, and the form an image edit is
  sent as.
\<close>

section \<open>The query\<close>

definition query_contains_output_url :: "'u url_api \<Rightarrow> string option \<Rightarrow> bool" where
  "query_contains_output_url U query =
     (case query of
        None \<Rightarrow> False
      | Some q \<Rightarrow> list_ex (\<lambda>(key, value). key = ''output'' \<and> eq_ignore_case (trim value) ''url'') (form_parse U q))"

definition says_url :: "json option \<Rightarrow> bool" where
  "says_url v =
     (case Option.bind v as_str of None \<Rightarrow> False | Some value \<Rightarrow> eq_ignore_case (trim value) ''url'')"

definition get_output_mode :: "'u url_api \<Rightarrow> string option \<Rightarrow> json \<Rightarrow> output_mode" where
  "get_output_mode U query body =
     (if query_contains_output_url U query then OutputUrl
      else if says_url (jget ''output'' body) then OutputUrl
      else if says_url (jpointer [''generationConfig'', ''imageConfig'', ''output''] body) then OutputUrl
      else if says_url (jpointer [''generation_config'', ''image_config'', ''output''] body) then OutputUrl
      else OutputBase64)"

text \<open>The loop of \<^verbatim>\<open>filter_query_without_output\<close>: the pairs appended to the serializer.\<close>

definition filter_query_without_output :: "'u url_api \<Rightarrow> string option \<Rightarrow> string option" where
  "filter_query_without_output U query =
     (case query of
        None \<Rightarrow> None
      | Some q \<Rightarrow>
          (let appended = filter (\<lambda>(key, _). key \<noteq> ''output'') (form_parse U q)
           in if appended \<noteq> [] then Some (form_text U appended) else None))"

definition build_upstream_url :: "'u url_api \<Rightarrow> string \<Rightarrow> string \<Rightarrow> string option \<Rightarrow> string fallible" where
  "build_upstream_url U base_url path query =
     (case url_parse U base_url of
        Err e \<Rightarrow> Err (Message e)
      | Ok parsed \<Rightarrow>
          Ok (url_text U (url_set_query U (filter_query_without_output U query) (url_set_path U path parsed))))"

section \<open>The images of an OpenAI answer\<close>

datatype openai_image_item = B64Json string | DataUrl string string | ImageUrl string

record parsed_openai_image_data_url =
  du_mime_type :: string
  du_data_base64 :: string

text \<open>The loop over the segments of the metadata: \<open>index\<close>, the MIME type and \<^verbatim>\<open>is_base64\<close> so far.\<close>

fun metadata_loop :: "string list \<Rightarrow> nat \<Rightarrow> string option \<Rightarrow> bool \<Rightarrow> string option \<times> bool" where
  "metadata_loop [] index mime_type is_base64 = (mime_type, is_base64)"
| "metadata_loop (segment # segments) index mime_type is_base64 =
     (let segment = trim segment in
      if segment = [] then metadata_loop segments (index + 1) mime_type is_base64
      else if index = 0 \<and> CHR ''/'' \<in> set segment
      then metadata_loop segments (index + 1) (Some (to_lower segment)) is_base64
      else if eq_ignore_case segment ''base64'' then metadata_loop segments (index + 1) mime_type True
      else metadata_loop segments (index + 1) mime_type is_base64)"

definition parse_openai_image_data_url :: "string \<Rightarrow> parsed_openai_image_data_url option" where
  "parse_openai_image_data_url raw =
     (case strip_prefix raw ''data:'' of
        None \<Rightarrow> None
      | Some payload \<Rightarrow>
          (case split_once (CHR '','') payload of
             None \<Rightarrow> None
           | Some (metadata, data_base64) \<Rightarrow>
               (let data_base64 = trim data_base64 in
                if data_base64 = [] then None
                else
                  (let (mime_type, is_base64) = metadata_loop (split_on (CHR '';'') metadata) 0 None False in
                   if \<not> is_base64 then None
                   else
                     (let mime_type = unwrap_or mime_type ''image/png'' in
                      if \<not> starts_with mime_type ''image/'' then None
                      else Some \<lparr>du_mime_type = mime_type, du_data_base64 = data_base64\<rparr>)))))"

definition missing_data :: "string \<Rightarrow> anyhow" where
  "missing_data detail =
     StructuredProxyError
       \<lparr>se_message = MSG_OPENAI_IMAGE_MISSING_DATA, se_stage = ''rewrite_openai_image_response'',
        se_kind = ''missing_data'', se_detail = detail\<rparr>"

definition openai_image_item_of :: "json \<Rightarrow> openai_image_item fallible" where
  "openai_image_item_of item =
     (case opt_filter (\<lambda>value. \<not> blank value) (jget_str ''b64_json'' item) of
        Some value \<Rightarrow> Ok (B64Json value)
      | None \<Rightarrow>
          (case opt_filter (\<lambda>value. value \<noteq> []) (map_option trim (jget_str ''url'' item)) of
             Some value \<Rightarrow>
               Ok (case parse_openai_image_data_url value of
                   None \<Rightarrow> ImageUrl value
                 | Some parsed \<Rightarrow> DataUrl (du_mime_type parsed) (du_data_base64 parsed))
           | None \<Rightarrow> Err (StructuredProxyError
               \<lparr>se_message = MSG_OPENAI_IMAGE_MISSING_PAYLOAD, se_stage = ''rewrite_openai_image_response'',
                se_kind = ''missing_image_payload'', se_detail = MSG_OPENAI_NO_PAYLOAD\<rparr>)))"

definition extract_openai_image_items :: "json \<Rightarrow> openai_image_item list fallible" where
  "extract_openai_image_items body =
     (case Option.bind (jget ''data'' body) as_array of
        None \<Rightarrow> Err (missing_data MSG_OPENAI_NO_DATA)
      | Some data \<Rightarrow>
          if data = [] then Err (missing_data MSG_OPENAI_EMPTY_DATA)
          else collect_results openai_image_item_of data)"

definition is_tianyue_target :: "'u url_api \<Rightarrow> string \<Rightarrow> bool" where
  "is_tianyue_target U target_url =
     (case parse_ok U target_url of
        None \<Rightarrow> False
      | Some url \<Rightarrow>
          is_http_scheme (url_scheme U url)
          \<and> (case url_host U url of
               None \<Rightarrow> False
             | Some host \<Rightarrow> host = ''tianyue.xyz'' \<or> ends_with host ''.tianyue.xyz''))"

definition build_openai_image_output_url :: "'u url_api \<Rightarrow> config \<Rightarrow> string \<Rightarrow> string \<Rightarrow> string" where
  "build_openai_image_output_url U cfg provider target_url =
     (if eq_ignore_case provider ''direct'' then
        (let openai_proxy_prefix = trim (openai_image_upstream_url_proxy_prefix cfg) in
         if openai_proxy_prefix \<noteq> [] then wrap_external_proxy_url U openai_proxy_prefix target_url
         else if proxy_special_upstream_urls cfg \<and> is_tianyue_target U target_url then
           (let external_proxy_prefix = resolved_external_image_proxy_prefix cfg in
            if external_proxy_prefix \<noteq> [] then wrap_external_proxy_url U external_proxy_prefix target_url
            else target_url)
         else target_url)
      else
        (let external_proxy_prefix = resolved_external_image_proxy_prefix cfg in
         if should_proxy_uploaded_output_url cfg provider \<and> \<not> blank external_proxy_prefix
         then wrap_external_proxy_url U external_proxy_prefix target_url else target_url))"

section \<open>Image edits\<close>

definition OPENAI_IMAGE_REFERENCE_FIELDS :: "string list" where
  "OPENAI_IMAGE_REFERENCE_FIELDS = [''image'', ''images'', ''reference_images'']"

definition MAX_OPENAI_REFERENCE_IMAGES :: nat where
  "MAX_OPENAI_REFERENCE_IMAGES = 6"

definition openai_image_reference_image_count :: "json \<Rightarrow> nat" where
  "openai_image_reference_image_count request_body =
     sum_list (map length
       (filter_map (\<lambda>field. Option.bind (jget field request_body) as_array) OPENAI_IMAGE_REFERENCE_FIELDS))"

definition openai_image_request_has_images :: "json \<Rightarrow> bool" where
  "openai_image_request_has_images request_body \<longleftrightarrow> 0 < openai_image_reference_image_count request_body"

text \<open>\<^verbatim>\<open>Number::to_string\<close>: a float keeps its text.\<close>

fun number_text :: "number \<Rightarrow> string" where
  "number_text (Integer i) = show_int i"
| "number_text (Float s) = s"

definition multipart_text_value :: "serde \<Rightarrow> json \<Rightarrow> string fallible" where
  "multipart_text_value S value =
     (case value of
        JString t \<Rightarrow> Ok t
      | JNumber n \<Rightarrow> Ok (number_text n)
      | JBool b \<Rightarrow> Ok (if b then ''true'' else ''false'')
      | JNull \<Rightarrow> Ok []
      | _ \<Rightarrow> map_sum Message id (to_vec S value))"

definition filename_from_url :: "'u url_api \<Rightarrow> string \<Rightarrow> string option" where
  "filename_from_url U raw_url =
     Option.bind (parse_ok U raw_url) (\<lambda>parsed.
       opt_filter (\<lambda>segment. segment \<noteq> []) (map_option trim (url_last_segment U parsed)))"

text \<open>A part of the form: a text field, or an image as a file.\<close>

datatype edit_part = TextPart string string | ImagePart string string string

text \<open>
  Fetching an image of the form: \<open>n\<close> is the number of the fetch in the environment, the last
  component of the state what the cache observer was told.
\<close>

definition fetch_happyapi_edit_image ::
  "('u, 'l) response_env \<Rightarrow> fetch_service option \<Rightarrow> bool \<Rightarrow> nat \<Rightarrow> string
   \<Rightarrow> 'l fetch_state \<times> (string \<times> bool) list
   \<Rightarrow> fetched_inline_data fallible option \<times> 'l fetch_state \<times> (string \<times> bool) list" where
  "fetch_happyapi_edit_image E fetch_service observes n image_url st =
     (case fetch_service of
        Some fs \<Rightarrow>
          (case fetch (rp_lru E) (rp_disk E) fs (rp_interfere E n) (rp_view E n) (rp_direct E n) (fst st) image_url of
             (None, s) \<Rightarrow> (None, s, snd st)
           | (Some (Err e), s) \<Rightarrow> (Some (Err e), s, snd st)
           | (Some (Ok f), s) \<Rightarrow>
               (Some (Ok \<lparr>fi_mime_type = fr_mime_type f, fi_bytes = fr_bytes f\<rparr>), s,
                snd st @ (if observes then [(image_url, fr_from_cache f)] else [])))
      | None \<Rightarrow>
          (Some (fetch_image_as_inline_data (rp_url E) (rp_get E n) image_url REQUEST_MAX_IMAGE_BYTES), st))"

text \<open>The images of the three fields, in that order.\<close>

fun edit_image_values :: "jobject \<Rightarrow> string list \<Rightarrow> json list fallible" where
  "edit_image_values m [] = Ok []"
| "edit_image_values m (field # names) =
     (case obj_get m field of
        None \<Rightarrow> edit_image_values m names
      | Some value \<Rightarrow>
          (case as_array value of
             None \<Rightarrow> Err (Message (field @ MSG_MUST_BE_ARRAY))
           | Some array \<Rightarrow> map_sum id (\<lambda>rest. array @ rest) (edit_image_values m names)))"

fun edit_text_parts :: "serde \<Rightarrow> jobject \<Rightarrow> edit_part list fallible" where
  "edit_text_parts S [] = Ok []"
| "edit_text_parts S ((key, value) # m) =
     (if key \<in> set OPENAI_IMAGE_REFERENCE_FIELDS then edit_text_parts S m
      else (case multipart_text_value S value of
          Err e \<Rightarrow> Err e
        | Ok field_value \<Rightarrow> map_sum id (\<lambda>rest. TextPart key field_value # rest) (edit_text_parts S m)))"

fun edit_image_parts ::
  "('u, 'l) response_env \<Rightarrow> (string \<Rightarrow> anyhow option) \<Rightarrow> fetch_service option \<Rightarrow> bool \<Rightarrow> nat \<Rightarrow> json list
   \<Rightarrow> 'l fetch_state \<times> (string \<times> bool) list
   \<Rightarrow> edit_part list fallible option \<times> 'l fetch_state \<times> (string \<times> bool) list" where
  "edit_image_parts E mime_error fetch_service observes n [] st = (Some (Ok []), st)"
| "edit_image_parts E mime_error fetch_service observes n (value # values) st =
     (case as_str value of
        None \<Rightarrow> (Some (Err (Message MSG_IMAGE_STRING)), st)
      | Some image_url \<Rightarrow>
          (case fetch_happyapi_edit_image E fetch_service observes n image_url st of
             (None, st) \<Rightarrow> (None, st)
           | (Some (Err e), st) \<Rightarrow> (Some (Err e), st)
           | (Some (Ok fetched), st) \<Rightarrow>
               (case mime_error (fi_mime_type fetched) of
                  Some e \<Rightarrow> (Some (Err e), st)
                | None \<Rightarrow>
                    (case edit_image_parts E mime_error fetch_service observes (n + 1) values st of
                       (r, st) \<Rightarrow>
                         (map_option (map_sum id (\<lambda>parts.
                            ImagePart (unwrap_or (filename_from_url (rp_url E) image_url) ''image.png'')
                              (fi_mime_type fetched) (fi_bytes fetched) # parts)) r, st)))))"

definition build_happyapi_image_edit_form ::
  "('u, 'l) response_env \<Rightarrow> serde \<Rightarrow> (string \<Rightarrow> anyhow option) \<Rightarrow> fetch_service option \<Rightarrow> bool \<Rightarrow> json
   \<Rightarrow> 'l fetch_state \<times> (string \<times> bool) list
   \<Rightarrow> edit_part list fallible option \<times> 'l fetch_state \<times> (string \<times> bool) list" where
  "build_happyapi_image_edit_form E S mime_error fetch_service observes request_body st =
     (case as_object request_body of
        None \<Rightarrow> (Some (Err (Message MSG_EDIT_NOT_OBJECT)), st)
      | Some m \<Rightarrow>
          (case edit_image_values m OPENAI_IMAGE_REFERENCE_FIELDS of
             Err e \<Rightarrow> (Some (Err e), st)
           | Ok image_urls \<Rightarrow>
               if image_urls = [] then (Some (Err (Message MSG_IMAGE_ARRAY)), st)
               else (case edit_text_parts S m of
                   Err e \<Rightarrow> (Some (Err e), st)
                 | Ok text_parts \<Rightarrow>
                     (case edit_image_parts E mime_error fetch_service observes 0 image_urls st of
                        (r, st) \<Rightarrow> (map_option (map_sum id (\<lambda>image_parts. text_parts @ image_parts)) r, st)))))"

end
