(* ===== verification/Block_Answers.thy ===== *)
theory Block_Answers
  imports Block_Cache Proxy_Errors Response_Rewrite
begin

text \<open>
  The part of \<^verbatim>\<open>src/http/router.rs\<close> that passes on an upstream's error: the JSON error object is
  completed, an error for refused content becomes a 451 with a fixed message and is remembered in
  the cache of \<open>Block_Cache\<close>, and a later hit is answered from there.
\<close>

definition MAX_UPSTREAM_BLOCK_CACHE_BODY_BYTES :: nat where
  "MAX_UPSTREAM_BLOCK_CACHE_BODY_BYTES = 64 * 1024"

section \<open>Answers with the upstream's body\<close>

definition raw_response_with_body :: "status \<Rightarrow> string \<Rightarrow> string \<Rightarrow> http_answer" where
  "raw_response_with_body status content_type body_bytes =
     \<lparr>an_status = status, an_headers = [(CONTENT_TYPE, content_type)], an_body = body_bytes,
      an_upstream_status = None\<rparr>"

definition block_error_response_status :: "status \<Rightarrow> string \<Rightarrow> status" where
  "block_error_response_status status body =
     (if classify_blockable_upstream_error status body \<noteq> None then UNAVAILABLE_FOR_LEGAL_REASONS else status)"

text \<open>
  The object that gets the message: the member \<^verbatim>\<open>error\<close> when it is an object, else the value itself.
\<close>

definition with_blocked_message :: "json \<Rightarrow> json option" where
  "with_blocked_message value =
     (let message = JString MSG_UPSTREAM_BLOCKED_INPUT in
      case jget ''error'' value of
        Some (JObject error) \<Rightarrow>
          map_option (\<lambda>m. JObject (obj_insert ''error'' (JObject (obj_insert ''message'' message error)) m))
            (as_object value)
      | _ \<Rightarrow> map_option (\<lambda>m. JObject (obj_insert ''message'' message m)) (as_object value))"

definition block_error_response_body :: "serde \<Rightarrow> status \<Rightarrow> string \<Rightarrow> string" where
  "block_error_response_body S status body =
     (if classify_blockable_upstream_error status body = None then body
      else
        (case from_slice S body of
           Err _ \<Rightarrow> MSG_UPSTREAM_BLOCKED_INPUT
         | Ok value \<Rightarrow>
             (case with_blocked_message value of
                None \<Rightarrow> MSG_UPSTREAM_BLOCKED_INPUT
              | Some value \<Rightarrow>
                  (case to_vec S value of Ok b \<Rightarrow> b | Err _ \<Rightarrow> MSG_UPSTREAM_BLOCKED_INPUT))))"

definition raw_response_with_upstream_status ::
  "serde \<Rightarrow> status \<Rightarrow> status \<Rightarrow> string \<Rightarrow> string \<Rightarrow> http_answer" where
  "raw_response_with_upstream_status S status upstream_status content_type body_bytes =
     (let body_bytes = block_error_response_body S upstream_status body_bytes
      in (raw_response_with_body status content_type body_bytes)\<lparr>an_upstream_status := Some upstream_status\<rparr>)"

definition response_from_block_cache_hit :: "serde \<Rightarrow> cached_block_response \<Rightarrow> http_answer" where
  "response_from_block_cache_hit S hit =
     raw_response_with_upstream_status S (cb_status hit) (cb_upstream_status hit) (cb_content_type hit) (cb_body hit)"

definition maybe_store_upstream_block_error ::
  "'l block_lru \<Rightarrow> serde \<Rightarrow> 'l upstream_block_cache option \<Rightarrow> string option \<Rightarrow> nat \<Rightarrow> status \<Rightarrow> string \<Rightarrow> string
   \<Rightarrow> bool \<times> 'l upstream_block_cache option" where
  "maybe_store_upstream_block_error L S cache key now status content_type body =
     (case cache of
        None \<Rightarrow> (False, cache)
      | Some c \<Rightarrow>
          (case key of
             None \<Rightarrow> (False, cache)
           | Some k \<Rightarrow>
               if MAX_UPSTREAM_BLOCK_CACHE_BODY_BYTES < length body then (False, cache)
               else (case classify_blockable_upstream_error status body of
                   None \<Rightarrow> (False, cache)
                 | Some reason \<Rightarrow>
                     (True, Some (block_cache_insert L c now k
                        \<lparr>cb_status = block_error_response_status status body, cb_upstream_status = status,
                         cb_content_type = content_type, cb_body = block_error_response_body S status body,
                         cb_reason = reason\<rparr>)))))"

text \<open>\<^verbatim>\<open>upstream_block_cache_json_error_response\<close>: an error of the proxy itself goes the same way.\<close>

definition upstream_block_cache_json_error_response ::
  "'l block_lru \<Rightarrow> serde \<Rightarrow> 'l upstream_block_cache option \<Rightarrow> string option \<Rightarrow> nat \<Rightarrow> status \<Rightarrow> json
   \<Rightarrow> http_answer \<times> 'l upstream_block_cache option" where
  "upstream_block_cache_json_error_response L S cache key now status value =
     (let body = (case to_vec S value of
            Ok b \<Rightarrow> b
          | Err _ \<Rightarrow> json_text S (error_json status MSG_ERROR_BODY_FAILED));
          (_, cache) = maybe_store_upstream_block_error L S cache key now status APPLICATION_JSON body
      in (raw_response_with_upstream_status S (block_error_response_status status body) status
            APPLICATION_JSON body, cache))"

text \<open>Both ways an upstream's error leaves a handler: stored, then answered.\<close>

definition pass_on_error ::
  "'l block_lru \<Rightarrow> serde \<Rightarrow> 'l upstream_block_cache option \<Rightarrow> string option \<Rightarrow> nat \<Rightarrow> status \<Rightarrow> string \<Rightarrow> string
   \<Rightarrow> http_answer \<times> 'l upstream_block_cache option" where
  "pass_on_error L S cache key now status content_type body =
     (raw_response_with_upstream_status S (block_error_response_status status body) status content_type body,
      snd (maybe_store_upstream_block_error L S cache key now status content_type body))"

section \<open>Completing the upstream's error object\<close>

text \<open>\<open>None\<close> when the body is no JSON object with an object under \<^verbatim>\<open>error\<close>, or cannot be printed.\<close>

definition annotate_error :: "status \<Rightarrow> jobject \<Rightarrow> jobject" where
  "annotate_error status error =
     obj_or_insert ''kind'' (JString ''upstream_error'')
       (obj_or_insert ''stage'' (JString ''upstream_response'')
         (obj_or_insert ''source'' (JString ''upstream'')
           (obj_or_insert ''code'' (jnat status) error)))"

definition annotate_upstream_error_json :: "serde \<Rightarrow> status \<Rightarrow> string \<Rightarrow> string option" where
  "annotate_upstream_error_json S status body_bytes =
     (case from_slice S body_bytes of
        Err _ \<Rightarrow> None
      | Ok body \<Rightarrow>
          (case (as_object body, Option.bind (jget ''error'' body) as_object) of
             (Some m, Some error) \<Rightarrow>
               (case to_vec S (JObject (obj_insert ''error'' (JObject (annotate_error status error)) m)) of
                  Ok b \<Rightarrow> Some b
                | Err _ \<Rightarrow> None)
           | _ \<Rightarrow> None))"

lemma obj_get_or_insert [simp]:
  "obj_get (obj_or_insert k v m) k' =
     (case obj_get m k' of Some x \<Rightarrow> Some x | None \<Rightarrow> if k' = k then Some v else None)"
  by (auto simp: obj_or_insert_def obj_has_def split: option.splits)

lemma annotate_error_keeps:
  "obj_get error k = Some v \<Longrightarrow> obj_get (annotate_error status error) k = Some v"
  by (simp add: annotate_error_def)

lemma annotate_error_complete:
  "obj_get (annotate_error status error) k \<noteq> None
   \<longleftrightarrow> obj_get error k \<noteq> None \<or> k \<in> {''code'', ''source'', ''stage'', ''kind''}"
  by (simp add: annotate_error_def split: option.splits)

section \<open>A hit is the first answer again\<close>

text \<open>A value that is read back from its own text, as \<^verbatim>\<open>serde_json\<close> promises of values without floats.\<close>

definition reads_back :: "serde \<Rightarrow> json \<Rightarrow> bool" where
  "reads_back S v \<longleftrightarrow> (case to_vec S v of Ok t \<Rightarrow> from_slice S t = Ok v | Err _ \<Rightarrow> False)"

lemma with_blocked_message_idem:
  "with_blocked_message v = Some w \<Longrightarrow> with_blocked_message w = Some w"
  by (auto simp: with_blocked_message_def Let_def jget_def as_object_Some_iff split: option.splits json.splits)

text \<open>Reading well-formed text character by character.\<close>

lemma utf8_valid_steps:
  "utf8_valid []"
  "bval a < 128 \<Longrightarrow> utf8_valid (a # s) = utf8_valid s"
  "225 \<le> bval a \<Longrightarrow> bval a \<le> 239 \<Longrightarrow> bval a \<noteq> 237 \<Longrightarrow> cont_byte (bval b) \<Longrightarrow> cont_byte (bval c)
   \<Longrightarrow> utf8_valid (a # b # c # s) = utf8_valid s"
  by (simp add: utf8_valid.simps)
    (subst utf8_valid.simps, simp add: utf8_head_ok_def utf8_take_def utf8_width_def utf8_second_def cont_byte_def numeral_nat)+

text \<open>The fixed message itself is not an error to be remembered.\<close>

lemma message_not_blockable: "classify_blockable_upstream_error status MSG_UPSTREAM_BLOCKED_INPUT = None"
proof -
  have "utf8_valid MSG_UPSTREAM_BLOCKED_INPUT"
    by (simp add: MSG_UPSTREAM_BLOCKED_INPUT_def utf8_valid_steps bval_def cont_byte_def)
  then have l: "utf8_lossy MSG_UPSTREAM_BLOCKED_INPUT = MSG_UPSTREAM_BLOCKED_INPUT" by (rule utf8_lossy_valid)
  have "\<not> contains_str (to_lower MSG_UPSTREAM_BLOCKED_INPUT) ''image_unsafe''"
    "\<not> contains_str (to_lower MSG_UPSTREAM_BLOCKED_INPUT) ''upstream moderation triggered''"
    "\<not> contains_str (to_lower MSG_UPSTREAM_BLOCKED_INPUT) ''content blocked''"
    "\<not> contains_str (to_lower MSG_UPSTREAM_BLOCKED_INPUT) MSG_BLOCKED_KEYWORD"
    by code_simp+
  with l show ?thesis by (simp add: classify_blockable_upstream_error_def Let_def)
qed

lemma block_body_idem:
  assumes "\<And>v w. from_slice S body = Ok v \<Longrightarrow> with_blocked_message v = Some w \<Longrightarrow> reads_back S w"
  shows "block_error_response_body S st (block_error_response_body S st body) = block_error_response_body S st body"
proof (cases "classify_blockable_upstream_error st body = None")
  case False
  show ?thesis
  proof (cases "\<exists>v w. from_slice S body = Ok v \<and> with_blocked_message v = Some w")
    case True
    then obtain v w where v: "from_slice S body = Ok v" "with_blocked_message v = Some w" by blast
    have "reads_back S w" by (rule assms [OF v])
    then obtain t where t: "to_vec S w = Ok t" "from_slice S t = Ok w"
      by (auto simp: reads_back_def split: sum.splits)
    with v False have b: "block_error_response_body S st body = t"
      by (simp add: block_error_response_body_def del: not_None_eq)
    have "block_error_response_body S st t = t"
      by (simp add: block_error_response_body_def t with_blocked_message_idem [OF v(2)])
    with b show ?thesis by simp
  next
    case no: False
    then have "block_error_response_body S st body = MSG_UPSTREAM_BLOCKED_INPUT"
      using False by (auto simp: block_error_response_body_def split: sum.splits option.splits)
    then show ?thesis by (simp add: block_error_response_body_def message_not_blockable)
  qed
qed (simp add: block_error_response_body_def)

context block_lru
begin

lemma insert_then_get:
  assumes ok: "block_ok L latest ttl n c" and "later < now + ttl"
  shows "fst (block_cache_get L (block_cache_insert L c now key r) later key) = Some r"
proof -
  let ?es = "prune_expired_entries L now (ub_entries c)"
  let ?e = "\<lparr>sb_response = r, sb_expires_at = now + ub_ttl c\<rparr>"
  have p: "lru_valid L ?es" "lru_capacity L ?es = Some n" "0 < n" "ub_ttl c = ttl"
    using prune_block_ok [OF ok, of now] by (auto simp: block_ok_def)
  then have "lru_capacity L ?es \<noteq> Some 0" by simp
  note q = put [OF p(1) this, of key ?e]
  obtain x l' where g: "lru_get L key (lru_put L key ?e ?es) = (x, l')" by (cases "lru_get L key (lru_put L key ?e ?es)")
  have "x = map_of (lru_items L (lru_put L key ?e ?es)) key"
    using lru_cache.get [OF lru_cache_axioms _ g] q by blast
  moreover have "lru_items L (lru_put L key ?e ?es) = (key, ?e) # take (n - 1) (without key (lru_items L ?es))"
    using q p by (cases n) (simp_all add: take_capacity_def)
  ultimately show ?thesis using g p assms(2) by (simp add: block_cache_get_def block_cache_insert_def)
qed

end

text \<open>
  An error for refused content is answered 451, and until the time to live is over a lookup gives
  that answer again: same status, content type, body and recorded upstream status.
\<close>

lemma pass_on_refusal:
  assumes "block_lru L" "block_ok L latest ttl n c"
    and "classify_blockable_upstream_error st body = Some reason" "length body \<le> 65536" "later < now + ttl"
    and "\<And>v w. from_slice S body = Ok v \<Longrightarrow> with_blocked_message v = Some w \<Longrightarrow> reads_back S w"
  shows "\<exists>answer c' hit. pass_on_error L S (Some c) (Some key) now st content_type body = (answer, Some c')
    \<and> an_status answer = UNAVAILABLE_FOR_LEGAL_REASONS \<and> an_upstream_status answer = Some st
    \<and> fst (block_cache_get L c' later key) = Some hit \<and> cb_reason hit = reason
    \<and> response_from_block_cache_hit S hit = answer"
proof -
  let ?r = "\<lparr>cb_status = block_error_response_status st body, cb_upstream_status = st, cb_content_type = content_type,
      cb_body = block_error_response_body S st body, cb_reason = reason\<rparr>"
  let ?c = "block_cache_insert L c now key ?r"
  have hit: "fst (block_cache_get L ?c later key) = Some ?r"
    by (rule block_lru.insert_then_get [OF assms(1,2,5)])
  have stored: "pass_on_error L S (Some c) (Some key) now st content_type body =
      (raw_response_with_upstream_status S (block_error_response_status st body) st content_type body, Some ?c)"
    using assms(3,4) by (simp add: pass_on_error_def maybe_store_upstream_block_error_def
        MAX_UPSTREAM_BLOCK_CACHE_BODY_BYTES_def)
  have "response_from_block_cache_hit S ?r =
      raw_response_with_upstream_status S (block_error_response_status st body) st content_type body"
    using block_body_idem [OF assms(6)]
    by (simp add: response_from_block_cache_hit_def raw_response_with_upstream_status_def Let_def)
  with hit stored assms(3) show ?thesis
    by (intro exI [of _ ?r] exI [of _ ?c]
        exI [of _ "raw_response_with_upstream_status S (block_error_response_status st body) st content_type body"])
      (simp add: raw_response_with_upstream_status_def block_error_response_status_def raw_response_with_body_def Let_def)
qed

end
