(* ===== verification/Admin_Log.thy ===== *)
theory Admin_Log
  imports Log_Sanitize
begin

text \<open>
  \<^verbatim>\<open>src/admin.rs\<close> without its page: the log of the last requests, the statistics and the password
  check. Counters are 64-bit words (\<^verbatim>\<open>AtomicI64\<close>,
  read by \<open>sint\<close>); measured durations are \<^verbatim>\<open>i64\<close> milliseconds.
\<close>

type_synonym i64 = "64 word"

definition ADMIN_LOG_CAPACITY :: nat where
  "ADMIN_LOG_CAPACITY = 100"

record admin_log_entry =
  le_id :: i64
  le_created_at :: string
  le_method :: string
  le_path :: string
  le_query :: string
  le_remote_addr :: string
  le_is_stream :: bool
  le_output_mode :: string
  le_status_code :: nat
  le_duration_ms :: i64
  le_request_parse_ms :: i64
  le_request_image_prepare_ms :: i64
  le_request_image_materialize_ms :: i64
  le_request_image_fetch_work_ms :: i64
  le_request_image_store_work_ms :: i64
  le_request_encode_ms :: i64
  le_upstream_build_ms :: i64
  le_response_process_ms :: i64
  le_upload_ms :: i64
  le_finish_reason :: string
  le_request_raw :: string
  le_request_raw_images :: "string list"
  le_request_raw_image_cache_hits :: "string list"
  le_request_upstream :: string
  le_request_upstream_images :: "string list"
  le_response_downstream :: string
  le_response_images :: "string list"
  le_error_source :: string
  le_error_stage :: string
  le_error_kind :: string
  le_error_message :: string
  le_error_detail :: string
  le_upstream_status_code :: nat
  le_upstream_error_body :: string

text \<open>\<^verbatim>\<open>AdminLogEntry::default()\<close>.\<close>

definition entry_default :: admin_log_entry where
  "entry_default =
     \<lparr>le_id = 0, le_created_at = [], le_method = [], le_path = [], le_query = [], le_remote_addr = [],
      le_is_stream = False, le_output_mode = [], le_status_code = 0, le_duration_ms = 0,
      le_request_parse_ms = 0, le_request_image_prepare_ms = 0, le_request_image_materialize_ms = 0,
      le_request_image_fetch_work_ms = 0, le_request_image_store_work_ms = 0, le_request_encode_ms = 0,
      le_upstream_build_ms = 0, le_response_process_ms = 0, le_upload_ms = 0, le_finish_reason = [],
      le_request_raw = [], le_request_raw_images = [], le_request_raw_image_cache_hits = [],
      le_request_upstream = [], le_request_upstream_images = [], le_response_downstream = [],
      le_response_images = [], le_error_source = [], le_error_stage = [], le_error_kind = [],
      le_error_message = [], le_error_detail = [], le_upstream_status_code = 0,
      le_upstream_error_body = []\<rparr>"

record admin_stats =
  as_total_requests :: i64
  as_error_requests :: i64
  as_total_duration_ms :: i64
  as_request_parse_ms :: i64
  as_request_image_prepare_ms :: i64
  as_request_image_materialize_ms :: i64
  as_request_image_fetch_work_ms :: i64
  as_request_image_store_work_ms :: i64
  as_request_encode_ms :: i64
  as_upstream_build_ms :: i64
  as_response_process_ms :: i64
  as_upload_ms :: i64
  as_cache_hits :: i64

definition stats_default :: admin_stats where
  "stats_default =
     \<lparr>as_total_requests = 0, as_error_requests = 0, as_total_duration_ms = 0, as_request_parse_ms = 0,
      as_request_image_prepare_ms = 0, as_request_image_materialize_ms = 0,
      as_request_image_fetch_work_ms = 0, as_request_image_store_work_ms = 0, as_request_encode_ms = 0,
      as_upstream_build_ms = 0, as_response_process_ms = 0, as_upload_ms = 0, as_cache_hits = 0\<rparr>"

record admin_state =
  ad_password :: string
  ad_next_id :: i64
  ad_entries :: "admin_log_entry list"
  ad_stats :: admin_stats

section \<open>The state\<close>

definition admin_state_new :: "string \<Rightarrow> admin_state" where
  "admin_state_new password =
     \<lparr>ad_password = password, ad_next_id = 0, ad_entries = [], ad_stats = stats_default\<rparr>"

definition admin_enabled :: "admin_state \<Rightarrow> bool" where
  "admin_enabled st \<longleftrightarrow> \<not> blank (ad_password st)"

text \<open>\<^verbatim>\<open>while guard.len() > ADMIN_LOG_CAPACITY { guard.pop_back(); }\<close>\<close>

function pop_excess :: "'a list \<Rightarrow> 'a list" where
  "pop_excess entries =
     (if ADMIN_LOG_CAPACITY < length entries then pop_excess (butlast entries) else entries)"
  by pat_completeness auto
termination
  by (relation "measure length") auto

declare pop_excess.simps [simp del]

definition record_entry :: "admin_state \<Rightarrow> admin_log_entry \<Rightarrow> admin_state" where
  "record_entry st entry =
     (let id = ad_next_id st + 1;
          entry = entry\<lparr>le_id := id\<rparr>
      in st\<lparr>ad_next_id := id, ad_entries := pop_excess (entry # ad_entries st)\<rparr>)"

definition unauthorized_response :: "serde \<Rightarrow> http_answer" where
  "unauthorized_response S =
     (let response = error_answer S UNAUTHORIZED ''Unauthorized''
      in response\<lparr>an_headers := an_headers response @
           [(''www-authenticate'', ''Basic realm='' @ [CHR 0x22] @ ''banana-proxy-admin'' @ [CHR 0x22])]\<rparr>)"

text \<open>
  \<open>to_str\<close> is \<^verbatim>\<open>HeaderValue::to_str\<close>; \<open>headers\<close> are the header lines with lower-case names, of
  which \<^verbatim>\<open>HeaderMap::get\<close> sees the first of a name.
\<close>

definition check_basic_auth ::
  "base64_api \<Rightarrow> (string \<Rightarrow> string option) \<Rightarrow> admin_state \<Rightarrow> (string \<times> string) list \<Rightarrow> bool" where
  "check_basic_auth B to_str st headers =
     (if \<not> admin_enabled st then False
      else
        (case Option.bind (map_of headers ''authorization'') to_str of
           None \<Rightarrow> False
         | Some raw \<Rightarrow>
             (case strip_prefix raw ''Basic '' of
                None \<Rightarrow> False
              | Some encoded \<Rightarrow>
                  (case b64_decode B (trim encoded) of
                     Err _ \<Rightarrow> False
                   | Ok decoded \<Rightarrow>
                       if \<not> utf8_valid decoded then False
                       else (case split_once (CHR '':'') decoded of
                           None \<Rightarrow> False
                         | Some (_, password) \<Rightarrow> password = ad_password st)))))"

section \<open>What the page asks for\<close>

text \<open>The loop of \<^verbatim>\<open>dedup_strings\<close>; \<open>seen\<close> is its \<^verbatim>\<open>HashSet\<close>.\<close>

fun dedup_from :: "string set \<Rightarrow> string list \<Rightarrow> string list" where
  "dedup_from seen [] = []"
| "dedup_from seen (s # v) =
     (let trimmed_s = trim s in
      if trimmed_s \<noteq> [] \<and> trimmed_s \<notin> seen then s # dedup_from (insert trimmed_s seen) v
      else dedup_from seen v)"

definition dedup_strings :: "string list \<Rightarrow> string list" where
  "dedup_strings v = dedup_from {} v"

definition dedup_entry :: "admin_log_entry \<Rightarrow> admin_log_entry" where
  "dedup_entry entry =
     entry\<lparr>le_request_raw_images := dedup_strings (le_request_raw_images entry),
       le_request_raw_image_cache_hits := dedup_strings (le_request_raw_image_cache_hits entry),
       le_request_upstream_images := dedup_strings (le_request_upstream_images entry),
       le_response_images := dedup_strings (le_response_images entry)\<rparr>"

abbreviation "jstrings xs \<equiv> JArray (map JString xs)"
abbreviation "jword w \<equiv> jint (sint (w :: i64))"

text \<open>The derived \<^verbatim>\<open>Serialize\<close>, with \<^verbatim>\<open>rename_all = "camelCase"\<close>.\<close>

definition entry_json :: "admin_log_entry \<Rightarrow> json" where
  "entry_json e =
     JObject
       [(''id'', jword (le_id e)), (''createdAt'', JString (le_created_at e)),
        (''method'', JString (le_method e)), (''path'', JString (le_path e)),
        (''query'', JString (le_query e)), (''remoteAddr'', JString (le_remote_addr e)),
        (''isStream'', JBool (le_is_stream e)), (''outputMode'', JString (le_output_mode e)),
        (''statusCode'', jnat (le_status_code e)), (''durationMs'', jword (le_duration_ms e)),
        (''requestParseMs'', jword (le_request_parse_ms e)),
        (''requestImagePrepareMs'', jword (le_request_image_prepare_ms e)),
        (''requestImageMaterializeMs'', jword (le_request_image_materialize_ms e)),
        (''requestImageFetchWorkMs'', jword (le_request_image_fetch_work_ms e)),
        (''requestImageStoreWorkMs'', jword (le_request_image_store_work_ms e)),
        (''requestEncodeMs'', jword (le_request_encode_ms e)),
        (''upstreamBuildMs'', jword (le_upstream_build_ms e)),
        (''responseProcessMs'', jword (le_response_process_ms e)),
        (''uploadMs'', jword (le_upload_ms e)), (''finishReason'', JString (le_finish_reason e)),
        (''requestRaw'', JString (le_request_raw e)),
        (''requestRawImages'', jstrings (le_request_raw_images e)),
        (''requestRawImageCacheHits'', jstrings (le_request_raw_image_cache_hits e)),
        (''requestUpstream'', JString (le_request_upstream e)),
        (''requestUpstreamImages'', jstrings (le_request_upstream_images e)),
        (''responseDownstream'', JString (le_response_downstream e)),
        (''responseImages'', jstrings (le_response_images e)),
        (''errorSource'', JString (le_error_source e)), (''errorStage'', JString (le_error_stage e)),
        (''errorKind'', JString (le_error_kind e)), (''errorMessage'', JString (le_error_message e)),
        (''errorDetail'', JString (le_error_detail e)),
        (''upstreamStatusCode'', jnat (le_upstream_status_code e)),
        (''upstreamErrorBody'', JString (le_upstream_error_body e))]"

definition admin_logs_response :: "serde \<Rightarrow> admin_state \<Rightarrow> http_answer" where
  "admin_logs_response S st =
     json_answer S OK_200
       (JObject [(''items'', JArray (map (\<lambda>e. entry_json (dedup_entry e)) (ad_entries st)))])"

definition stats_payload :: "admin_stats \<Rightarrow> u64 \<times> u64 \<Rightarrow> json" where
  "stats_payload stats runtime_stats =
     JObject
       [(''totalRequests'', jword (as_total_requests stats)),
        (''errorRequests'', jword (as_error_requests stats)),
        (''totalDurationMs'', jword (as_total_duration_ms stats)),
        (''requestParseMs'', jword (as_request_parse_ms stats)),
        (''requestImagePrepareMs'', jword (as_request_image_prepare_ms stats)),
        (''requestImageMaterializeMs'', jword (as_request_image_materialize_ms stats)),
        (''requestImageFetchWorkMs'', jword (as_request_image_fetch_work_ms stats)),
        (''requestImageStoreWorkMs'', jword (as_request_image_store_work_ms stats)),
        (''requestEncodeMs'', jword (as_request_encode_ms stats)),
        (''upstreamBuildMs'', jword (as_upstream_build_ms stats)),
        (''responseProcessMs'', jword (as_response_process_ms stats)),
        (''uploadMs'', jword (as_upload_ms stats)), (''cacheHits'', jword (as_cache_hits stats)),
        (''spillCount'', jnat (unat (fst runtime_stats))),
        (''spillBytesTotal'', jnat (unat (snd runtime_stats)))]"

definition admin_stats_response :: "serde \<Rightarrow> admin_state \<Rightarrow> u64 \<times> u64 \<Rightarrow> http_answer" where
  "admin_stats_response S st runtime_stats =
     json_answer S OK_200 (stats_payload (ad_stats st) runtime_stats)"

definition apply_admin_stats :: "admin_stats \<Rightarrow> admin_log_entry \<Rightarrow> admin_stats" where
  "apply_admin_stats stats entry =
     stats\<lparr>as_total_requests := as_total_requests stats + 1,
       as_error_requests :=
         (if 400 \<le> le_status_code entry then as_error_requests stats + 1 else as_error_requests stats),
       as_total_duration_ms := as_total_duration_ms stats + le_duration_ms entry,
       as_request_parse_ms := as_request_parse_ms stats + le_request_parse_ms entry,
       as_request_image_prepare_ms := as_request_image_prepare_ms stats + le_request_image_prepare_ms entry,
       as_request_image_materialize_ms :=
         as_request_image_materialize_ms stats + le_request_image_materialize_ms entry,
       as_request_image_fetch_work_ms :=
         as_request_image_fetch_work_ms stats + le_request_image_fetch_work_ms entry,
       as_request_image_store_work_ms :=
         as_request_image_store_work_ms stats + le_request_image_store_work_ms entry,
       as_request_encode_ms := as_request_encode_ms stats + le_request_encode_ms entry,
       as_upstream_build_ms := as_upstream_build_ms stats + le_upstream_build_ms entry,
       as_response_process_ms := as_response_process_ms stats + le_response_process_ms entry,
       as_upload_ms := as_upload_ms stats + le_upload_ms entry\<rparr>"

definition extract_finish_reason :: "json \<Rightarrow> string option" where
  "extract_finish_reason body =
     Option.bind (Option.bind (jget ''candidates'' body) as_array) (\<lambda>candidates.
       Option.bind (case candidates of [] \<Rightarrow> None | c # _ \<Rightarrow> Some c) (\<lambda>candidate.
         Option.bind (jget ''finishReason'' candidate) as_str))"

section \<open>The log keeps the last entries\<close>

lemma pop_excess_take: "pop_excess xs = take ADMIN_LOG_CAPACITY xs"
proof (induction xs rule: pop_excess.induct)
  case (1 entries)
  show ?case
  proof (cases "ADMIN_LOG_CAPACITY < length entries")
    case True
    then have "take ADMIN_LOG_CAPACITY (butlast entries) = take ADMIN_LOG_CAPACITY entries"
      by (simp add: take_butlast)
    with 1 True show ?thesis by (subst pop_excess.simps) simp
  qed (subst pop_excess.simps, simp)
qed

text \<open>Recording an entry as \<^verbatim>\<open>finalize_admin_response\<close> does: the statistics, then the log.\<close>

definition log_entry :: "admin_state \<Rightarrow> admin_log_entry \<Rightarrow> admin_state" where
  "log_entry st entry = record_entry (st\<lparr>ad_stats := apply_admin_stats (ad_stats st) entry\<rparr>) entry"

text \<open>The specification keeps the whole history; entry number \<open>i\<close> of it has the identifier \<open>i + 1\<close>.\<close>

fun numbered :: "i64 \<Rightarrow> admin_log_entry list \<Rightarrow> admin_log_entry list" where
  "numbered n [] = []"
| "numbered n (e # es) = e\<lparr>le_id := n + 1\<rparr> # numbered (n + 1) es"

lemma numbered_snoc: "numbered n (es @ [e]) = numbered n es @ [e\<lparr>le_id := n + of_nat (length es) + 1\<rparr>]"
  by (induction es arbitrary: n) (simp_all add: algebra_simps)

lemma length_numbered [simp]: "length (numbered n es) = length es"
  by (induction es arbitrary: n) simp_all

definition history_of :: "string \<Rightarrow> admin_log_entry list \<Rightarrow> admin_state" where
  "history_of password es =
     \<lparr>ad_password = password, ad_next_id = of_nat (length es),
      ad_entries = take ADMIN_LOG_CAPACITY (rev (numbered 0 es)),
      ad_stats = foldl apply_admin_stats stats_default es\<rparr>"

lemma history_step: "log_entry (history_of p es) e = history_of p (es @ [e])"
proof -
  have "take ADMIN_LOG_CAPACITY (x # take ADMIN_LOG_CAPACITY xs) = take ADMIN_LOG_CAPACITY (x # xs)" for x :: admin_log_entry and xs
    by (simp add: ADMIN_LOG_CAPACITY_def take_Cons')
  then show ?thesis
    by (simp add: log_entry_def record_entry_def history_of_def pop_excess_take numbered_snoc Let_def algebra_simps)
qed

lemma stats_of_history:
  "as_total_requests (foldl apply_admin_stats stats es) = as_total_requests stats + of_nat (length es)"
  "as_error_requests (foldl apply_admin_stats stats es)
     = as_error_requests stats + of_nat (length (filter (\<lambda>e. 400 \<le> le_status_code e) es))"
  "as_total_duration_ms (foldl apply_admin_stats stats es)
     = as_total_duration_ms stats + sum_list (map le_duration_ms es)"
  "as_cache_hits (foldl apply_admin_stats stats es) = as_cache_hits stats"
  by (induction es arbitrary: stats) (simp_all add: apply_admin_stats_def algebra_simps)

text \<open>
  (C13) After any sequence of finished requests the log shows the last hundred of them, newest first,
  each with its number as identifier, and the statistics count all of them: the requests, those
  answered with an error status, and the sum of their durations (as 64-bit words, wrapping).
\<close>

theorem admin_log_refines_history:
  "foldl log_entry (admin_state_new password) es = history_of password es
   \<and> length (ad_entries (history_of password es)) = min 100 (length es)
   \<and> as_total_requests (ad_stats (history_of password es)) = of_nat (length es)
   \<and> as_error_requests (ad_stats (history_of password es))
       = of_nat (length (filter (\<lambda>e. 400 \<le> le_status_code e) es))
   \<and> as_total_duration_ms (ad_stats (history_of password es)) = sum_list (map le_duration_ms es)"
proof -
  have "foldl log_entry (admin_state_new password) es = history_of password es"
  proof (induction es rule: rev_induct)
    case Nil
    show ?case by (simp add: history_of_def admin_state_new_def)
  next
    case (snoc e es)
    then show ?case by (simp add: history_step)
  qed
  then show ?thesis
    by (simp add: stats_of_history history_of_def stats_default_def ADMIN_LOG_CAPACITY_def min.commute)
qed

section \<open>The password check\<close>

lemma b64_text_plain: "b64_text_char c \<Longrightarrow> plain_char c"
  by (auto simp: b64_text_char_def b64_value_def plain_char_def Let_def bval_def split: if_splits)

lemma trim_encoded:
  assumes "base64_laws B"
  shows "trim (b64_encode B s) = b64_encode B s"
proof (cases "b64_encode B s = []")
  case False
  have "list_all b64_text_char (b64_encode B s)" by (rule base64_chars [OF assms])
  then have "\<forall>c \<in> set (b64_encode B s). plain_char c" by (auto simp: list_all_iff b64_text_plain)
  with False show ?thesis by (intro trim_plain) (auto simp: hd_in_set last_in_set)
qed simp

text \<open>Credentials in the form of RFC 7617 are accepted exactly when they hold the password.\<close>

lemma basic_auth_iff:
  assumes "base64_laws B" "CHR '':'' \<notin> set user" "utf8_valid (user @ CHR '':'' # password)"
    and "map_of headers ''authorization'' = Some v"
    and "to_str v = Some (''Basic '' @ b64_encode B (user @ CHR '':'' # password))"
  shows "check_basic_auth B to_str st headers \<longleftrightarrow> admin_enabled st \<and> password = ad_password st"
proof -
  have "strip_prefix (''Basic '' @ e) ''Basic '' = Some e" for e by (simp add: strip_prefix_Some_iff)
  then show ?thesis
    using assms by (simp add: check_basic_auth_def trim_encoded [OF assms(1)] base64_decode_encode [OF assms(1)])
qed

lemma basic_auth_accepted:
  assumes "check_basic_auth B to_str st headers"
  shows "\<exists>v raw e decoded user. map_of headers ''authorization'' = Some v \<and> to_str v = Some raw
    \<and> raw = ''Basic '' @ e \<and> b64_decode B (trim e) = Ok decoded
    \<and> decoded = user @ CHR '':'' # ad_password st \<and> ad_password st \<noteq> []"
  using assms
  by (auto simp: check_basic_auth_def admin_enabled_def strip_prefix_Some_iff bind_eq_Some_conv
      split: if_splits option.splits sum.splits dest!: split_once_SomeD)

end
