(* ===== verification/Router_Env.thy ===== *)
theory Router_Env
  imports Router_Values Block_Answers Admin_Log Grsai Upstream
begin

text \<open>
  The state of the running proxy (\<^verbatim>\<open>AppState\<close> of \<^verbatim>\<open>src/http/router.rs\<close>), how it is built, and the
  environment a request is handled in: the libraries, the answers of the upstream to the calls the
  handler makes, the times it reads, and the measured durations.
\<close>

section \<open>Calls to the upstream\<close>

datatype upstream_body =
    NoBody
  | JsonBody json
  | StreamBody "(string, string) result list"
  | FormBody "edit_part list"

record upstream_request =
  xq_method :: string
  xq_url :: string
  xq_headers :: "(string \<times> string) list"
  xq_body :: upstream_body

text \<open>The head of an answer, and its body as \<^verbatim>\<open>bytes().await\<close> gives it.\<close>

record upstream_answer =
  xa_status :: status
  xa_content_type :: "string option"
  xa_body :: "(reqwest_error, string) result"

type_synonym upstream_send = "upstream_request \<Rightarrow> (reqwest_error, upstream_answer) result"

definition content_type_or_json :: "upstream_answer \<Rightarrow> string" where
  "content_type_or_json a = unwrap_or (xa_content_type a) APPLICATION_JSON"

text \<open>\<^verbatim>\<open>response.json().await\<close>: the body is read and parsed; which of the two failed is not looked at.\<close>

definition answer_json :: "serde \<Rightarrow> upstream_answer \<Rightarrow> json option" where
  "answer_json S a =
     (case xa_body a of
        Err _ \<Rightarrow> None
      | Ok b \<Rightarrow> (case from_slice S b of Err _ \<Rightarrow> None | Ok v \<Rightarrow> Some v))"

definition bearer :: "string \<Rightarrow> string \<times> string" where
  "bearer api_key = (''authorization'', ''Bearer '' @ api_key)"

text \<open>The error of a body that breaks off.\<close>

definition read_body_error :: "reqwest_error \<Rightarrow> anyhow" where
  "read_body_error err =
     StructuredProxyError
       \<lparr>se_message = MSG_READ_UPSTREAM_BODY_FAILED, se_stage = ''read_upstream_body'',
        se_kind = ''body_truncated'', se_detail = error_text err\<rparr>"

section \<open>The environment of a request\<close>

record ('u, 'i, 'l, 'b) router_env =
  rx_url :: "'u url_api"
  rx_serde :: serde
  rx_fmt :: fmt_api
  rx_b64 :: base64_api
  rx_block :: "'b block_lru"
  rx_images :: "'i image_api"
  rx_sha256_hex :: "string \<Rightarrow> string"
  rx_to_str :: "string \<Rightarrow> string option"
  rx_timestamp :: "string \<Rightarrow> int option"
  rx_mime_error :: "string \<Rightarrow> anyhow option"
  rx_debug_option :: "string option \<Rightarrow> string"
  rx_materialize :: "('u, 'l, 'i) materialize_env"
  rx_encode :: encode_env
  rx_pipe :: pipe_env
  rx_remove_io :: "u64 \<Rightarrow> fault_schedule"
  rx_read_io :: fault_schedule
  rx_open_io :: fault_schedule
  rx_chunker :: chunker
  rx_edit :: "('u, 'l) response_env"
  rx_response :: "('u, 'l) response_env"
  rx_uploads :: "nat \<Rightarrow> 'u upload_env"
  rx_send :: upstream_send
  rx_poll :: "nat \<Rightarrow> upstream_send"
  rx_poll_start :: nat
  rx_poll_now :: "nat \<Rightarrow> nat"
  rx_lookup_now :: nat
  rx_store_now :: nat
  rx_poll_store_now :: "nat \<Rightarrow> nat"
  rx_unix_now :: int
  rx_created_at :: string
  rx_ms :: "string \<Rightarrow> i64"

section \<open>The state\<close>

record app =
  ap_config :: config
  ap_request_service :: "fetch_service option"
  ap_response_service :: "fetch_service option"

text \<open>
  The two fetch services keep their images in one directory, so the state holds its files once;
  \<open>st_files\<close> of the two stored service states is not looked at.
\<close>

record ('l, 'b) app_state =
  aq_files :: dir_files
  aq_request_fetch :: "'l fetch_state"
  aq_response_fetch :: "'l fetch_state"
  aq_runtime :: blob_runtime
  aq_block :: "'b upstream_block_cache option"
  aq_admin :: "admin_state option"

definition request_fetch :: "('l, 'b) app_state \<Rightarrow> 'l fetch_state" where
  "request_fetch st = (aq_request_fetch st)\<lparr>st_files := aq_files st\<rparr>"

definition response_fetch :: "('l, 'b) app_state \<Rightarrow> 'l fetch_state" where
  "response_fetch st = (aq_response_fetch st)\<lparr>st_files := aq_files st\<rparr>"

definition set_request_fetch :: "'l fetch_state \<Rightarrow> ('l, 'b) app_state \<Rightarrow> ('l, 'b) app_state" where
  "set_request_fetch s st = st\<lparr>aq_request_fetch := s, aq_files := st_files s\<rparr>"

definition set_response_fetch :: "'l fetch_state \<Rightarrow> ('l, 'b) app_state \<Rightarrow> ('l, 'b) app_state" where
  "set_response_fetch s st = st\<lparr>aq_response_fetch := s, aq_files := st_files s\<rparr>"

text \<open>
  \<^verbatim>\<open>build_router\<close>: \<open>no_service\<close> is the state of a fetch service that is not there, \<open>fs\<close> the files
  under the spill directory and \<open>files\<close> those of the image cache. (The HTTP clients it builds are
  what \<open>rx_send\<close> and the fetch environments answer for; the routes are the operations of
  \<open>Router\<close>.)
\<close>

definition build_router ::
  "'l memory_lru \<Rightarrow> 'b block_lru \<Rightarrow> 'l fetch_state \<Rightarrow> dir_files \<Rightarrow> fsys \<Rightarrow> config \<Rightarrow> app \<times> ('l, 'b) app_state" where
  "build_router M B no_service files fs cfg =
     (let admin = (if blank (admin_password cfg) then None else Some (admin_state_new (admin_password cfg)));
          request_inline_data_fetch_service = from_config M cfg files REQUEST_MAX_IMAGE_BYTES False;
          response_inline_data_fetch_service = from_response_config M cfg files DEFAULT_MAX_IMAGE_BYTES False;
          blob_rt = blob_runtime_new
            \<lparr>bc_inline_max_bytes = of_nat (blob_inline_max_bytes cfg),
             bc_request_hot_budget_bytes = of_nat (blob_request_hot_budget_bytes cfg),
             bc_global_hot_budget_bytes = of_nat (blob_global_hot_budget_bytes cfg),
             bc_spill_dir = blob_spill_dir cfg\<rparr> fs;
          upstream_block_cache =
            block_cache_new B (upstream_block_cache_ttl cfg) (upstream_block_cache_max_entries cfg)
      in (\<lparr>ap_config = cfg, ap_request_service = map_option fst request_inline_data_fetch_service,
           ap_response_service = map_option fst response_inline_data_fetch_service\<rparr>,
          \<lparr>aq_files = files,
           aq_request_fetch = (case request_inline_data_fetch_service of None \<Rightarrow> no_service | Some s \<Rightarrow> snd s),
           aq_response_fetch = (case response_inline_data_fetch_service of None \<Rightarrow> no_service | Some s \<Rightarrow> snd s),
           aq_runtime = blob_rt, aq_block = upstream_block_cache, aq_admin = admin\<rparr>))"

end
