(* ===== verification/Router_Answers.thy ===== *)
theory Router_Answers
  imports Router_Env Response_Materialize
begin

text \<open>
  How \<^verbatim>\<open>src/http/router.rs\<close> turns the upstream's answer into its own: for Gemini requests, for OpenAI
  image requests, and for both kinds of request to grsai. A handler returns the answer and the two
  measured durations, or an error its caller reports.
\<close>

record response_stage_durations =
  rs_response_process_ms :: i64
  rs_upload_ms :: i64

definition i64_saturating_sub :: "i64 \<Rightarrow> i64 \<Rightarrow> i64" where
  "i64_saturating_sub a b = word_of_int (max (- (2 ^ 63)) (min (2 ^ 63 - 1) (sint a - sint b)))"

type_synonym handled = "(http_answer \<times> response_stage_durations) fallible"

text \<open>\<^verbatim>\<open>serde_json::to_vec(..)?\<close>: the error becomes an \<^verbatim>\<open>anyhow\<close> one.\<close>

definition to_vec_or_fail :: "serde \<Rightarrow> json \<Rightarrow> string fallible" where
  "to_vec_or_fail S v = (case to_vec S v of Err e \<Rightarrow> Err (Message e) | Ok b \<Rightarrow> Ok b)"

definition without_upload :: "('u, 'i, 'l, 'b) router_env \<Rightarrow> http_answer \<Rightarrow> handled" where
  "without_upload E response =
     Ok (response, \<lparr>rs_response_process_ms = rx_ms E ''response_process_ms'', rs_upload_ms = 0\<rparr>)"

definition with_upload :: "('u, 'i, 'l, 'b) router_env \<Rightarrow> i64 \<Rightarrow> http_answer \<Rightarrow> handled" where
  "with_upload E upload_ms response =
     Ok (response,
       \<lparr>rs_response_process_ms = i64_saturating_sub (rx_ms E ''total_process_ms'') upload_ms,
        rs_upload_ms = upload_ms\<rparr>)"

section \<open>Gemini answers\<close>

text \<open>The error of an upstream: annotated, remembered when it is a refusal, passed on.\<close>

definition gemini_error_response ::
  "('u, 'i, 'l, 'b) router_env \<Rightarrow> string option \<Rightarrow> status \<Rightarrow> string \<Rightarrow> string \<Rightarrow> 'b upstream_block_cache option
   \<Rightarrow> http_answer \<times> 'b upstream_block_cache option" where
  "gemini_error_response E key upstream_status content_type body_bytes cache =
     (let response_body_bytes = unwrap_or (annotate_upstream_error_json (rx_serde E) upstream_status body_bytes) body_bytes
      in pass_on_error (rx_block E) (rx_serde E) cache key (rx_store_now E) upstream_status content_type
           response_body_bytes)"

text \<open>The JSON of a success: one image kept, re-encoded, and uploaded when the client wants URLs.\<close>

definition gemini_final_json ::
  "('u, 'i, 'l, 'b) router_env \<Rightarrow> config \<Rightarrow> fetch_service option \<Rightarrow> output_mode \<Rightarrow> json \<Rightarrow> 'l fetch_state
   \<Rightarrow> (json \<times> i64) fallible option \<times> 'l fetch_state" where
  "gemini_final_json E cfg fetch_service mode json_body fs =
     (case normalize_special_markdown_image_response (rx_response E) json_body mode fetch_service cfg fs of
        (None, fs) \<Rightarrow> (None, fs)
      | (Some (Err e), fs) \<Rightarrow> (Some (Err e), fs)
      | (Some (Ok final_json), fs) \<Rightarrow>
          (case optimize_inline_data_images (rx_images E) (rx_b64 E)
              (keep_largest_inline_image (remove_thought_signatures final_json)) cfg of
             (Err e, _) \<Rightarrow> (Some (Err e), fs)
           | (Ok _, final_json) \<Rightarrow>
               if mode = OutputUrl then
                 (case finalize_output_urls (rx_uploads E) final_json cfg of
                    (Err e, _) \<Rightarrow> (Some (Err e), fs)
                  | (Ok _, final_json) \<Rightarrow> (Some (Ok (final_json, rx_ms E ''upload_ms'')), fs))
               else (Some (Ok (final_json, 0)), fs)))"

definition handle_non_stream_response ::
  "('u, 'i, 'l, 'b) router_env \<Rightarrow> config \<Rightarrow> fetch_service option \<Rightarrow> output_mode \<Rightarrow> string option \<Rightarrow> upstream_answer
   \<Rightarrow> 'b upstream_block_cache option \<Rightarrow> 'l fetch_state
   \<Rightarrow> handled option \<times> 'b upstream_block_cache option \<times> 'l fetch_state" where
  "handle_non_stream_response E cfg fetch_service mode key upstream_response cache fs =
     (let S = rx_serde E; status = xa_status upstream_response; content_type = content_type_or_json upstream_response in
      case xa_body upstream_response of
        Err err \<Rightarrow> (Some (Err (read_body_error err)), cache, fs)
      | Ok body_bytes \<Rightarrow>
          if \<not> is_success status
          then (case gemini_error_response E key status content_type body_bytes cache of
             (response, cache) \<Rightarrow> (Some (without_upload E response), cache, fs))
          else (case from_slice S body_bytes of
              Err _ \<Rightarrow> (Some (without_upload E (raw_response_with_body status content_type body_bytes)), cache, fs)
            | Ok json_body \<Rightarrow>
                (case gemini_final_json E cfg fetch_service mode json_body fs of
                   (None, fs) \<Rightarrow> (None, cache, fs)
                 | (Some (Err e), fs) \<Rightarrow> (Some (Err e), cache, fs)
                 | (Some (Ok (final_json, upload_ms)), fs) \<Rightarrow>
                     (case to_vec_or_fail S final_json of
                        Err e \<Rightarrow> (Some (Err e), cache, fs)
                      | Ok final_body \<Rightarrow>
                          (Some (with_upload E upload_ms (raw_response_with_body status content_type final_body)),
                           cache, fs)))))"

section \<open>OpenAI answers\<close>

definition decode_error :: "string \<Rightarrow> string \<Rightarrow> anyhow" where
  "decode_error stage err =
     StructuredProxyError
       \<lparr>se_message = MSG_DECODE_UPSTREAM_B64_FAILED, se_stage = stage, se_kind = ''invalid_base64'', se_detail = err\<rparr>"

text \<open>Checking and uploading one base64 image; \<open>n\<close> is the number of the item.\<close>

definition upload_openai_image ::
  "('u, 'i, 'l, 'b) router_env \<Rightarrow> config \<Rightarrow> nat \<Rightarrow> string \<Rightarrow> string \<Rightarrow> string \<Rightarrow> uploaded_image fallible" where
  "upload_openai_image E cfg n stage mime_type data_base64 =
     (case b64_decode (rx_b64 E) data_base64 of
        Err err \<Rightarrow> Err (decode_error stage err)
      | Ok decoded \<Rightarrow>
          (let detected_mime_type = unwrap_or (sniff_image_mime_type decoded) mime_type in
           case upload_inline_data_base64 (rx_uploads E n) cfg data_base64 detected_mime_type of
             Err e \<Rightarrow> Err e
           | Ok upload_result \<Rightarrow>
               Ok \<lparr>um_url = build_openai_image_output_url (rx_url E) cfg (ul_provider upload_result)
                     (ul_url upload_result)\<rparr>))"

definition upload_openai_item ::
  "('u, 'i, 'l, 'b) router_env \<Rightarrow> config \<Rightarrow> nat \<Rightarrow> openai_image_item \<Rightarrow> uploaded_image fallible" where
  "upload_openai_item E cfg n image_item =
     (case image_item of
        B64Json base64_image \<Rightarrow> upload_openai_image E cfg n ''decode_b64_json'' ''image/png'' base64_image
      | DataUrl mime_type data_base64 \<Rightarrow> upload_openai_image E cfg n ''decode_data_url'' mime_type data_base64
      | ImageUrl url \<Rightarrow> Ok \<lparr>um_url = build_openai_image_output_url (rx_url E) cfg ''direct'' url\<rparr>)"

text \<open>The loop over the items; it stops at the first error.\<close>

fun upload_openai_items ::
  "('u, 'i, 'l, 'b) router_env \<Rightarrow> config \<Rightarrow> nat \<Rightarrow> openai_image_item list \<Rightarrow> uploaded_image list fallible" where
  "upload_openai_items E cfg n [] = Ok []"
| "upload_openai_items E cfg n (image_item # image_items) =
     (case upload_openai_item E cfg n image_item of
        Err e \<Rightarrow> Err e
      | Ok uploaded \<Rightarrow>
          (case upload_openai_items E cfg (n + 1) image_items of Err e \<Rightarrow> Err e | Ok us \<Rightarrow> Ok (uploaded # us)))"

definition openai_final_body :: "('u, 'i, 'l, 'b) router_env \<Rightarrow> config \<Rightarrow> string \<Rightarrow> string fallible" where
  "openai_final_body E cfg body_bytes =
     (case from_slice (rx_serde E) body_bytes of
        Err err \<Rightarrow> Err (StructuredProxyError
          \<lparr>se_message = MSG_PARSE_UPSTREAM_JSON_FAILED, se_stage = ''parse_upstream_response'',
           se_kind = ''invalid_json'', se_detail = err\<rparr>)
      | Ok upstream_body \<Rightarrow>
          (case extract_openai_image_items upstream_body of
             Err e \<Rightarrow> Err e
           | Ok image_items \<Rightarrow>
               (case upload_openai_items E cfg 0 image_items of
                  Err e \<Rightarrow> Err e
                | Ok uploaded \<Rightarrow>
                    (case build_response_payload (rx_timestamp E) upstream_body uploaded (rx_unix_now E) of
                       Err e \<Rightarrow> Err e
                     | Ok final_json \<Rightarrow> to_vec_or_fail (rx_serde E) final_json))))"

definition handle_openai_image_response ::
  "('u, 'i, 'l, 'b) router_env \<Rightarrow> config \<Rightarrow> string option \<Rightarrow> upstream_answer \<Rightarrow> 'b upstream_block_cache option
   \<Rightarrow> handled \<times> 'b upstream_block_cache option" where
  "handle_openai_image_response E cfg key upstream_response cache =
     (let status = xa_status upstream_response; content_type = content_type_or_json upstream_response in
      case xa_body upstream_response of
        Err err \<Rightarrow> (Err (read_body_error err), cache)
      | Ok body_bytes \<Rightarrow>
          if \<not> is_success status
          then (case pass_on_error (rx_block E) (rx_serde E) cache key (rx_store_now E) status content_type body_bytes of
             (response, cache) \<Rightarrow> (without_upload E response, cache))
          else (case openai_final_body E cfg body_bytes of
              Err e \<Rightarrow> (Err e, cache)
            | Ok final_body \<Rightarrow>
                (with_upload E (rx_ms E ''upload_ms'') (raw_response_with_body OK_200 APPLICATION_JSON final_body), cache)))"

section \<open>grsai answers\<close>

definition grsai_payload :: "string \<Rightarrow> string \<Rightarrow> json" where
  "grsai_payload mime_type data =
     JObject
       [(''candidates'', JArray [JObject
          [(''content'', JObject
             [(''role'', JString ''model''),
              (''parts'', JArray [JObject [(''inlineData'', JObject
                 [(''mimeType'', JString mime_type), (''data'', JString data)])]])]),
           (''finishReason'', JString ''STOP''), (''safetyRatings'', JArray [])]]),
        (''usageMetadata'', JObject
          [(''promptTokenCount'', jint 1), (''candidatesTokenCount'', jint 1), (''totalTokenCount'', jint 2)])]"

definition build_grsai_gemini_response ::
  "('u, 'i, 'l, 'b) router_env \<Rightarrow> config \<Rightarrow> fetch_service option \<Rightarrow> output_mode \<Rightarrow> string \<Rightarrow> 'l fetch_state
   \<Rightarrow> http_answer fallible option \<times> 'l fetch_state" where
  "build_grsai_gemini_response E cfg fetch_service mode image_url fs =
     (let answer = (\<lambda>data mime_type. map_sum id (raw_response_with_body OK_200 APPLICATION_JSON)
            (to_vec_or_fail (rx_serde E) (grsai_payload mime_type data))) in
      case mode of
        OutputUrl \<Rightarrow>
          (Some (answer (output_image_url (rx_url E) cfg image_url) (normalize_image_mime_type None image_url)), fs)
      | OutputBase64 \<Rightarrow>
          (case fetch_output_image (rx_response E) fetch_service 0 image_url fs of
             (None, fs) \<Rightarrow> (None, fs)
           | (Some (Err e), fs) \<Rightarrow> (Some (Err e), fs)
           | (Some (Ok fetched), fs) \<Rightarrow>
               (Some (answer (b64_encode (rx_b64 E) (fi_bytes fetched)) (fi_mime_type fetched)), fs)))"

definition downstream_grsai_error_message :: "grsai_error \<Rightarrow> string" where
  "downstream_grsai_error_message err =
     (if ge_http_status err = UNAUTHORIZED then MSG_GRSAI_AUTH_FAILED
      else if ge_http_status err = TOO_MANY_REQUESTS then MSG_GRSAI_RATE_LIMITED
      else if contains_str (ge_message err) MSG_GRSAI_PARSE_MARK then MSG_PARSE_UPSTREAM_JSON_FAILED
      else MSG_UPSTREAM_REQUEST_FAILED)"

definition grsai_error_entry ::
  "admin_log_entry \<Rightarrow> status \<Rightarrow> string \<Rightarrow> string \<Rightarrow> string \<Rightarrow> string \<Rightarrow> admin_log_entry" where
  "grsai_error_entry admin_entry status message stage kind detail =
     admin_entry\<lparr>le_status_code := status, le_error_source := ''proxy'', le_error_stage := stage,
       le_error_kind := kind, le_error_message := message, le_error_detail := detail\<rparr>"

definition grsai_proxy_error_response ::
  "serde \<Rightarrow> admin_log_entry \<Rightarrow> status \<Rightarrow> string \<Rightarrow> string \<Rightarrow> string \<Rightarrow> string \<Rightarrow> http_answer \<times> admin_log_entry" where
  "grsai_proxy_error_response S admin_entry status message stage kind detail =
     (proxy_error_response S status message stage kind,
      grsai_error_entry admin_entry status message stage kind detail)"

definition grsai_openai_proxy_error_response ::
  "serde \<Rightarrow> admin_log_entry \<Rightarrow> status \<Rightarrow> string \<Rightarrow> string \<Rightarrow> string \<Rightarrow> string \<Rightarrow> http_answer \<times> admin_log_entry" where
  "grsai_openai_proxy_error_response S admin_entry status message stage kind detail =
     (if stage = ''parse_upstream_response''
         \<and> kind \<in> {''upstream_auth_failed'', ''upstream_rate_limited'', ''upstream_request_failed''}
      then openai_upstream_error_response S status message stage kind
      else proxy_error_response S status message stage kind,
      grsai_error_entry admin_entry status message stage kind detail)"

definition grsai_error_kind :: "grsai_error \<Rightarrow> string" where
  "grsai_error_kind err =
     (if contains_str (ge_message err) MSG_GRSAI_PARSE_MARK then ''invalid_json''
      else if ge_http_status err = UNAUTHORIZED then ''upstream_auth_failed''
      else if ge_http_status err = TOO_MANY_REQUESTS then ''upstream_rate_limited''
      else ''upstream_request_failed'')"

text \<open>\<open>debug\<close> prints an \<^verbatim>\<open>Option<String>\<close> with \<^verbatim>\<open>{:?}\<close>.\<close>

definition not_succeeded_detail :: "(string option \<Rightarrow> string) \<Rightarrow> grsai_result \<Rightarrow> string" where
  "not_succeeded_detail debug parsed =
     ''grsai status not succeeded: status='' @ gr_status parsed @ '', failure_reason='' @ debug (gr_failure_reason parsed)
     @ '', error_detail='' @ debug (gr_error_detail parsed)"

text \<open>
  What both grsai handlers do with the body of the answer: the result and its first image, or the
  arguments of the error response (status, message, kind, detail).
\<close>

definition grsai_outcome ::
  "('u, 'i, 'l, 'b) router_env \<Rightarrow> status \<Rightarrow> string \<Rightarrow> (status \<times> string \<times> string \<times> string, grsai_result \<times> string) result" where
  "grsai_outcome E status body_bytes =
     (case parse_grsai_response (rx_serde E) (rx_fmt E) status body_bytes of
        Err err \<Rightarrow> Err (ge_http_status err, downstream_grsai_error_message err, grsai_error_kind err, ge_message err)
      | Ok parsed \<Rightarrow>
          if \<not> eq_ignore_case (gr_status parsed) ''succeeded''
          then Err (BAD_GATEWAY, MSG_UPSTREAM_REQUEST_FAILED, ''upstream_status_not_succeeded'',
            not_succeeded_detail (rx_debug_option E) parsed)
          else (case gr_image_urls parsed of
              [] \<Rightarrow> Err (BAD_GATEWAY, MSG_UPSTREAM_REQUEST_FAILED, ''missing_image_url'',
                ''grsai response missing image url'')
            | image_url # _ \<Rightarrow> Ok (parsed, image_url)))"

end
