(* ===== verification/Router_Samples.thy ===== *)
theory Router_Samples
  imports Router_Env Response_Materialize
begin

text \<open>
  The environment the witnesses of the router run in: the library instances of the other theories, an
  upstream that refuses every request with the answer \<open>sample_refusal\<close>, and polls answered with
  a task that is still running, once a second.
\<close>

definition sample_error :: "string \<Rightarrow> json" where
  "sample_error message =
     JObject [(''error'', JObject
       [(''code'', jnat 400), (''message'', JString message), (''source'', JString ''upstream''),
        (''stage'', JString ''s''), (''kind'', JString ''k'')])]"

definition sample_refusal :: json where
  "sample_refusal = sample_error ''IMAGE_UNSAFE''"

definition sample_refused :: json where
  "sample_refused = sample_error MSG_UPSTREAM_BLOCKED_INPUT"

definition sample_router_serde :: serde where
  "sample_router_serde =
     sample_serde
       [(''{}'', JObject []),
        (''{T}'', JObject [(''status'', JString ''running'')]),
        (sample_print sample_refused, sample_refused), (sample_print sample_refusal, sample_refusal)]"

definition sample_running :: upstream_send where
  "sample_running _ = Ok \<lparr>xa_status = OK_200, xa_content_type = None, xa_body = Ok ''{T}''\<rparr>"

definition sample_refusing :: upstream_send where
  "sample_refusing _ =
     Ok \<lparr>xa_status = BAD_REQUEST, xa_content_type = None, xa_body = Ok (sample_print sample_refusal)\<rparr>"

definition sample_router_env ::
  "(sample_u, unit, (string, memory_entry) lru_state, (string, stored_block_response) lru_state) router_env" where
  "sample_router_env =
     \<lparr>rx_url = sample_url, rx_serde = sample_router_serde, rx_fmt = sample_fmt, rx_b64 = base64_std,
      rx_block = lru_list, rx_images = sample_image_api, rx_sha256_hex = (\<lambda>s. take 8 s), rx_to_str = Some,
      rx_timestamp = (\<lambda>_. None), rx_mime_error = (\<lambda>_. None),
      rx_debug_option = (\<lambda>x. case x of None \<Rightarrow> ''None'' | Some s \<Rightarrow> s),
      rx_materialize = sample_materialize_env sample_get_one, rx_encode = sample_encode_env, rx_pipe = sample_pipe,
      rx_remove_io = (\<lambda>_. no_faults), rx_read_io = no_faults, rx_open_io = no_faults, rx_chunker = one_chunk,
      rx_edit = sample_response_env, rx_response = sample_response_env, rx_uploads = (\<lambda>_. sample_upload_env),
      rx_send = sample_refusing, rx_poll = (\<lambda>_. sample_running), rx_poll_start = 0,
      rx_poll_now = (\<lambda>n. n * 1000), rx_lookup_now = 2, rx_store_now = 5, rx_poll_store_now = (\<lambda>_. 5),
      rx_unix_now = 1738307109, rx_created_at = ''2025-01-31T07:05:09Z'', rx_ms = (\<lambda>_. 1)\<rparr>"

definition sample_block_cache :: "(string, stored_block_response) lru_state upstream_block_cache" where
  "sample_block_cache = \<lparr>ub_ttl = 1000, ub_entries = lru_new lru_list (Some 10)\<rparr>"

lemma sample_block_cache_ok: "block_ok lru_list (\<lambda>_. None) 1000 10 sample_block_cache"
  by (simp add: block_ok_def sample_block_cache_def lru_list.new)

lemma sample_refusal_text:
  "sample_print sample_refusal =
     CHR ''{'' # CHR 0x22 # ''error'' @ [CHR 0x22, CHR '':''] @ ''{'' @ [CHR 0x22] @ ''code'' @ [CHR 0x22] @ '':400,''
       @ [CHR 0x22] @ ''message'' @ [CHR 0x22, CHR '':'', CHR 0x22] @ ''IMAGE_UNSAFE'' @ [CHR 0x22, CHR '','', CHR 0x22]
       @ ''source'' @ [CHR 0x22, CHR '':'', CHR 0x22] @ ''upstream'' @ [CHR 0x22, CHR '','', CHR 0x22]
       @ ''stage'' @ [CHR 0x22, CHR '':'', CHR 0x22] @ ''s'' @ [CHR 0x22, CHR '','', CHR 0x22]
       @ ''kind'' @ [CHR 0x22, CHR '':'', CHR 0x22] @ ''k'' @ [CHR 0x22] @ ''}}''"
  by code_simp

lemma sample_refusal_classified:
  "classify_blockable_upstream_error BAD_REQUEST (sample_print sample_refusal) = Some ''image_unsafe''"
proof -
  have "utf8_valid (sample_print sample_refusal)"
    unfolding sample_refusal_text by (simp add: utf8_valid_steps bval_def)
  moreover have "contains_str (to_lower (sample_print sample_refusal)) ''image_unsafe''" by code_simp
  ultimately show ?thesis by (simp add: classify_blockable_upstream_error_def utf8_lossy_valid)
qed

lemma sample_router_serde_eval:
  "from_slice sample_router_serde ''{}'' = Ok (JObject [])"
  "from_slice sample_router_serde (sample_print sample_refusal) = Ok sample_refusal"
  "to_vec sample_router_serde v = Ok (sample_print v)"
  "from_slice sample_router_serde (sample_print sample_refused) = Ok sample_refused"
proof -
  have t: "sample_print sample_refusal \<noteq> ''{}''" "sample_print sample_refusal \<noteq> ''{T}''"
    "sample_print sample_refused \<noteq> ''{}''" "sample_print sample_refused \<noteq> ''{T}''"
    "sample_print sample_refused \<noteq> sample_print sample_refusal"
    by (simp_all add: sample_refusal_def sample_refused_def sample_error_def MSG_UPSTREAM_BLOCKED_INPUT_def)
  show "from_slice sample_router_serde ''{}'' = Ok (JObject [])"
    "to_vec sample_router_serde v = Ok (sample_print v)"
    "from_slice sample_router_serde (sample_print sample_refusal) = Ok sample_refusal"
    "from_slice sample_router_serde (sample_print sample_refused) = Ok sample_refused"
    using t t(5) [symmetric] by (simp_all add: sample_router_serde_def sample_serde_def)
qed

lemma sample_refusal_annotated:
  "annotate_upstream_error_json sample_router_serde BAD_REQUEST (sample_print sample_refusal)
     = Some (sample_print sample_refusal)"
  by (simp add: annotate_upstream_error_json_def sample_router_serde_eval)
    (simp add: sample_refusal_def sample_error_def annotate_error_def obj_or_insert_def obj_has_def jget_def
      sample_router_serde_eval(3))

lemma sample_refusal_reads_back:
  assumes "with_blocked_message sample_refusal = Some w"
  shows "reads_back sample_router_serde w"
proof -
  have "with_blocked_message sample_refusal = Some sample_refused"
    by (simp add: with_blocked_message_def sample_refusal_def sample_refused_def sample_error_def jget_def)
  with assms show ?thesis by (simp add: reads_back_def sample_router_serde_eval)
qed

end
