(* ===== verification/Router_Openai.thy ===== *)
theory Router_Openai
  imports Router_Answers Router_Samples
begin

text \<open>What a client of the image API gets for a successful answer of the upstream.\<close>

definition stored_at ::
  "('u, 'i, 'l, 'b) router_env \<Rightarrow> config \<Rightarrow> nat \<Rightarrow> string \<Rightarrow> string \<Rightarrow> string \<Rightarrow> bool" where
  "stored_at E cfg n mime_type data_base64 url \<longleftrightarrow>
     (\<exists>bytes r. b64_decode (rx_b64 E) data_base64 = Ok bytes
        \<and> upload_inline_data_base64 (rx_uploads E n) cfg data_base64 (unwrap_or (sniff_image_mime_type bytes) mime_type) = Ok r
        \<and> url = build_openai_image_output_url (rx_url E) cfg (ul_provider r) (ul_url r))"

text \<open>The URL an image of the upstream is answered with.\<close>

definition item_url :: "('u, 'i, 'l, 'b) router_env \<Rightarrow> config \<Rightarrow> nat \<Rightarrow> openai_image_item \<Rightarrow> string \<Rightarrow> bool" where
  "item_url E cfg n item url \<longleftrightarrow>
     (case item of
        B64Json d \<Rightarrow> stored_at E cfg n ''image/png'' d url
      | DataUrl m d \<Rightarrow> stored_at E cfg n m d url
      | ImageUrl u \<Rightarrow> url = build_openai_image_output_url (rx_url E) cfg ''direct'' u)"

lemma upload_openai_item_Ok:
  "upload_openai_item E cfg n item = Ok u \<Longrightarrow> item_url E cfg n item (um_url u)"
  by (cases item)
    (auto simp: upload_openai_item_def upload_openai_image_def item_url_def stored_at_def Let_def split: sum.splits)

lemma upload_openai_items_Ok:
  "upload_openai_items E cfg n items = Ok us \<Longrightarrow>
     length us = length items \<and> (\<forall>i < length items. item_url E cfg (n + i) (items ! i) (um_url (us ! i)))"
proof (induction items arbitrary: n us)
  case (Cons item items)
  then obtain u us' where u: "upload_openai_item E cfg n item = Ok u" "upload_openai_items E cfg (n + 1) items = Ok us'"
    "us = u # us'" by (auto split: sum.splits)
  note IH = Cons.IH [OF u(2)]
  have "item_url E cfg (n + i) ((item # items) ! i) (um_url (us ! i))" if "i < length (item # items)" for i
  proof (cases i)
    case 0
    with upload_openai_item_Ok [OF u(1)] u(3) show ?thesis by simp
  next
    case (Suc j)
    with IH that u(3) show ?thesis by simp
  qed
  with IH u(3) show ?case by simp
qed simp

lemma extract_openai_items_Ok:
  assumes "extract_openai_image_items v = Ok items"
  shows "\<exists>xs. jget ''data'' v = Some (JArray xs) \<and> xs \<noteq> [] \<and> list_all2 (\<lambda>x it. openai_image_item_of x = Ok it) xs items"
  using assms
  by (auto simp: extract_openai_image_items_def bind_eq_Some_conv as_array_Some_iff split: option.splits if_splits
      dest: collect_results_OkD)


definition sample_image_answer :: json where
  "sample_image_answer = JObject [(''data'', JArray [JObject [(''url'', JString ''https://x.example/1'')]])]"

definition sample_openai_env ::
  "(sample_u, unit, (string, memory_entry) lru_state, (string, stored_block_response) lru_state) router_env" where
  "sample_openai_env = sample_router_env\<lparr>rx_serde := sample_serde [(''{D}'', sample_image_answer)]\<rparr>"

lemma sample_image_items: "extract_openai_image_items sample_image_answer = Ok [ImageUrl ''https://x.example/1'']"
proof -
  have "trim ''https://x.example/1'' = ''https://x.example/1''" by (simp add: trim_plain plain_char_def bval_def)
  moreover have "parse_openai_image_data_url ''https://x.example/1'' = None" by code_simp
  ultimately show ?thesis
    by (simp add: extract_openai_image_items_def sample_image_answer_def openai_image_item_of_def jget_def
        jget_str_def opt_filter_def)
qed


end
