(* ===== verification/Aiapidev.thy ===== *)
theory Aiapidev
  imports Router_Samples
begin

text \<open>
  The provider aiapidev of \<^verbatim>\<open>src/http/router.rs\<close>: a request creates a task, the task is polled until
  it has ended, five polls in a row have failed, or the time is up, and its result is turned into
  the answer. The polls are numbered from 0; \<open>rx_poll n\<close> answers the one with number \<open>n\<close>.
\<close>

definition AIAPIDEV_POLL_INTERVAL :: nat where
  "AIAPIDEV_POLL_INTERVAL = 1000"

definition AIAPIDEV_OPENAI_IMAGE_POLL_INTERVAL :: nat where
  "AIAPIDEV_OPENAI_IMAGE_POLL_INTERVAL = 10000"

definition AIAPIDEV_MAX_POLL_TIME :: nat where
  "AIAPIDEV_MAX_POLL_TIME = 450000"

definition AIAPIDEV_MAX_CONSECUTIVE_POLL_FAILURES :: nat where
  "AIAPIDEV_MAX_CONSECUTIVE_POLL_FAILURES = 5"

definition is_aiapidev_terminal_status :: "string \<Rightarrow> bool" where
  "is_aiapidev_terminal_status status \<longleftrightarrow>
     status \<in> {''succeeded'', ''failed'', ''error'', ''cancelled'', ''canceled'', ''timeout''}"

definition is_aiapidev_retryable_poll_status :: "status \<Rightarrow> bool" where
  "is_aiapidev_retryable_poll_status status \<longleftrightarrow>
     status \<in> {REQUEST_TIMEOUT, TOO_EARLY, TOO_MANY_REQUESTS, INTERNAL_SERVER_ERROR, BAD_GATEWAY,
       SERVICE_UNAVAILABLE, GATEWAY_TIMEOUT}"

definition task_status :: "json \<Rightarrow> string" where
  "task_status task_body = to_lower (unwrap_or (jget_str ''status'' task_body) [])"

section \<open>Polling\<close>

text \<open>
  One turn of the loop ends it with the task or an answer (\<open>Inl\<close>), or leaves the number of
  consecutive failures for the next turn (\<open>Inr\<close>).
\<close>

type_synonym poll_outcome = "(http_answer, json) result + nat"

text \<open>The end of every turn that did not end the loop: the look at the clock before the pause.\<close>

definition poll_again :: "('u, 'i, 'l, 'b) router_env \<Rightarrow> nat \<Rightarrow> nat \<Rightarrow> poll_outcome" where
  "poll_again E n consecutive_failures =
     (if rx_poll_start E + AIAPIDEV_MAX_POLL_TIME \<le> rx_poll_now E n
      then Inl (Err (proxy_error_response (rx_serde E) BAD_GATEWAY MSG_AIAPIDEV_POLL_TIMEOUT
        ''aiapidev_poll_task'' ''timeout''))
      else Inr consecutive_failures)"

definition poll_failed_send :: "('u, 'i, 'l, 'b) router_env \<Rightarrow> nat \<Rightarrow> nat \<Rightarrow> reqwest_error \<Rightarrow> poll_outcome" where
  "poll_failed_send E n consecutive_failures err =
     (let consecutive_failures = consecutive_failures + 1 in
      if AIAPIDEV_MAX_CONSECUTIVE_POLL_FAILURES \<le> consecutive_failures
      then Inl (Err (error_answer (rx_serde E) BAD_GATEWAY (classify_reqwest_proxy_message err)))
      else poll_again E n consecutive_failures)"

definition poll_error_status ::
  "('u, 'i, 'l, 'b) router_env \<Rightarrow> string option \<Rightarrow> nat \<Rightarrow> nat \<Rightarrow> upstream_answer
   \<Rightarrow> 'b upstream_block_cache option \<Rightarrow> poll_outcome \<times> 'b upstream_block_cache option" where
  "poll_error_status E key n consecutive_failures response cache =
     (let S = rx_serde E; response_status = xa_status response; content_type = content_type_or_json response in
      case xa_body response of
        Err _ \<Rightarrow> (Inl (Err (error_answer S BAD_GATEWAY MSG_READ_UPSTREAM_BODY_FAILED)), cache)
      | Ok body_bytes \<Rightarrow>
          (let is_blockable = (classify_blockable_upstream_error response_status body_bytes \<noteq> None);
               cache = snd (maybe_store_upstream_block_error (rx_block E) S cache key (rx_poll_store_now E n)
                 response_status content_type body_bytes) in
           if is_blockable then
             (Inl (Err (raw_response_with_upstream_status S
                (block_error_response_status response_status body_bytes) response_status content_type body_bytes)),
              cache)
           else if \<not> is_aiapidev_retryable_poll_status response_status
           then (Inl (Err (raw_response_with_body response_status content_type body_bytes)), cache)
           else
             (let consecutive_failures = consecutive_failures + 1 in
              if AIAPIDEV_MAX_CONSECUTIVE_POLL_FAILURES \<le> consecutive_failures
              then (Inl (Err (raw_response_with_body response_status content_type body_bytes)),
                    snd (maybe_store_upstream_block_error (rx_block E) S cache key (rx_poll_store_now E n)
                      response_status content_type body_bytes))
              else (poll_again E n consecutive_failures, cache))))"

definition poll_once ::
  "('u, 'i, 'l, 'b) router_env \<Rightarrow> string \<Rightarrow> string \<Rightarrow> string \<times> string \<Rightarrow> string option \<Rightarrow> nat \<Rightarrow> nat
   \<Rightarrow> 'b upstream_block_cache option \<Rightarrow> poll_outcome \<times> 'b upstream_block_cache option" where
  "poll_once E base_url task_path auth key n consecutive_failures cache =
     (case build_upstream_url (rx_url E) base_url task_path None of
        Err _ \<Rightarrow> (Inl (Err (error_answer (rx_serde E) BAD_GATEWAY MSG_UPSTREAM_URL_INVALID)), cache)
      | Ok task_url \<Rightarrow>
          (case rx_poll E n \<lparr>xq_method = ''GET'', xq_url = task_url, xq_headers = [auth], xq_body = NoBody\<rparr> of
             Err err \<Rightarrow> (poll_failed_send E n consecutive_failures err, cache)
           | Ok response \<Rightarrow>
               if \<not> is_success (xa_status response)
               then poll_error_status E key n consecutive_failures response cache
               else
                 (case answer_json (rx_serde E) response of
                    None \<Rightarrow>
                      (Inl (Err (proxy_error_response (rx_serde E) BAD_GATEWAY MSG_AIAPIDEV_POLL_PARSE_FAILED
                         ''aiapidev_parse_task_response'' ''invalid_json'')), cache)
                  | Some task_body \<Rightarrow>
                      if is_aiapidev_terminal_status (task_status task_body)
                      then (Inl (Ok task_body), cache)
                      else (poll_again E n 0, cache))))"

text \<open>
  The loop. \<open>None\<close> would be a loop that never ends; the number of polls is returned for the bound.
\<close>

partial_function (option) poll_loop ::
  "('u, 'i, 'l, 'b) router_env \<Rightarrow> string \<Rightarrow> string \<Rightarrow> string \<times> string \<Rightarrow> string option \<Rightarrow> nat \<Rightarrow> nat
   \<Rightarrow> 'b upstream_block_cache option
   \<Rightarrow> ((http_answer, json) result \<times> nat \<times> 'b upstream_block_cache option) option" where
  "poll_loop E base_url task_path auth key n consecutive_failures cache =
     (case poll_once E base_url task_path auth key n consecutive_failures cache of
        (Inl r, cache) \<Rightarrow> Some (r, n + 1, cache)
      | (Inr consecutive_failures, cache) \<Rightarrow>
          poll_loop E base_url task_path auth key (n + 1) consecutive_failures cache)"

definition poll_aiapidev_openai_image_task ::
  "('u, 'i, 'l, 'b) router_env \<Rightarrow> resolved_upstream \<Rightarrow> string \<Rightarrow> string option \<Rightarrow> 'b upstream_block_cache option
   \<Rightarrow> ((http_answer, json) result \<times> nat \<times> 'b upstream_block_cache option) option" where
  "poll_aiapidev_openai_image_task E resolved request_id key cache =
     poll_loop E (ru_base_url resolved) (''/v1/tasks/'' @ request_id) (bearer (ru_api_key resolved)) key 0 0 cache"

definition poll_aiapidev_task ::
  "('u, 'i, 'l, 'b) router_env \<Rightarrow> resolved_upstream \<Rightarrow> string \<Rightarrow> string option \<Rightarrow> 'b upstream_block_cache option
   \<Rightarrow> ((http_answer, json) result \<times> nat \<times> 'b upstream_block_cache option) option" where
  "poll_aiapidev_task E resolved request_id key cache =
     poll_loop E (ru_base_url resolved) (''/v1beta/tasks/'' @ request_id) (''x-goog-api-key'', ru_api_key resolved)
       key 0 0 cache"

section \<open>The task of a request\<close>

definition raw_reqwest_response ::
  "('u, 'i, 'l, 'b) router_env \<Rightarrow> upstream_answer \<Rightarrow> string option \<Rightarrow> 'b upstream_block_cache option
   \<Rightarrow> http_answer \<times> 'b upstream_block_cache option" where
  "raw_reqwest_response E upstream_response key cache =
     (case xa_body upstream_response of
        Err _ \<Rightarrow> (error_answer (rx_serde E) BAD_GATEWAY MSG_READ_UPSTREAM_BODY_FAILED, cache)
      | Ok body_bytes \<Rightarrow>
          pass_on_error (rx_block E) (rx_serde E) cache key (rx_store_now E) (xa_status upstream_response)
            (content_type_or_json upstream_response) body_bytes)"

text \<open>What both handlers do with the answer to the creating request: the identifier of the task.\<close>

definition created_request_id ::
  "('u, 'i, 'l, 'b) router_env \<Rightarrow> (reqwest_error, upstream_answer) result \<Rightarrow> string option
   \<Rightarrow> 'b upstream_block_cache option \<Rightarrow> (http_answer, string) result \<times> 'b upstream_block_cache option" where
  "created_request_id E sent key cache =
     (let S = rx_serde E in
      case sent of
        Err err \<Rightarrow> (Err (error_answer S BAD_GATEWAY (classify_reqwest_proxy_message err)), cache)
      | Ok create_response \<Rightarrow>
          if \<not> is_success (xa_status create_response)
          then (case raw_reqwest_response E create_response key cache of (a, cache) \<Rightarrow> (Err a, cache))
          else (case answer_json S create_response of
              None \<Rightarrow>
                (Err (proxy_error_response S BAD_GATEWAY MSG_AIAPIDEV_CREATE_PARSE_FAILED
                   ''aiapidev_create_task'' ''invalid_json''), cache)
            | Some created_task \<Rightarrow>
                (case opt_filter (\<lambda>value. \<not> blank value) (jget_str ''requestId'' created_task) of
                   None \<Rightarrow> (Err (error_answer S BAD_GATEWAY MSG_AIAPIDEV_MISSING_REQUEST_ID), cache)
                 | Some request_id \<Rightarrow> (Ok request_id, cache))))"

text \<open>The answer for a task that has ended without success.\<close>

definition task_failure_message :: "json \<Rightarrow> string" where
  "task_failure_message task_body =
     unwrap_or
       (opt_or (opt_filter (\<lambda>value. \<not> blank value) (jget_str ''errorMessage'' task_body))
          (opt_filter (\<lambda>value. \<not> blank value) (jget_str ''errorCode'' task_body)))
       MSG_AIAPIDEV_TASK_FAILED"

definition failed_task_response ::
  "('u, 'i, 'l, 'b) router_env \<Rightarrow> json \<Rightarrow> string option \<Rightarrow> 'b upstream_block_cache option
   \<Rightarrow> http_answer \<times> 'b upstream_block_cache option" where
  "failed_task_response E task_body key cache =
     upstream_block_cache_json_error_response (rx_block E) (rx_serde E) cache key (rx_store_now E) BAD_GATEWAY
       (error_json 502 (task_failure_message task_body))"

text \<open>A JSON value as a 200, for handlers that answer the failure of its serialization with a 502.\<close>

definition ok_json_response :: "serde \<Rightarrow> json \<Rightarrow> http_answer" where
  "ok_json_response S final_json =
     (case to_vec S final_json of
        Ok final_body \<Rightarrow> raw_response_with_body OK_200 APPLICATION_JSON final_body
      | Err _ \<Rightarrow> error_answer S BAD_GATEWAY MSG_PROXY_INTERNAL_ERROR)"

definition openai_task_answer :: "('u, 'i, 'l, 'b) router_env \<Rightarrow> config \<Rightarrow> json \<Rightarrow> http_answer" where
  "openai_task_answer E cfg task_body =
     (let image_urls = extract_aiapidev_image_urls task_body in
      if image_urls = [] then error_answer (rx_serde E) BAD_GATEWAY MSG_AIAPIDEV_MISSING_IMAGE_URLS
      else
        (let uploaded = map (\<lambda>image_url. \<lparr>um_url = output_image_url (rx_url E) cfg image_url\<rparr>) image_urls;
             created = extract_created_timestamp (rx_timestamp E) task_body (rx_unix_now E)
         in ok_json_response (rx_serde E) (build_response_payload_from_uploaded uploaded created)))"

definition handle_aiapidev_openai_image_response ::
  "('u, 'i, 'l, 'b) router_env \<Rightarrow> config \<Rightarrow> resolved_upstream \<Rightarrow> string option \<Rightarrow> json \<Rightarrow> string option
   \<Rightarrow> 'b upstream_block_cache option \<Rightarrow> (http_answer \<times> 'b upstream_block_cache option) option" where
  "handle_aiapidev_openai_image_response E cfg resolved request_query request_body key cache =
     (case build_upstream_url (rx_url E) (ru_base_url resolved) ''/v1/images/generations'' request_query of
        Err _ \<Rightarrow> Some (error_answer (rx_serde E) BAD_GATEWAY MSG_UPSTREAM_URL_INVALID, cache)
      | Ok upstream_url \<Rightarrow>
          (case created_request_id E
              (rx_send E \<lparr>xq_method = ''POST'', xq_url = upstream_url,
                 xq_headers = [(CONTENT_TYPE, APPLICATION_JSON), bearer (ru_api_key resolved)],
                 xq_body = JsonBody request_body\<rparr>) key cache of
             (Err response, cache) \<Rightarrow> Some (response, cache)
           | (Ok request_id, cache) \<Rightarrow>
               (case poll_aiapidev_openai_image_task E resolved request_id key cache of
                  None \<Rightarrow> None
                | Some (Err response, _, cache) \<Rightarrow> Some (response, cache)
                | Some (Ok task_body, _, cache) \<Rightarrow>
                    Some (if task_status task_body \<noteq> ''succeeded''
                          then failed_task_response E task_body key cache
                          else (openai_task_answer E cfg task_body, cache)))))"

text \<open>The result of a Gemini task: normalized, cleaned, re-encoded.\<close>

definition gemini_task_answer ::
  "('u, 'i, 'l, 'b) router_env \<Rightarrow> config \<Rightarrow> fetch_service option \<Rightarrow> output_mode \<Rightarrow> json \<Rightarrow> 'l fetch_state
   \<Rightarrow> (http_answer \<times> 'l fetch_state) option" where
  "gemini_task_answer E cfg fetch_service mode task_body fs =
     (case normalize_aiapidev_task_response (rx_response E) task_body mode fetch_service cfg fs of
        (None, _) \<Rightarrow> None
      | (Some (Err _), fs) \<Rightarrow> Some (error_answer (rx_serde E) BAD_GATEWAY MSG_READ_UPSTREAM_BODY_FAILED, fs)
      | (Some (Ok body), fs) \<Rightarrow>
          (case optimize_inline_data_images (rx_images E) (rx_b64 E)
              (keep_largest_inline_image (remove_thought_signatures body)) cfg of
             (Err _, _) \<Rightarrow> Some (error_answer (rx_serde E) BAD_GATEWAY MSG_PROXY_INTERNAL_ERROR, fs)
           | (Ok _, final_json) \<Rightarrow> Some (ok_json_response (rx_serde E) final_json, fs)))"

definition handle_aiapidev_response ::
  "('u, 'i, 'l, 'b) router_env \<Rightarrow> config \<Rightarrow> fetch_service option \<Rightarrow> resolved_upstream \<Rightarrow> string \<Rightarrow> string option
   \<Rightarrow> json \<Rightarrow> output_mode \<Rightarrow> string option \<Rightarrow> 'b upstream_block_cache option \<Rightarrow> 'l fetch_state
   \<Rightarrow> (http_answer \<times> 'b upstream_block_cache option \<times> 'l fetch_state) option" where
  "handle_aiapidev_response E cfg fetch_service resolved target_path request_query request_body mode key cache fs =
     (case build_upstream_url (rx_url E) (ru_base_url resolved) target_path request_query of
        Err _ \<Rightarrow> Some (error_answer (rx_serde E) BAD_GATEWAY MSG_UPSTREAM_URL_INVALID, cache, fs)
      | Ok upstream_url \<Rightarrow>
          (case created_request_id E
              (rx_send E \<lparr>xq_method = ''POST'', xq_url = upstream_url,
                 xq_headers = [(CONTENT_TYPE, APPLICATION_JSON), (''x-goog-api-key'', ru_api_key resolved)],
                 xq_body = JsonBody request_body\<rparr>) key cache of
             (Err response, cache) \<Rightarrow> Some (response, cache, fs)
           | (Ok request_id, cache) \<Rightarrow>
               (case poll_aiapidev_task E resolved request_id key cache of
                  None \<Rightarrow> None
                | Some (Err response, _, cache) \<Rightarrow> Some (response, cache, fs)
                | Some (Ok task_body, _, cache) \<Rightarrow>
                    if task_status task_body \<noteq> ''succeeded''
                    then (case failed_task_response E task_body key cache of (a, cache) \<Rightarrow> Some (a, cache, fs))
                    else map_option (\<lambda>(a, fs). (a, cache, fs))
                      (gemini_task_answer E cfg fetch_service mode task_body fs))))"

section \<open>Polling ends\<close>

text \<open>A clock that never runs back, and pauses between two polls at least for the interval.\<close>

definition paced :: "('u, 'i, 'l, 'b) router_env \<Rightarrow> nat \<Rightarrow> bool" where
  "paced E interval \<longleftrightarrow>
     rx_poll_start E \<le> rx_poll_now E 0 \<and> (\<forall>n. rx_poll_now E n + interval \<le> rx_poll_now E (Suc n))"

lemma paced_later: "paced E i \<Longrightarrow> rx_poll_start E + n * i \<le> rx_poll_now E n"
proof (induction n)
  case (Suc n)
  then have "rx_poll_now E n + i \<le> rx_poll_now E (Suc n)" by (simp add: paced_def)
  with Suc show ?case by simp
qed (simp add: paced_def)

definition poll_request :: "string \<Rightarrow> string \<times> string \<Rightarrow> upstream_request" where
  "poll_request task_url auth =
     \<lparr>xq_method = ''GET'', xq_url = task_url, xq_headers = [auth], xq_body = NoBody\<rparr>"

text \<open>A poll counts as failed when it was not answered, or with an error status.\<close>

definition poll_failed :: "('u, 'i, 'l, 'b) router_env \<Rightarrow> upstream_request \<Rightarrow> nat \<Rightarrow> bool" where
  "poll_failed E req n \<longleftrightarrow>
     (case rx_poll E n req of Err _ \<Rightarrow> True | Ok a \<Rightarrow> \<not> is_success (xa_status a))"

lemma poll_again_Inr:
  "poll_again E n f = Inr f' \<longleftrightarrow> f' = f \<and> rx_poll_now E n < rx_poll_start E + AIAPIDEV_MAX_POLL_TIME"
  by (auto simp: poll_again_def)

lemma poll_once_Inr:
  assumes "poll_once E base path auth key n f cache = (Inr f', cache')"
  shows "rx_poll_now E n < rx_poll_start E + AIAPIDEV_MAX_POLL_TIME"
    and "\<exists>url. build_upstream_url (rx_url E) base path None = Ok url
      \<and> f' = (if poll_failed E (poll_request url auth) n then f + 1 else 0)"
proof -
  obtain url where u: "build_upstream_url (rx_url E) base path None = Ok url"
    using assms by (auto simp: poll_once_def split: sum.splits)
  have "rx_poll_now E n < rx_poll_start E + AIAPIDEV_MAX_POLL_TIME
    \<and> f' = (if poll_failed E (poll_request url auth) n then f + 1 else 0)"
  proof (cases "rx_poll E n (poll_request url auth)")
    case (Inl err)
    with assms u show ?thesis
      by (auto simp: poll_once_def poll_failed_send_def poll_again_Inr poll_failed_def poll_request_def Let_def
          split: if_splits)
  next
    case (Inr a)
    show ?thesis
    proof (cases "is_success (xa_status a)")
      case True
      with Inr assms u show ?thesis
        by (auto simp: poll_once_def poll_again_Inr poll_failed_def poll_request_def split: option.splits if_splits)
    next
      case False
      with Inr assms u show ?thesis
        by (auto simp: poll_once_def poll_error_status_def poll_again_Inr poll_failed_def poll_request_def Let_def
            split: sum.splits if_splits)
    qed
  qed
  with u show "rx_poll_now E n < rx_poll_start E + AIAPIDEV_MAX_POLL_TIME"
    "\<exists>url. build_upstream_url (rx_url E) base path None = Ok url
      \<and> f' = (if poll_failed E (poll_request url auth) n then f + 1 else 0)" by blast+
qed

text \<open>What the loop can end with.\<close>

definition poll_result_ok :: "(http_answer, json) result \<Rightarrow> bool" where
  "poll_result_ok r =
     (case r of
        Ok task_body \<Rightarrow> is_aiapidev_terminal_status (task_status task_body)
      | Err answer \<Rightarrow> \<not> is_success (an_status answer))"

lemma error_answer_statuses [simp]:
  "an_status (error_answer S st m) = st" "an_status (proxy_error_response S st m a b) = st"
  "an_status (json_answer S st v) = st" "an_status (raw_response_with_body st ct b) = st"
  "an_status (raw_response_with_upstream_status S st ust ct b) = st"
  by (simp_all add: error_answer_def proxy_error_response_def json_answer_def raw_response_with_body_def
      raw_response_with_upstream_status_def Let_def)

lemma poll_again_ok: "poll_again E n f = Inl r \<Longrightarrow> poll_result_ok r"
  by (auto simp: poll_again_def poll_result_ok_def is_success_def split: if_splits)

lemma poll_once_Inl:
  assumes "poll_once E base path auth key n f cache = (Inl r, cache')"
  shows "poll_result_ok r"
proof (cases "build_upstream_url (rx_url E) base path None")
  case (Inl e)
  with assms show ?thesis by (auto simp: poll_once_def poll_result_ok_def is_success_def)
next
  case u: (Inr url)
  show ?thesis
  proof (cases "rx_poll E n (poll_request url auth)")
    case (Inl err)
    with assms u show ?thesis
      by (auto simp: poll_once_def poll_failed_send_def poll_request_def poll_result_ok_def is_success_def Let_def
          dest: poll_again_ok split: if_splits)
  next
    case (Inr a)
    show ?thesis
    proof (cases "is_success (xa_status a)")
      case True
      with Inr assms u show ?thesis
        by (auto simp: poll_once_def poll_request_def poll_result_ok_def is_success_def
            dest: poll_again_ok split: option.splits if_splits)
    next
      case False
      with Inr assms u show ?thesis
        by (auto simp: poll_once_def poll_error_status_def poll_request_def poll_result_ok_def is_success_def
            block_error_response_status_def Let_def dest: poll_again_ok split: sum.splits if_splits)
    qed
  qed
qed

text \<open>The polls right before number \<open>n\<close> that failed.\<close>

definition failed_before :: "('u, 'i, 'l, 'b) router_env \<Rightarrow> upstream_request \<Rightarrow> nat \<Rightarrow> nat \<Rightarrow> bool" where
  "failed_before E req n f \<longleftrightarrow> f \<le> n \<and> (\<forall>j. n - f \<le> j \<and> j < n \<longrightarrow> poll_failed E req j)"

lemma failed_before_step:
  assumes "failed_before E req n f"
  shows "failed_before E req (n + 1) (if poll_failed E req n then f + 1 else 0)"
  using assms by (auto simp: failed_before_def less_Suc_eq)

lemma poll_loop_returns:
  assumes p: "paced E i" and i: "0 < i"
    and u: "\<And>u. build_upstream_url (rx_url E) base path None = Ok u \<Longrightarrow> u = url"
    and f: "failed_before E (poll_request url auth) n f"
  shows "\<exists>r m c f' c'. poll_loop E base path auth key n f cache = Some (r, m, c) \<and> n < m
    \<and> m \<le> max (n + 1) ((AIAPIDEV_MAX_POLL_TIME - 1) div i + 2) \<and> poll_result_ok r
    \<and> failed_before E (poll_request url auth) (m - 1) f'
    \<and> poll_once E base path auth key (m - 1) f' c' = (Inl r, c)"
  using f
proof (induction "(AIAPIDEV_MAX_POLL_TIME - 1) div i + 1 - n" arbitrary: n f cache rule: less_induct)
  case less
  let ?N = "(AIAPIDEV_MAX_POLL_TIME - 1) div i"
  obtain o' c' where o: "poll_once E base path auth key n f cache = (o', c')"
    by (cases "poll_once E base path auth key n f cache")
  show ?case
  proof (cases o')
    case (Inl r)
    then have o: "poll_once E base path auth key n f cache = (Inl r, c')" using o by simp
    then have l: "poll_loop E base path auth key n f cache = Some (r, n + 1, c')"
      by (simp add: poll_loop.simps [of E base path auth key n])
    show ?thesis
      using o l poll_once_Inl [OF o] less.prems
      by (intro exI [of _ r] exI [of _ "n + 1"] exI [of _ c'] exI [of _ f] exI [of _ cache]) simp
  next
    case (Inr f')
    note t = poll_once_Inr [OF o [unfolded Inr]]
    from t(1) paced_later [OF p, of n] have "n * i \<le> AIAPIDEV_MAX_POLL_TIME - 1" by simp
    then have n: "n \<le> ?N" using i by (simp add: less_eq_div_iff_mult_less_eq)
    then have "?N + 1 - (n + 1) < ?N + 1 - n" by simp
    moreover have "failed_before E (poll_request url auth) (n + 1) f'"
      using failed_before_step [OF less.prems] t(2) u by auto
    ultimately obtain r m c f'' c'' where "poll_loop E base path auth key (n + 1) f' c' = Some (r, m, c)"
      "n + 1 < m" "m \<le> max (n + 2) (?N + 2)" "poll_result_ok r"
      "failed_before E (poll_request url auth) (m - 1) f''"
      "poll_once E base path auth key (m - 1) f'' c'' = (Inl r, c)"
      using less.hyps [of "n + 1" f' c'] by auto
    moreover from this(1) have "poll_loop E base path auth key n f cache = Some (r, m, c)"
      using o Inr by (simp add: poll_loop.simps [of E base path auth key n])
    ultimately show ?thesis using n
      by (intro exI [of _ r] exI [of _ m] exI [of _ c] exI [of _ f''] exI [of _ c'']) simp
  qed
qed

text \<open>A loop that gives up on failures has seen five of them in a row.\<close>

lemma gives_up_after_five:
  assumes "poll_once E base path auth key n f c' = (Inl r, c)"
    and "build_upstream_url (rx_url E) base path None = Ok url" "rx_poll E n (poll_request url auth) = Err e"
    and "rx_poll_now E n < rx_poll_start E + AIAPIDEV_MAX_POLL_TIME" "failed_before E (poll_request url auth) n f"
  shows "4 \<le> n \<and> (\<forall>j. n - 4 \<le> j \<and> j \<le> n \<longrightarrow> poll_failed E (poll_request url auth) j)"
proof -
  have "4 \<le> f"
    using assms(1-4) by (auto simp: poll_once_def poll_request_def poll_failed_send_def poll_again_def
        AIAPIDEV_MAX_CONSECUTIVE_POLL_FAILURES_def Let_def split: if_splits)
  moreover have f: "f \<le> n" "\<And>j. n - f \<le> j \<Longrightarrow> j < n \<Longrightarrow> poll_failed E (poll_request url auth) j"
    using assms(5) by (simp_all add: failed_before_def)
  moreover have "poll_failed E (poll_request url auth) n" using assms(3) by (simp add: poll_failed_def)
  ultimately have "poll_failed E (poll_request url auth) j" if "n - 4 \<le> j" "j \<le> n" for j
    using that by (cases "j = n") auto
  with f(1) \<open>4 \<le> f\<close> show ?thesis by simp
qed

lemma poll_loop_ends:
  assumes "paced E i" "0 < i"
  shows "\<exists>r m c. poll_loop E base path auth k 0 0 cache = Some (r, m, c)
    \<and> m \<le> max 1 ((AIAPIDEV_MAX_POLL_TIME - 1) div i + 2) \<and> poll_result_ok r"
proof -
  have start: "failed_before E req 0 0" for req by (simp add: failed_before_def)
  have u: "\<exists>url. \<forall>u. build_upstream_url (rx_url E) base path None = Ok u \<longrightarrow> u = url"
    by (cases "build_upstream_url (rx_url E) base path None") auto
  show ?thesis using poll_loop_returns [OF assms _ start, of base path _ auth k cache] u by fastforce
qed



end
