(* ===== verification/Router_Forward.thy ===== *)
theory Router_Forward
  imports Router_Answers Aiapidev Request_Rewrite
begin

text \<open>
  Forwarding an accepted request (\<^verbatim>\<open>forward_gemini_request\<close>, \<^verbatim>\<open>forward_openai_image_request\<close> and
  their grsai variants in \<^verbatim>\<open>src/http/router.rs\<close>): images are fetched into the blob store, the body
  is encoded and sent, the answer is turned into the proxy's own, and an entry for the admin log is
  filled on the way. The result \<open>None\<close> is a fetch that is waited for and never ends.
\<close>

section \<open>The entry of a request\<close>

record request_log_snapshot =
  sp_request_raw :: "sanitized_admin_log option"

definition sanitize_request_body_for_log :: "serde \<Rightarrow> string \<Rightarrow> bool \<Rightarrow> sanitized_admin_log option" where
  "sanitize_request_body_for_log S raw enabled = maybe_sanitize_json_for_log S raw enabled"

definition from_request_body :: "serde \<Rightarrow> string \<Rightarrow> bool \<Rightarrow> request_log_snapshot" where
  "from_request_body S raw enabled = \<lparr>sp_request_raw = sanitize_request_body_for_log S raw enabled\<rparr>"

definition apply_to_entry :: "request_log_snapshot \<Rightarrow> admin_log_entry \<Rightarrow> admin_log_entry" where
  "apply_to_entry snapshot entry =
     (case sp_request_raw snapshot of
        None \<Rightarrow> entry
      | Some v \<Rightarrow> entry\<lparr>le_request_raw := sl_pretty v, le_request_raw_images := sl_image_urls v\<rparr>)"

definition base_entry :: "request_log_snapshot \<Rightarrow> admin_log_entry" where
  "base_entry snapshot = apply_to_entry snapshot entry_default"

record forward_request_failure =
  fw_error :: anyhow
  fw_admin_entry :: admin_log_entry

text \<open>The sanitized upstream body, when the log is on.\<close>

definition request_upstream_log :: "serde \<Rightarrow> bool \<Rightarrow> json \<Rightarrow> sanitized_admin_log option fallible" where
  "request_upstream_log S enabled v =
     (if enabled
      then (case to_vec S v of Err e \<Rightarrow> Err (Message e) | Ok b \<Rightarrow> Ok (maybe_sanitize_json_for_log S b True))
      else Ok None)"

definition log_request_upstream :: "sanitized_admin_log option \<Rightarrow> admin_log_entry \<Rightarrow> admin_log_entry" where
  "log_request_upstream request_upstream entry =
     entry\<lparr>le_request_upstream := (case request_upstream of None \<Rightarrow> [] | Some v \<Rightarrow> sl_pretty v),
       le_request_upstream_images := (case request_upstream of None \<Rightarrow> [] | Some v \<Rightarrow> sl_image_urls v)\<rparr>"

definition log_durations :: "response_stage_durations \<Rightarrow> admin_log_entry \<Rightarrow> admin_log_entry" where
  "log_durations d entry =
     entry\<lparr>le_response_process_ms := rs_response_process_ms d, le_upload_ms := rs_upload_ms d\<rparr>"

section \<open>Cache hits\<close>

record request_cache_tracking =
  ct_observes :: bool
  ct_hit_urls :: "string list"

definition build_request_cache_tracking :: "admin_state option \<Rightarrow> request_cache_tracking" where
  "build_request_cache_tracking admin = \<lparr>ct_observes = (admin \<noteq> None), ct_hit_urls = []\<rparr>"

text \<open>The calls of the observer, in the order they happened.\<close>

fun observe_fetches ::
  "(string \<times> bool) list \<Rightarrow> request_cache_tracking \<times> admin_state option \<Rightarrow> request_cache_tracking \<times> admin_state option" where
  "observe_fetches [] x = x"
| "observe_fetches ((raw_url, from_cache) # calls) (tracking, admin) =
     observe_fetches calls
       (if from_cache
        then (tracking\<lparr>ct_hit_urls := ct_hit_urls tracking @ [raw_url]\<rparr>,
              map_option (\<lambda>a. a\<lparr>ad_stats := (ad_stats a)\<lparr>as_cache_hits := as_cache_hits (ad_stats a) + 1\<rparr>\<rparr>) admin)
        else (tracking, admin))"

definition update_request_cache_hits :: "request_cache_tracking \<Rightarrow> admin_log_entry \<Rightarrow> admin_log_entry" where
  "update_request_cache_hits tracking entry = entry\<lparr>le_request_raw_image_cache_hits := ct_hit_urls tracking\<rparr>"

text \<open>After a step the observer was given to.\<close>

definition tracked ::
  "(string \<times> bool) list \<Rightarrow> request_cache_tracking \<Rightarrow> ('l, 'b) app_state \<Rightarrow> request_cache_tracking \<times> ('l, 'b) app_state" where
  "tracked calls tracking st =
     (case observe_fetches calls (tracking, aq_admin st) of (tracking, admin) \<Rightarrow> (tracking, st\<lparr>aq_admin := admin\<rparr>))"

section \<open>A transparent Gemini request\<close>

record prepared_request =
  pq_replacements :: "request_replacement list"
  pq_encoded :: encoded_request_body
  pq_tracking :: request_cache_tracking
  pq_entry :: admin_log_entry

type_synonym 'a forwarding = "(forward_request_failure, 'a) result"

definition failure :: "anyhow \<Rightarrow> admin_log_entry \<Rightarrow> 'a forwarding" where
  "failure err entry = Err \<lparr>fw_error = err, fw_admin_entry = entry\<rparr>"

definition materialize_services :: "app \<Rightarrow> request_cache_tracking \<Rightarrow> request_materialize_services" where
  "materialize_services ap tracking =
     \<lparr>ms_max_image_bytes = REQUEST_MAX_IMAGE_BYTES, ms_allow_private_networks = False,
      ms_enable_webp_optimization = enable_request_image_webp_optimization (ap_config ap),
      ms_fetch_service = ap_request_service ap, ms_cache_observer = ct_observes tracking\<rparr>"

definition materialize_work :: "('l, 'b) app_state \<Rightarrow> 'l work_state" where
  "materialize_work st = \<lparr>wk_service = request_fetch st, wk_runtime = aq_runtime st, wk_observed = []\<rparr>"

text \<open>The state when materializing has returned, with what the observer counted.\<close>

definition materialize_done ::
  "'l work_state \<Rightarrow> request_cache_tracking \<Rightarrow> ('l, 'b) app_state \<Rightarrow> request_cache_tracking \<times> ('l, 'b) app_state" where
  "materialize_done w tracking st =
     tracked (wk_observed w) tracking ((set_request_fetch (wk_service w) st)\<lparr>aq_runtime := wk_runtime w\<rparr>)"

definition log_image_work :: "('u, 'i, 'l, 'b) router_env \<Rightarrow> admin_log_entry \<Rightarrow> admin_log_entry" where
  "log_image_work E entry =
     entry\<lparr>le_request_image_prepare_ms := rx_ms E ''request_image_prepare_ms'',
       le_request_image_materialize_ms := rx_ms E ''request_image_materialize_ms'',
       le_request_image_fetch_work_ms := rx_ms E ''request_image_fetch_work_ms'',
       le_request_image_store_work_ms := rx_ms E ''request_image_store_work_ms''\<rparr>"

definition prepare_gemini_request ::
  "('u, 'i, 'l, 'b) router_env \<Rightarrow> app \<Rightarrow> request_cache_tracking \<Rightarrow> admin_log_entry \<Rightarrow> json \<Rightarrow> ('l, 'b) app_state
   \<Rightarrow> prepared_request forwarding option \<times> ('l, 'b) app_state" where
  "prepare_gemini_request E ap tracking entry body st =
     (case materialize_request_images_with_services (rx_materialize E) (materialize_services ap tracking) body
         (materialize_work st) of
        (None, _) \<Rightarrow> (None, st)
      | (Some (Err err), w) \<Rightarrow>
          (case materialize_done w tracking st of
             (tracking, st) \<Rightarrow>
               (Some (failure err (update_request_cache_hits tracking
                  (entry\<lparr>le_request_image_prepare_ms := rx_ms E ''request_image_prepare_ms''\<rparr>))), st))
      | (Some (Ok materialized), w) \<Rightarrow>
          (case materialize_done w tracking st of
             (tracking, st) \<Rightarrow>
               (case encode_request_body ((rx_encode E)\<lparr>ee_runtime := aq_runtime st\<rparr>) (rx_pipe E)
                   (mr_request materialized) (mr_replacements materialized) of
                  (Err err, rt) \<Rightarrow>
                    (Some (failure err (update_request_cache_hits tracking (log_image_work E entry))),
                     st\<lparr>aq_runtime := rt\<rparr>)
                | (Ok encoded, rt) \<Rightarrow>
                    (Some (Ok \<lparr>pq_replacements = mr_replacements materialized, pq_encoded = encoded,
                        pq_tracking = tracking,
                        pq_entry = (log_image_work E entry)\<lparr>le_request_encode_ms := rx_ms E ''request_encode_ms''\<rparr>\<rparr>),
                     st\<lparr>aq_runtime := rt\<rparr>))))"

text \<open>The loop that removes the blobs of the images; it stops at the first error.\<close>

fun remove_replacements ::
  "(u64 \<Rightarrow> fault_schedule) \<Rightarrow> blob_runtime \<Rightarrow> request_replacement list \<Rightarrow> unit blob_result" where
  "remove_replacements io rt [] = (Ok (), rt)"
| "remove_replacements io rt (replacement # replacements) =
     (case remove_blob rt (io (bh_id (rr_blob replacement))) (rr_blob replacement) of
        (Err err, rt) \<Rightarrow> (Err err, rt)
      | (Ok _, rt) \<Rightarrow> remove_replacements io rt replacements)"

text \<open>The request as it is sent, or what stops it: the URL or reading the body back.\<close>

definition gemini_upstream_request ::
  "('u, 'i, 'l, 'b) router_env \<Rightarrow> resolved_upstream \<Rightarrow> string \<Rightarrow> string option \<Rightarrow> (string \<times> string) list
   \<Rightarrow> encoded_request_body \<Rightarrow> blob_runtime \<Rightarrow> upstream_request fallible" where
  "gemini_upstream_request E resolved target_path request_query headers encoded rt =
     (case build_upstream_url (rx_url E) (ru_base_url resolved) target_path request_query of
        Err err \<Rightarrow> Err err
      | Ok upstream_url \<Rightarrow>
          (case open_reader (rx_chunker E) rt (rx_open_io E) (eb_body_blob encoded) of
             Err err \<Rightarrow> Err (Message err)
           | Ok request_stream \<Rightarrow>
               Ok \<lparr>xq_method = ''POST'', xq_url = upstream_url,
                   xq_headers =
                     [(''content-length'', show_nat (unat (eb_content_length encoded)))]
                     @ (case map_of headers CONTENT_TYPE of None \<Rightarrow> [] | Some v \<Rightarrow> [(CONTENT_TYPE, v)])
                     @ (case map_of headers ''accept'' of None \<Rightarrow> [] | Some v \<Rightarrow> [(''accept'', v)])
                     @ [(''x-goog-api-key'', ru_api_key resolved), bearer (ru_api_key resolved)],
                   xq_body = StreamBody request_stream\<rparr>))"

definition request_body_log ::
  "('u, 'i, 'l, 'b) router_env \<Rightarrow> bool \<Rightarrow> encoded_request_body \<Rightarrow> blob_runtime \<Rightarrow> sanitized_admin_log option fallible" where
  "request_body_log E enabled encoded rt =
     (if enabled
      then (case read_bytes rt (rx_read_io E) (eb_body_blob encoded) of
          Err err \<Rightarrow> Err (Message err)
        | Ok bytes \<Rightarrow> Ok (maybe_sanitize_json_for_log (rx_serde E) bytes True))
      else Ok None)"

text \<open>From the prepared request to the head of the upstream's answer.\<close>

definition send_gemini_request ::
  "('u, 'i, 'l, 'b) router_env \<Rightarrow> bool \<Rightarrow> resolved_upstream \<Rightarrow> string \<Rightarrow> string option \<Rightarrow> (string \<times> string) list
   \<Rightarrow> prepared_request \<Rightarrow> blob_runtime \<Rightarrow> (upstream_answer \<times> admin_log_entry) forwarding \<times> blob_runtime" where
  "send_gemini_request E enabled resolved target_path request_query headers prepared rt =
     (let encoded = pq_encoded prepared;
          entry = update_request_cache_hits (pq_tracking prepared) (pq_entry prepared);
          body_blob = eb_body_blob encoded;
          remove_body = (\<lambda>rt. remove_blob rt (rx_remove_io E (bh_id body_blob)) body_blob) in
      case remove_replacements (rx_remove_io E) rt (pq_replacements prepared) of
        (Err err, rt) \<Rightarrow> (failure (Message err) entry, rt)
      | (Ok _, rt) \<Rightarrow>
          (case request_body_log E enabled encoded rt of
             Err err \<Rightarrow> (failure err entry, rt)
           | Ok request_upstream \<Rightarrow>
               (case gemini_upstream_request E resolved target_path request_query headers encoded rt of
                  Err err \<Rightarrow> (failure err entry, rt)
                | Ok upstream_request \<Rightarrow>
                    (case rx_send E upstream_request of
                       Err err \<Rightarrow>
                         (case remove_body rt of
                            (Err remove_err, rt) \<Rightarrow> (failure (Message remove_err) entry, rt)
                          | (Ok _, rt) \<Rightarrow> (failure (ReqwestError err) entry, rt))
                     | Ok upstream_response \<Rightarrow>
                         (case remove_body rt of
                            (Err err, rt) \<Rightarrow> (failure (Message err) entry, rt)
                          | (Ok _, rt) \<Rightarrow>
                              (Ok (upstream_response, log_request_upstream request_upstream
                                 (entry\<lparr>le_upstream_build_ms := rx_ms E ''upstream_build_ms''\<rparr>)), rt))))))"

type_synonym forwarded = "(http_answer \<times> admin_log_entry) forwarding"

definition set_block :: "'b upstream_block_cache option \<Rightarrow> ('l, 'b) app_state \<Rightarrow> ('l, 'b) app_state" where
  "set_block cache st = st\<lparr>aq_block := cache\<rparr>"

definition forward_transparent_gemini_request ::
  "('u, 'i, 'l, 'b) router_env \<Rightarrow> app \<Rightarrow> resolved_upstream \<Rightarrow> string \<Rightarrow> string option \<Rightarrow> (string \<times> string) list
   \<Rightarrow> json \<Rightarrow> output_mode \<Rightarrow> string option \<Rightarrow> admin_log_entry \<Rightarrow> ('l, 'b) app_state
   \<Rightarrow> forwarded option \<times> ('l, 'b) app_state" where
  "forward_transparent_gemini_request E ap resolved target_path request_query headers body mode key entry st =
     (let enabled = (aq_admin st \<noteq> None); tracking = build_request_cache_tracking (aq_admin st) in
      case prepare_gemini_request E ap tracking entry body st of
        (None, st) \<Rightarrow> (None, st)
      | (Some (Err f), st) \<Rightarrow> (Some (Err f), st)
      | (Some (Ok prepared), st) \<Rightarrow>
          (case send_gemini_request E enabled resolved target_path request_query headers prepared (aq_runtime st) of
             (Err f, rt) \<Rightarrow> (Some (Err f), st\<lparr>aq_runtime := rt\<rparr>)
           | (Ok (upstream_response, entry), rt) \<Rightarrow>
               (let st = st\<lparr>aq_runtime := rt\<rparr> in
                case handle_non_stream_response E (ap_config ap) (ap_response_service ap) mode key upstream_response
                    (aq_block st) (response_fetch st) of
                  (r, cache, fs) \<Rightarrow>
                    (map_option (\<lambda>r. case r of
                         Err err \<Rightarrow> failure err entry
                       | Ok (response, durations) \<Rightarrow>
                           Ok (response, log_durations durations (entry\<lparr>le_status_code := an_status response\<rparr>))) r,
                     set_block cache (set_response_fetch fs st)))))"

section \<open>Gemini requests to the other providers\<close>

definition forward_aiapidev_gemini_request ::
  "('u, 'i, 'l, 'b) router_env \<Rightarrow> app \<Rightarrow> resolved_upstream \<Rightarrow> string \<Rightarrow> string option \<Rightarrow> json \<Rightarrow> output_mode
   \<Rightarrow> string option \<Rightarrow> admin_log_entry \<Rightarrow> ('l, 'b) app_state \<Rightarrow> forwarded option \<times> ('l, 'b) app_state" where
  "forward_aiapidev_gemini_request E ap resolved target_path request_query body mode key entry st =
     (let cfg = ap_config ap;
          rewritten_body = rewrite_aiapidev_request_body (rx_url E) body (resolved_external_image_proxy_prefix cfg)
            (image_fetch_external_proxy_domains cfg);
          target_path = rewrite_aiapidev_model_path target_path in
      case request_upstream_log (rx_serde E) (aq_admin st \<noteq> None) rewritten_body of
        Err err \<Rightarrow> (Some (failure err entry), st)
      | Ok request_upstream \<Rightarrow>
          (case handle_aiapidev_response E cfg (ap_response_service ap) resolved target_path request_query
              rewritten_body mode key (aq_block st) (response_fetch st) of
             None \<Rightarrow> (None, st)
           | Some (response, cache, fs) \<Rightarrow>
               (Some (Ok (response,
                  (log_request_upstream request_upstream
                     (entry\<lparr>le_upstream_build_ms := rx_ms E ''upstream_build_ms''\<rparr>))
                    \<lparr>le_status_code := an_status response\<rparr>)),
                set_block cache (set_response_fetch fs st))))"

definition raw_model_of :: "string \<Rightarrow> string" where
  "raw_model_of target_path =
     unwrap_or (Option.bind (strip_prefix target_path ''/v1beta/models/'')
       (\<lambda>value. strip_suffix value '':generateContent'')) []"

text \<open>Sending to grsai: the head of the answer with the entry, or the failure.\<close>

definition send_grsai_request ::
  "('u, 'i, 'l, 'b) router_env \<Rightarrow> (string \<times> string) list \<Rightarrow> json \<Rightarrow> sanitized_admin_log option \<Rightarrow> string
   \<Rightarrow> admin_log_entry \<Rightarrow> (status \<times> string \<times> admin_log_entry) forwarding" where
  "send_grsai_request E headers request_body request_upstream upstream_url entry =
     (case rx_send E \<lparr>xq_method = ''POST'', xq_url = upstream_url, xq_headers = headers, xq_body = JsonBody request_body\<rparr> of
        Err err \<Rightarrow> failure (ReqwestError err) entry
      | Ok upstream_response \<Rightarrow>
          (let entry = log_request_upstream request_upstream
                 (entry\<lparr>le_upstream_build_ms := rx_ms E ''upstream_build_ms''\<rparr>) in
           case xa_body upstream_response of
             Err err \<Rightarrow> failure (read_body_error err) entry
           | Ok body_bytes \<Rightarrow> Ok (xa_status upstream_response, body_bytes, entry)))"

text \<open>The image of a grsai answer as a Gemini answer.\<close>

definition finish_grsai_gemini ::
  "('u, 'i, 'l, 'b) router_env \<Rightarrow> app \<Rightarrow> output_mode \<Rightarrow> string \<Rightarrow> admin_log_entry \<Rightarrow> ('l, 'b) app_state
   \<Rightarrow> forwarded option \<times> ('l, 'b) app_state" where
  "finish_grsai_gemini E ap mode image_url entry st =
     (case build_grsai_gemini_response E (ap_config ap) (ap_response_service ap) mode image_url (response_fetch st) of
        (r, fs) \<Rightarrow>
          (map_option (\<lambda>r. case r of
               Err err \<Rightarrow> failure err entry
             | Ok response \<Rightarrow>
                 Ok (response, entry\<lparr>le_status_code := an_status response,
                   le_response_process_ms := rx_ms E ''response_process_ms''\<rparr>)) r,
           set_response_fetch fs st))"

definition forward_grsai_gemini_request ::
  "('u, 'i, 'l, 'b) router_env \<Rightarrow> app \<Rightarrow> resolved_upstream \<Rightarrow> string option \<Rightarrow> string \<Rightarrow> json \<Rightarrow> output_mode
   \<Rightarrow> admin_log_entry \<Rightarrow> ('l, 'b) app_state \<Rightarrow> forwarded option \<times> ('l, 'b) app_state" where
  "forward_grsai_gemini_request E ap resolved request_query target_path body mode entry st =
     (let S = rx_serde E in
      case extract_gemini_params (rx_url E) body (raw_model_of target_path) request_query of
        Err err \<Rightarrow>
          (if ge_http_status err = BAD_REQUEST
           then (Some (Ok (grsai_proxy_error_response S entry BAD_REQUEST (ge_message err) ''validate_request''
             ''invalid_request'' (ge_body_text err))), st)
           else (Some (Ok (grsai_proxy_error_response S entry (ge_http_status err)
             (downstream_grsai_error_message err) ''parse_upstream_response'' ''invalid_request'' (ge_message err))), st))
      | Ok params \<Rightarrow>
          if blank (gp_prompt params)
          then (Some (Ok (grsai_proxy_error_response S entry BAD_REQUEST MSG_EMPTY_PROMPT ''validate_request''
            ''invalid_request'' ''Gemini prompt is empty'')), st)
          else
            (let request_body = build_grsai_request_body params in
             case request_upstream_log S (aq_admin st \<noteq> None) request_body of
               Err err \<Rightarrow> (Some (failure err entry), st)
             | Ok request_upstream \<Rightarrow>
                 (case build_upstream_url (rx_url E) (ru_base_url resolved) IMAGE_GENERATION_PATH None of
                    Err err \<Rightarrow> (Some (failure err entry), st)
                  | Ok upstream_url \<Rightarrow>
                      (case send_grsai_request E [(CONTENT_TYPE, APPLICATION_JSON), bearer (ru_api_key resolved)]
                          request_body request_upstream upstream_url entry of
                         Err f \<Rightarrow> (Some (Err f), st)
                       | Ok (status, body_bytes, entry) \<Rightarrow>
                           (case grsai_outcome E status body_bytes of
                              Err (status, message, kind, detail) \<Rightarrow>
                                (Some (Ok (grsai_proxy_error_response S entry status message
                                   ''parse_upstream_response'' kind detail)), st)
                            | Ok (_, image_url) \<Rightarrow> finish_grsai_gemini E ap mode image_url entry st)))))"

fun output_mode_name :: "output_mode \<Rightarrow> string" where
  "output_mode_name OutputBase64 = ''base64''"
| "output_mode_name OutputUrl = ''url''"

definition forward_gemini_request ::
  "('u, 'i, 'l, 'b) router_env \<Rightarrow> app \<Rightarrow> resolved_upstream \<Rightarrow> string \<Rightarrow> string option \<Rightarrow> (string \<times> string) list
   \<Rightarrow> json \<Rightarrow> request_log_snapshot \<Rightarrow> string option \<Rightarrow> ('l, 'b) app_state \<Rightarrow> forwarded option \<times> ('l, 'b) app_state" where
  "forward_gemini_request E ap resolved target_path request_query headers body request_log key st =
     (let mode = get_output_mode (rx_url E) request_query body;
          entry = (base_entry request_log)\<lparr>le_output_mode := output_mode_name mode\<rparr> in
      case resolve_provider (rx_url E) (ru_base_url resolved) of
        Upstream.Grsai \<Rightarrow> forward_grsai_gemini_request E ap resolved request_query target_path body mode entry st
      | Aiapidev \<Rightarrow> forward_aiapidev_gemini_request E ap resolved target_path request_query body mode key entry st
      | Transparent \<Rightarrow>
          forward_transparent_gemini_request E ap resolved target_path request_query headers body mode key entry st)"

section \<open>OpenAI image requests\<close>

definition too_many_images :: "admin_log_entry \<Rightarrow> admin_log_entry" where
  "too_many_images entry =
     entry\<lparr>le_status_code := BAD_REQUEST, le_error_source := ''proxy'', le_error_stage := ''validate_request'',
       le_error_kind := ''too_many_reference_images'', le_error_message := MSG_REFERENCE_IMAGES_TOO_MANY,
       le_error_detail := ''reference image count exceeds limit: max='' @ show_nat MAX_OPENAI_REFERENCE_IMAGES\<rparr>"

text \<open>Sending and answering, shared by edits and generations.\<close>

definition send_openai_request ::
  "('u, 'i, 'l, 'b) router_env \<Rightarrow> app \<Rightarrow> upstream_request \<Rightarrow> sanitized_admin_log option \<Rightarrow> string option
   \<Rightarrow> admin_log_entry \<Rightarrow> ('l, 'b) app_state \<Rightarrow> forwarded \<times> ('l, 'b) app_state" where
  "send_openai_request E ap request request_upstream key entry st =
     (case rx_send E request of
        Err err \<Rightarrow> (failure (ReqwestError err) entry, st)
      | Ok upstream_response \<Rightarrow>
          (let entry = log_request_upstream request_upstream
                 (entry\<lparr>le_upstream_build_ms := rx_ms E ''upstream_build_ms''\<rparr>) in
           case handle_openai_image_response E (ap_config ap) key upstream_response (aq_block st) of
             (Err err, cache) \<Rightarrow> (failure err entry, set_block cache st)
           | (Ok (response, durations), cache) \<Rightarrow>
               (Ok (response, log_durations durations (entry\<lparr>le_status_code := an_status response\<rparr>)),
                set_block cache st)))"

definition forward_openai_image_edit ::
  "('u, 'i, 'l, 'b) router_env \<Rightarrow> app \<Rightarrow> resolved_upstream \<Rightarrow> json \<Rightarrow> string option \<Rightarrow> sanitized_admin_log option
   \<Rightarrow> string option \<Rightarrow> admin_log_entry \<Rightarrow> ('l, 'b) app_state \<Rightarrow> forwarded option \<times> ('l, 'b) app_state" where
  "forward_openai_image_edit E ap resolved request_body request_query request_upstream key entry st =
     (case build_upstream_url (rx_url E) (ru_base_url resolved) ''/v1/images/edits'' request_query of
        Err err \<Rightarrow> (Some (failure err entry), st)
      | Ok upstream_url \<Rightarrow>
          (let tracking = build_request_cache_tracking (aq_admin st) in
           case build_happyapi_image_edit_form (rx_edit E) (rx_serde E) (rx_mime_error E) (ap_request_service ap)
               (ct_observes tracking) request_body (request_fetch st, []) of
             (None, _) \<Rightarrow> (None, st)
           | (Some form, fs, calls) \<Rightarrow>
               (case tracked calls tracking (set_request_fetch fs st) of
                  (tracking, st) \<Rightarrow>
                    (case form of
                       Err err \<Rightarrow> (Some (failure err entry), st)
                     | Ok parts \<Rightarrow>
                         (case send_openai_request E ap
                             \<lparr>xq_method = ''POST'', xq_url = upstream_url,
                              xq_headers = [bearer (ru_api_key resolved)], xq_body = FormBody parts\<rparr>
                             request_upstream key entry st of
                            (Err f, st) \<Rightarrow> (Some (Err f), st)
                          | (Ok (response, entry), st) \<Rightarrow>
                              (Some (Ok (response, update_request_cache_hits tracking entry)), st))))))"

definition finish_grsai_openai ::
  "('u, 'i, 'l, 'b) router_env \<Rightarrow> app \<Rightarrow> grsai_result \<Rightarrow> string \<Rightarrow> admin_log_entry \<Rightarrow> forwarded" where
  "finish_grsai_openai E ap parsed image_url entry =
     (let final_url = build_openai_image_output_url (rx_url E) (ap_config ap) ''grsai'' image_url;
          created = unwrap_or (opt_or (gr_end_time parsed) (gr_start_time parsed)) (rx_unix_now E) in
      case to_vec_or_fail (rx_serde E) (build_response_payload_from_uploaded [\<lparr>um_url = final_url\<rparr>] created) of
        Err err \<Rightarrow> failure err entry
      | Ok final_body \<Rightarrow>
          (let response = raw_response_with_body OK_200 APPLICATION_JSON final_body in
           Ok (response, entry\<lparr>le_status_code := an_status response,
             le_response_process_ms := rx_ms E ''response_process_ms''\<rparr>)))"

definition forward_grsai_openai_image_request ::
  "('u, 'i, 'l, 'b) router_env \<Rightarrow> app \<Rightarrow> resolved_upstream \<Rightarrow> json \<Rightarrow> string option \<Rightarrow> bool \<Rightarrow> admin_log_entry
   \<Rightarrow> forwarded" where
  "forward_grsai_openai_image_request E ap resolved request_body request_query enabled entry =
     (let S = rx_serde E in
      case extract_openai_params request_body of
        Err err \<Rightarrow>
          (let (status, message) = (if ge_http_status err = BAD_REQUEST then (BAD_REQUEST, ge_message err)
                 else (ge_http_status err, downstream_grsai_error_message err)) in
           Ok (grsai_openai_proxy_error_response S entry status message ''validate_request'' ''invalid_request''
             (ge_message err)))
      | Ok params \<Rightarrow>
          if blank (gp_prompt params)
          then Ok (grsai_openai_proxy_error_response S entry BAD_REQUEST MSG_EMPTY_PROMPT ''validate_request''
            ''invalid_request'' ''OpenAI prompt is empty'')
          else
            (let request_body = build_grsai_request_body params in
             case build_upstream_url (rx_url E) (ru_base_url resolved) IMAGE_GENERATION_PATH request_query of
               Err err \<Rightarrow> failure err entry
             | Ok upstream_url \<Rightarrow>
                 (case request_upstream_log S enabled request_body of
                    Err err \<Rightarrow> failure err entry
                  | Ok request_upstream \<Rightarrow>
                      (case send_grsai_request E [bearer (ru_api_key resolved), (CONTENT_TYPE, APPLICATION_JSON)]
                          request_body request_upstream upstream_url entry of
                         Err f \<Rightarrow> Err f
                       | Ok (status, body_bytes, entry) \<Rightarrow>
                           (case grsai_outcome E status body_bytes of
                              Err (status, message, kind, detail) \<Rightarrow>
                                Ok (grsai_openai_proxy_error_response S entry status message
                                  ''parse_upstream_response'' kind detail)
                            | Ok (parsed, image_url) \<Rightarrow> finish_grsai_openai E ap parsed image_url entry)))))"

definition forward_openai_image_request ::
  "('u, 'i, 'l, 'b) router_env \<Rightarrow> app \<Rightarrow> resolved_upstream \<Rightarrow> json \<Rightarrow> string option \<Rightarrow> request_log_snapshot
   \<Rightarrow> string option \<Rightarrow> ('l, 'b) app_state \<Rightarrow> forwarded option \<times> ('l, 'b) app_state" where
  "forward_openai_image_request E ap resolved request_body request_query request_log key st =
     (let S = rx_serde E; cfg = ap_config ap; enabled = (aq_admin st \<noteq> None);
          entry = (base_entry request_log)\<lparr>le_output_mode := ''url''\<rparr> in
      if MAX_OPENAI_REFERENCE_IMAGES < openai_image_reference_image_count request_body
      then (Some (Ok (proxy_error_response S BAD_REQUEST MSG_REFERENCE_IMAGES_TOO_MANY ''validate_request''
        ''too_many_reference_images'', too_many_images entry)), st)
      else
        (case request_upstream_log S enabled request_body of
           Err err \<Rightarrow> (Some (failure err entry), st)
         | Ok request_upstream \<Rightarrow>
             (case resolve_provider (rx_url E) (ru_base_url resolved) of
                Upstream.Grsai \<Rightarrow>
                  (Some (forward_grsai_openai_image_request E ap resolved request_body request_query enabled entry), st)
              | Aiapidev \<Rightarrow>
                  (case handle_aiapidev_openai_image_response E cfg resolved request_query request_body key (aq_block st) of
                     None \<Rightarrow> (None, st)
                   | Some (response, cache) \<Rightarrow>
                       (Some (Ok (response,
                          (log_request_upstream request_upstream
                             (entry\<lparr>le_upstream_build_ms := rx_ms E ''upstream_build_ms''\<rparr>))
                            \<lparr>le_status_code := an_status response\<rparr>)),
                        set_block cache st))
              | Transparent \<Rightarrow>
                  if should_use_openai_image_edits_for_upstream (rx_url E) cfg (ru_base_url resolved)
                     \<and> openai_image_request_has_images request_body
                  then forward_openai_image_edit E ap resolved request_body request_query request_upstream key entry st
                  else
                    (case build_upstream_url (rx_url E) (ru_base_url resolved) ''/v1/images/generations'' request_query of
                       Err err \<Rightarrow> (Some (failure err entry), st)
                     | Ok upstream_url \<Rightarrow>
                         map_prod Some id (send_openai_request E ap
                           \<lparr>xq_method = ''POST'', xq_url = upstream_url,
                            xq_headers = [(CONTENT_TYPE, APPLICATION_JSON), bearer (ru_api_key resolved)],
                            xq_body = JsonBody request_body\<rparr> request_upstream key entry st)))))"

end
