(* ===== verification/Server_Caches.thy ===== *)
theory Server_Caches
  imports Router_Forward
begin

text \<open>
  What the handlers keep of the caches they share: the fetch services (the table of running tasks, the
  memory cache and the files of the disk cache) and the cache of refusals.
\<close>

section \<open>The fetch services\<close>

text \<open>No image in the disk cache is longer than a \<open>u64\<close> can count; such a file could not have been fetched.\<close>

definition bodies_small :: "dir_files \<Rightarrow> bool" where
  "bodies_small files \<longleftrightarrow> (\<forall>stem b t. files (body_path stem) = Some (b, t) \<longrightarrow> length b < 2 ^ 64)"

text \<open>A service in order: its table of tasks, its images on disk, and its memory cache with the limit \<open>mx\<close>.\<close>

definition fetch_ok :: "'l memory_lru \<Rightarrow> u64 \<Rightarrow> fetch_service \<Rightarrow> 'l fetch_state \<Rightarrow> bool" where
  "fetch_ok L mx sv st \<longleftrightarrow>
     inflight_ok sv st \<and> bodies_small (st_files st)
     \<and> (case st_memory st of None \<Rightarrow> True | Some mc \<Rightarrow> memory_inv L mc \<and> mc_max_bytes mc = mx)"

lemma inflight_ok_caches [simp]:
  "inflight_ok sv (st\<lparr>st_memory := m\<rparr>) = inflight_ok sv st" "inflight_ok sv (st\<lparr>st_files := f\<rparr>) = inflight_ok sv st"
  by (simp_all add: inflight_ok_def)

text \<open>What a task or a direct fetch hands over has been read through a size limit.\<close>

definition published_small :: "published option \<Rightarrow> bool" where
  "published_small p \<longleftrightarrow> (\<forall>hit. p = Some (Ok hit) \<longrightarrow> length (cd_bytes hit) < 2 ^ 64)"

definition view_small :: "(nat \<Rightarrow> task_view) \<Rightarrow> bool" where
  "view_small view \<longleftrightarrow> (\<forall>t. published_small (tv_first (view t)) \<and> published_small (tv_last (view t)))"

definition fetched_small :: "fetched_inline_data fallible \<Rightarrow> bool" where
  "fetched_small r \<longleftrightarrow> (\<forall>f. r = Ok f \<longrightarrow> length (fi_bytes f) < 2 ^ 64)"

lemma bodies_smallD: "bodies_small files \<Longrightarrow> files (body_path stem) = Some (b, t) \<Longrightarrow> length b < 2 ^ 64"
  unfolding bodies_small_def by blast

lemma bodies_small_remove: "bodies_small files \<Longrightarrow> bodies_small (try_remove D path files)"
  by (auto simp: bodies_small_def try_remove_def split: if_splits)

lemma bodies_small_body: "bodies_small files \<Longrightarrow> length b < 2 ^ 64 \<Longrightarrow> bodies_small (files(body_path stem \<mapsto> (b, t)))"
  by (auto simp: bodies_small_def)

lemma bodies_small_meta: "bodies_small files \<Longrightarrow> bodies_small (files(meta_path stem \<mapsto> x))"
  by (auto simp: bodies_small_def meta_body_path_neq [symmetric])

lemma bodies_small_prune_loop: "bodies_small files \<Longrightarrow> bodies_small (prune_loop D mx n es files)"
  by (induction D mx n es files rule: prune_loop.induct) (auto intro: bodies_small_remove)

lemma disk_get_small:
  assumes "disk_get D files url = (r, files')" "bodies_small files"
  shows "bodies_small files' \<and> (\<forall>h. r = Ok (Some h) \<longrightarrow> length (cd_bytes h) < 2 ^ 64)"
  using assms bodies_smallD [OF assms(2)]
  by (auto simp: disk_get_def Let_def bodies_small_remove split: option.splits sum.splits prod.splits if_splits)

lemma prune_if_needed_small: "bodies_small files \<Longrightarrow> bodies_small (snd (prune_if_needed D dc files))"
  by (auto simp: prune_if_needed_def Let_def bodies_small_prune_loop split: option.splits)

lemma disk_set_small:
  assumes "bodies_small files" "length (cd_bytes h) < 2 ^ 64"
  shows "bodies_small (snd (disk_set D dc files url h))"
proof -
  have part: "length (take n (cd_bytes h)) < 2 ^ 64" for n using assms(2) by simp
  show ?thesis
    using assms part
    by (auto simp: disk_set_def Let_def bodies_small_body bodies_small_meta prune_if_needed_small
        split: option.splits sum.splits)
qed

text \<open>No operation changes the limit of the memory cache.\<close>

lemma evict_rounds_max [simp]: "mc_max_bytes (evict_rounds n L sz mc) = mc_max_bytes mc"
  by (induction n L sz mc rule: evict_rounds.induct) (auto split: option.splits prod.splits)

lemma memory_set_max [simp]: "mc_max_bytes (memory_set L mc url data) = mc_max_bytes mc"
  by (auto simp: memory_set_def evict_def memory_pop_def Let_def split: option.splits prod.splits)

lemma memory_get_max: "memory_get L mc url = (r, mc') \<Longrightarrow> mc_max_bytes mc' = mc_max_bytes mc"
  by (auto simp: memory_get_def split: option.splits prod.splits)

context memory_lru
begin

lemma memory_get_small:
  assumes "memory_inv L mc" "memory_get L mc url = (Some h, mc')"
  shows "length (cd_bytes h) < 2 ^ 64"
proof -
  from memory_get_state [OF assms] obtain e where e: "map_of (lru_items L (mc_items mc)) url = Some e" "cd_bytes h = me_bytes e"
    by (auto simp: memory_content_def dest: sym)
  from map_of_SomeD [OF e(1)] e(2) assms(1) show ?thesis by (auto simp: memory_inv_def entries_ok_def)
qed

lemma store_in_caches_ok:
  assumes "fetch_ok L mx sv st" "length (cd_bytes hit) < 2 ^ 64"
  shows "fetch_ok L mx sv (store_in_caches L D sv st url hit)"
  using assms memory_set_state [OF _ assms(2)]
  by (auto simp: fetch_ok_def store_in_caches_def disk_set_small Let_def split: option.splits)

lemma fetch_lookup_ok:
  assumes ok: "fetch_ok L mx sv st" and run: "fetch_lookup L D sv st url = (r, st')"
  shows "fetch_ok L mx sv st' \<and> (\<forall>f. r = Ok (Some f) \<longrightarrow> length (fr_bytes f) < 2 ^ 64)"
proof (cases "st_memory st")
  case None
  with assms show ?thesis
    by (auto simp: fetch_lookup_def fetch_ok_def cached_result_def Let_def
        split: option.splits sum.splits prod.splits dest: disk_get_small)
next
  case (Some mc)
  obtain h mc' where g: "memory_get L mc url = (h, mc')" by (cases "memory_get L mc url")
  have inv: "memory_inv L mc" using ok Some by (simp add: fetch_ok_def)
  have mem: "memory_inv L mc'" "mc_max_bytes mc' = mx"
    using memory_get_state [OF inv g] memory_get_max [OF g] ok Some by (simp_all add: fetch_ok_def)
  have small: "length (cd_bytes x) < 2 ^ 64" if "h = Some x" for x
    by (rule memory_get_small [OF inv g [unfolded that]])
  show ?thesis
  proof (cases h)
    case (Some x)
    with \<open>st_memory st = Some mc\<close> ok run g mem small show ?thesis
      by (auto simp: fetch_lookup_def fetch_ok_def cached_result_def Let_def)
  next
    case None
    have "memory_inv L (memory_set L mc' url x)" if "length (cd_bytes x) < 2 ^ 64" for x
      using memory_set_state [OF mem(1) that, of url] by simp
    with None \<open>st_memory st = Some mc\<close> ok run g mem disk_get_small [of D "st_files st" url] show ?thesis
      by (auto simp: fetch_lookup_def fetch_ok_def cached_result_def Let_def
          split: option.splits sum.splits prod.splits)
  qed
qed

lemma wait_for_task_small:
  assumes "published_small (tv_first v)" "published_small (tv_last v)" "wait_for_task sv v = Some (Ok f)"
  shows "length (fr_bytes f) < 2 ^ 64"
  using assms
  by (auto simp: wait_for_task_def published_small_def published_result_def last_look_def cached_result_def Let_def
      split: option.splits sum.splits if_splits)

lemma fetch_here_ok:
  assumes "fetch_ok L mx sv st" "fetched_small d" "fetch_here L D sv st url d = (r, st')"
  shows "fetch_ok L mx sv st' \<and> (\<forall>f. r = Ok f \<longrightarrow> length (fr_bytes f) < 2 ^ 64)"
  using assms by (auto simp: fetch_here_def fetched_small_def store_in_caches_ok split: sum.splits)

lemma fetch_keeps:
  assumes ok: "fetch_ok L mx sv st" and int: "\<And>s. fetch_ok L mx sv s \<Longrightarrow> fetch_ok L mx sv (interfere s)"
    and small: "view_small view" "fetched_small direct"
    and run: "fetch L D sv interfere view direct st url = (r, st')"
  shows "fetch_ok L mx sv st' \<and> (\<forall>f. r = Some (Ok f) \<longrightarrow> length (fr_bytes f) < 2 ^ 64)"
proof -
  obtain x s where lookup: "fetch_lookup L D sv st url = (x, s)" by (cases "fetch_lookup L D sv st url")
  note s = fetch_lookup_ok [OF ok lookup]
  have wait: "wait_for_task sv (view t) = Some (Ok f) \<Longrightarrow> length (fr_bytes f) < 2 ^ 64" for t f
    using small(1) wait_for_task_small by (auto simp: view_small_def)
  obtain reg s2 where reg: "fetch_register sv (interfere s) url = (reg, s2)" by (cases "fetch_register sv (interfere s) url")
  have s2: "fetch_ok L mx sv s2"
    using int [OF conjunct1 [OF s]] register_inflight_ok [of sv "interfere s" url] reg
    by (auto simp: fetch_ok_def fetch_register_def Let_def split: option.splits if_splits)
  show ?thesis
    using s s2 wait fetch_here_ok [OF s2 small(2)] run lookup reg
    by (auto simp: fetch_def Let_def split: sum.splits option.splits prod.splits registration.splits)
qed

lemma complete_task_keeps:
  assumes "fetch_ok L mx sv st" "fetched_small r"
  shows "fetch_ok L mx sv (complete_task L D F sv st t url r)"
proof -
  have "inflight_ok sv (complete_task L D F sv st t url (Err e))" for e
    using assms(1) by (intro complete_inflight_ok) (simp add: fetch_ok_def)
  then have "fetch_ok L mx sv (st\<lparr>st_published := (st_published st)(t := p), st_inflight := without url (st_inflight st)\<rparr>)" for p
    using assms(1) by (simp add: fetch_ok_def complete_task_def inflight_ok_def)
  then show ?thesis
    using assms(2) by (cases r) (auto simp: complete_task_def fetched_small_def intro!: store_in_caches_ok)
qed

end

section \<open>Where images are fetched\<close>

text \<open>The state of a service the proxy may not have.\<close>

definition service_ok :: "'l memory_lru \<Rightarrow> u64 \<Rightarrow> fetch_service option \<Rightarrow> 'l fetch_state \<Rightarrow> bool" where
  "service_ok L mx service st \<longleftrightarrow>
     bodies_small (st_files st) \<and> (case service of None \<Rightarrow> True | Some sv \<Rightarrow> fetch_ok L mx sv st)"

lemma service_ok_None [simp]: "service_ok L mx None st = bodies_small (st_files st)"
  by (simp add: service_ok_def)

lemma service_ok_Some [simp]: "service_ok L mx (Some sv) st = fetch_ok L mx sv st"
  by (auto simp: service_ok_def fetch_ok_def)

text \<open>What other requests do to the service meanwhile keeps it in order.\<close>

definition response_env_ok :: "'l memory_lru \<Rightarrow> u64 \<Rightarrow> fetch_service option \<Rightarrow> ('u, 'l) response_env \<Rightarrow> bool" where
  "response_env_ok L mx service E \<longleftrightarrow>
     rp_lru E = L \<and> (\<forall>n. view_small (rp_view E n) \<and> fetched_small (rp_direct E n)
       \<and> (\<forall>s. service_ok L mx service s \<longrightarrow> service_ok L mx service (rp_interfere E n s)))"

definition materialize_env_ok :: "'l memory_lru \<Rightarrow> u64 \<Rightarrow> fetch_service option \<Rightarrow> ('u, 'l, 'i) materialize_env \<Rightarrow> bool" where
  "materialize_env_ok L mx service E \<longleftrightarrow>
     mv_lru E = L \<and> (\<forall>url. view_small (mv_view E url) \<and> fetched_small (mv_direct E url)
       \<and> (\<forall>s. service_ok L mx service s \<longrightarrow> service_ok L mx service (mv_interfere E url s)))"

lemma fetch_output_image_keeps:
  assumes "memory_lru L" "response_env_ok L mx service E" "service_ok L mx service st"
    and "fetch_output_image E service n url st = (r, st')"
  shows "service_ok L mx service st'"
proof (cases service)
  case (Some sv)
  obtain x s where f: "fetch (rp_lru E) (rp_disk E) sv (rp_interfere E n) (rp_view E n) (rp_direct E n) st url = (x, s)"
    by (cases "fetch (rp_lru E) (rp_disk E) sv (rp_interfere E n) (rp_view E n) (rp_direct E n) st url")
  have "rp_lru E = L" using assms(2) by (simp add: response_env_ok_def)
  from memory_lru.fetch_keeps [OF assms(1) _ _ _ _ f [unfolded this]] assms Some f show ?thesis
    by (simp add: fetch_output_image_def response_env_ok_def)
qed (use assms in \<open>simp add: fetch_output_image_def\<close>)

lemma output_part_keeps:
  assumes "memory_lru L" "response_env_ok L mx service E" "service_ok L mx service st"
    and "output_part E mode service cfg n url st = (r, st')"
  shows "service_ok L mx service st'"
  using assms(3,4) fetch_output_image_keeps [OF assms(1-3)]
  by (auto simp: output_part_def split: output_mode.splits prod.splits)

lemma output_parts_keep:
  assumes "memory_lru L" "response_env_ok L mx service E"
  shows "service_ok L mx service st \<Longrightarrow> output_parts E mode service cfg n urls st = (r, st') \<Longrightarrow> service_ok L mx service st'"
proof (induction urls arbitrary: n st r st')
  case (Cons url urls)
  obtain x s where x: "output_part E mode service cfg n url st = (x, s)" by (cases "output_part E mode service cfg n url st")
  from output_part_keeps [OF assms Cons.prems(1) x] Cons.IH [of s "n + 1"] Cons.prems(2) x show ?case
    by (auto split: option.splits sum.splits prod.splits)
qed simp

lemma normalized_answers_keep:
  assumes "memory_lru L" "response_env_ok L mx service E" "service_ok L mx service st"
  shows "service_ok L mx service (snd (normalize_special_markdown_image_response E body mode service cfg st))"
    and "service_ok L mx service (snd (normalize_aiapidev_task_response E body mode service cfg st))"
  using assms(3)
  by (auto simp: normalize_special_markdown_image_response_def normalize_aiapidev_task_response_def Let_def
      split: option.splits prod.splits dest: output_part_keeps [OF assms] output_parts_keep [OF assms])

lemma edit_image_keeps:
  assumes "memory_lru L" "response_env_ok L mx service E" "service_ok L mx service (fst st)"
    and "fetch_happyapi_edit_image E service ob n url st = (r, s, calls)"
  shows "service_ok L mx service s"
proof (cases service)
  case (Some sv)
  obtain x t where f: "fetch (rp_lru E) (rp_disk E) sv (rp_interfere E n) (rp_view E n) (rp_direct E n) (fst st) url = (x, t)"
    by (cases "fetch (rp_lru E) (rp_disk E) sv (rp_interfere E n) (rp_view E n) (rp_direct E n) (fst st) url")
  have "rp_lru E = L" using assms(2) by (simp add: response_env_ok_def)
  from memory_lru.fetch_keeps [OF assms(1) _ _ _ _ f [unfolded this]] assms Some f show ?thesis
    by (auto simp: fetch_happyapi_edit_image_def response_env_ok_def split: option.splits sum.splits)
qed (use assms in \<open>auto simp: fetch_happyapi_edit_image_def\<close>)

lemma edit_image_parts_keep:
  assumes "memory_lru L" "response_env_ok L mx service E"
  shows "service_ok L mx service (fst st) \<Longrightarrow> edit_image_parts E mime_error service ob n vs st = (r, s, calls)
    \<Longrightarrow> service_ok L mx service s"
proof (induction vs arbitrary: n st r s calls)
  case (Cons v vs)
  show ?case
  proof (cases "as_str v")
    case (Some url)
    obtain x t cs where x: "fetch_happyapi_edit_image E service ob n url st = (x, t, cs)"
      by (rule prod_cases3)
    from edit_image_keeps [OF assms Cons.prems(1) x] Cons.IH [of "(t, cs)" "n + 1"] Cons.prems(2) x Some show ?thesis
      by (auto split: option.splits sum.splits prod.splits)
  qed (use Cons.prems in simp)
qed simp

lemma edit_form_keeps:
  assumes "memory_lru L" "response_env_ok L mx service E" "service_ok L mx service (fst st)"
    and "build_happyapi_image_edit_form E S mime_error service ob body st = (r, s, calls)"
  shows "service_ok L mx service s"
  using assms(4) edit_image_parts_keep [OF assms(1-3)] assms(3)
  by (auto simp: build_happyapi_image_edit_form_def split: option.splits sum.splits if_splits prod.splits)

section \<open>The cache of refusals\<close>

text \<open>
  The number of refusals kept, and the limit it was built with. Every operation leaves the limit.
\<close>

definition refusals_within :: "'b block_lru \<Rightarrow> nat \<Rightarrow> 'b upstream_block_cache option \<Rightarrow> bool" where
  "refusals_within B n cache \<longleftrightarrow> (case cache of None \<Rightarrow> True | Some c \<Rightarrow> \<exists>latest ttl. block_ok B latest ttl n c)"

lemma maybe_store_keeps:
  assumes "block_lru B" "refusals_within B n cache"
  shows "refusals_within B n (snd (maybe_store_upstream_block_error B S cache key now status ct body))"
  using assms(2) block_lru.insert_block_ok [OF assms(1)]
  by (fastforce simp: refusals_within_def maybe_store_upstream_block_error_def split: option.splits)

lemma lookup_keeps:
  assumes "block_lru (rx_block E)" "refusals_within (rx_block E) n (Some c)"
  shows "refusals_within (rx_block E) n (Some (snd (block_cache_get (rx_block E) c now k)))"
  using assms(2) block_lru.get_block_ok(1) [OF assms(1)] by (auto simp: refusals_within_def) blast

lemma pass_on_keeps:
  assumes "block_lru B" "refusals_within B n cache"
  shows "refusals_within B n (snd (pass_on_error B S cache key now status ct body))"
    and "refusals_within B n (snd (upstream_block_cache_json_error_response B S cache key now status v))"
  using maybe_store_keeps [OF assms]
  by (auto simp: pass_on_error_def upstream_block_cache_json_error_response_def Let_def split: prod.splits) (metis snd_conv)

lemma poll_once_keeps:
  assumes "block_lru (rx_block E)" "refusals_within (rx_block E) n cache"
  shows "refusals_within (rx_block E) n (snd (poll_once E base path auth key k f cache))"
proof -
  note store = maybe_store_keeps [OF assms(1)]
  show ?thesis
    using assms(2)
    by (auto simp: poll_once_def poll_error_status_def Let_def store split: sum.splits option.splits)
qed

lemma poll_loop_keeps:
  assumes lru: "block_lru (rx_block E)"
    and run: "Aiapidev.poll_loop E base path auth key k f cache = Some (r, m, cache')"
    and ok: "refusals_within (rx_block E) n cache"
  shows "refusals_within (rx_block E) n cache'"
proof -
  let ?P = "\<lambda>E'. \<lambda>base path auth key k f cache y.
      E' = E \<longrightarrow> refusals_within (rx_block E) n cache \<longrightarrow> refusals_within (rx_block E) n (snd (snd y))"
  have "?P E base path auth key k f cache (r, m, cache')"
  proof (rule Aiapidev.poll_loop.raw_induct [where P = ?P, OF _ run], intro impI)
    fix loop E' base path auth key k f cache y
    assume IH: "\<And>E'' base path auth key k f cache y. loop E'' base path auth key k f cache = Some y
        \<Longrightarrow> E'' = E \<longrightarrow> refusals_within (rx_block E) n cache \<longrightarrow> refusals_within (rx_block E) n (snd (snd y))"
      and body: "(case poll_once E' base path auth key k f cache of
          (Inl r, cache) \<Rightarrow> Some (r, k + 1, cache)
        | (Inr f, cache) \<Rightarrow> loop E' base path auth key (k + 1) f cache) = Some y"
      and "E' = E" "refusals_within (rx_block E) n cache"
    then show "refusals_within (rx_block E) n (snd (snd y))"
      using poll_once_keeps [OF lru, of n cache base path auth key k f]
      by (auto split: prod.splits sum.splits)
  qed
  with ok show ?thesis by simp
qed

section \<open>Handlers of answers\<close>

lemma gemini_final_json_keeps:
  assumes "memory_lru L" "response_env_ok L mx service (rx_response E)" "service_ok L mx service fs"
  shows "service_ok L mx service (snd (gemini_final_json E cfg service mode v fs))"
proof -
  obtain r fs' where n: "normalize_special_markdown_image_response (rx_response E) v mode service cfg fs = (r, fs')"
    by (cases "normalize_special_markdown_image_response (rx_response E) v mode service cfg fs")
  have "service_ok L mx service fs'" using normalized_answers_keep(1) [OF assms, of v mode cfg] n by simp
  then show ?thesis
    by (simp add: gemini_final_json_def n split: option.splits sum.splits prod.splits)
qed

lemma handle_non_stream_keeps:
  assumes "memory_lru L" "response_env_ok L mx service (rx_response E)" "service_ok L mx service fs"
    and "block_lru (rx_block E)" "refusals_within (rx_block E) n cache"
    and run: "handle_non_stream_response E cfg service mode key a cache fs = (r, cache', fs')"
  shows "refusals_within (rx_block E) n cache' \<and> service_ok L mx service fs'"
proof -
  have "refusals_within (rx_block E) n (snd (gemini_error_response E key s ct b cache))" for s ct b
    using pass_on_keeps(1) [OF assms(4,5)] by (simp add: gemini_error_response_def Let_def)
  then have e: "gemini_error_response E key s ct b cache = (x, c) \<Longrightarrow> refusals_within (rx_block E) n c" for s ct b x c
    by (metis snd_conv)
  have g: "gemini_final_json E cfg service mode v fs = (x, s) \<Longrightarrow> service_ok L mx service s" for v x s
    using gemini_final_json_keeps [OF assms(1-3), of cfg mode v] by simp
  show ?thesis
    using run assms(3,5)
    by (auto simp: handle_non_stream_response_def Let_def dest: e g split: sum.splits option.splits prod.splits if_splits)
qed

lemma handle_openai_keeps:
  assumes "block_lru (rx_block E)" "refusals_within (rx_block E) n cache"
    and "handle_openai_image_response E cfg key a cache = (r, cache')"
  shows "refusals_within (rx_block E) n cache'"
proof -
  have "pass_on_error (rx_block E) S cache k now status ct body = (x, c) \<Longrightarrow> refusals_within (rx_block E) n c"
    for S k now status ct body x c
    using pass_on_keeps(1) [OF assms(1,2)] by (metis snd_conv)
  then show ?thesis
    using assms(2,3) by (auto simp: handle_openai_image_response_def Let_def split: sum.splits prod.splits if_splits)
qed

lemma grsai_gemini_keeps:
  assumes "memory_lru L" "response_env_ok L mx service (rx_response E)" "service_ok L mx service fs"
    and "build_grsai_gemini_response E cfg service mode url fs = (r, fs')"
  shows "service_ok L mx service fs'"
  using assms(3,4) fetch_output_image_keeps [OF assms(1-3)]
  by (auto simp: build_grsai_gemini_response_def Let_def split: output_mode.splits option.splits sum.splits prod.splits)

lemma created_keeps:
  assumes "block_lru (rx_block E)" "refusals_within (rx_block E) n cache" "created_request_id E sent key cache = (r, cache')"
  shows "refusals_within (rx_block E) n cache'"
proof -
  have "refusals_within (rx_block E) n (snd (raw_reqwest_response E a key cache))" for a
    using assms(2) pass_on_keeps(1) [OF assms(1,2)] by (simp add: raw_reqwest_response_def split: sum.splits)
  then have "raw_reqwest_response E a key cache = (x, c) \<Longrightarrow> refusals_within (rx_block E) n c" for a x c by (metis snd_conv)
  with assms(2,3) show ?thesis
    by (auto simp: created_request_id_def Let_def split: sum.splits option.splits prod.splits if_splits)
qed

lemma aiapidev_keeps:
  assumes lru: "block_lru (rx_block E)" and cache: "refusals_within (rx_block E) n cache"
  shows "handle_aiapidev_openai_image_response E cfg u q v key cache = Some (a, cache') \<Longrightarrow> refusals_within (rx_block E) n cache'"
    and "memory_lru L \<Longrightarrow> response_env_ok L mx service (rx_response E) \<Longrightarrow> service_ok L mx service fs \<Longrightarrow>
      handle_aiapidev_response E cfg service u path q v mode key cache fs = Some (a, cache', fs')
      \<Longrightarrow> refusals_within (rx_block E) n cache' \<and> service_ok L mx service fs'"
proof -
  note created = created_keeps [OF lru cache]
  have failed: "failed_task_response E t key c = (x, c') \<Longrightarrow> refusals_within (rx_block E) n c \<Longrightarrow> refusals_within (rx_block E) n c'"
    for t c x c'
    using pass_on_keeps(2) [OF lru] unfolding failed_task_response_def by (metis snd_conv)
  note polled = poll_loop_keeps [OF lru]
  show "handle_aiapidev_openai_image_response E cfg u q v key cache = Some (a, cache') \<Longrightarrow> refusals_within (rx_block E) n cache'"
    using cache
    by (auto simp: handle_aiapidev_openai_image_response_def poll_aiapidev_openai_image_task_def
        dest: created polled failed split: sum.splits option.splits prod.splits if_splits)
  assume L: "memory_lru L" "response_env_ok L mx service (rx_response E)" "service_ok L mx service fs"
  have answer: "gemini_task_answer E cfg service mode t fs = Some (x, s) \<Longrightarrow> service_ok L mx service s" for t x s
    using normalized_answers_keep(2) [OF L, of t mode cfg]
    by (auto simp: gemini_task_answer_def split: option.splits sum.splits prod.splits)
  show "handle_aiapidev_response E cfg service u path q v mode key cache fs = Some (a, cache', fs')
      \<Longrightarrow> refusals_within (rx_block E) n cache' \<and> service_ok L mx service fs'"
    using cache L(3)
    by (auto simp: handle_aiapidev_response_def poll_aiapidev_task_def
        dest: created polled failed answer split: sum.splits option.splits prod.splits if_splits)
qed

end
