(* ===== verification/Server_Images.thy ===== *)
theory Server_Images
  imports Server_Caches
begin

text \<open>
  What preparing a request leaves in the blob store: whatever fails on the way, the counter of hot bytes
  stays the sum of the blobs in the store, among them every blob the request still refers to.
\<close>

section \<open>The blob store\<close>

text \<open>Removing a blob gives back its bytes if it is still there; a blob that is gone is not touched.\<close>

definition known :: "blob_runtime \<Rightarrow> blob_handle set \<Rightarrow> blob_handle \<Rightarrow> bool" where
  "known rt H h \<longleftrightarrow> h \<in> H \<or> bh_id h \<in> br_removed rt"

lemma remove_known:
  assumes "blob_inv rt H" "known rt H h" "remove_blob rt io h = (r, rt')"
  shows "blob_inv rt' (H - {h}) \<and> br_cfg rt' = br_cfg rt \<and> (\<forall>g. known rt H g \<longrightarrow> known rt' (H - {h}) g)"
proof (cases "h \<in> H")
  case True
  from remove_blob_inv [OF assms(1) True assms(3)] remove_blob_state [OF assms(1) True assms(3)] show ?thesis
    by (auto simp: known_def)
next
  case False
  with assms(2) have "bh_id h \<in> br_removed rt" by (simp add: known_def)
  with assms(3) have "rt' = rt" by (simp add: remove_blob_def)
  with False assms(1) show ?thesis by simp
qed

lemma remove_replacements_known:
  assumes "blob_inv rt H" "\<And>r. r \<in> set rs \<Longrightarrow> known rt H (rr_blob r)" "remove_replacements io rt rs = (x, rt')"
  shows "\<exists>H'. blob_inv rt' H' \<and> br_cfg rt' = br_cfg rt \<and> (\<forall>g. known rt H g \<longrightarrow> known rt' H' g)"
  using assms
proof (induction rs arbitrary: rt H)
  case (Cons r rs)
  obtain y rt1 where rm: "remove_blob rt (io (bh_id (rr_blob r))) (rr_blob r) = (y, rt1)"
    by (cases "remove_blob rt (io (bh_id (rr_blob r))) (rr_blob r)")
  have k: "known rt H (rr_blob r)" using Cons.prems(2) [of r] by simp
  note one = remove_known [OF Cons.prems(1) k rm]
  show ?case
  proof (cases y)
    case (Inl e)
    with Cons.prems(3) rm have "rt' = rt1" by simp
    with one show ?thesis by blast
  next
    case (Inr u)
    with Cons.prems(3) rm have rest: "remove_replacements io rt1 rs = (x, rt')" by simp
    have "\<And>r'. r' \<in> set rs \<Longrightarrow> known rt1 (H - {rr_blob r}) (rr_blob r')" using Cons.prems(2) one by simp
    from Cons.IH [OF conjunct1 [OF one] this rest] one show ?thesis by metis
  qed
qed auto

section \<open>Fetching the images of a request\<close>

definition materialize_ok :: "'l memory_lru \<Rightarrow> u64 \<Rightarrow> request_materialize_services \<Rightarrow> ('u, 'l, 'i) materialize_env \<Rightarrow> bool" where
  "materialize_ok L mx sv E \<longleftrightarrow>
     materialize_env_ok L mx (ms_fetch_service sv) E \<and> (ms_fetch_service sv = None \<longrightarrow> images_small E sv) \<and> order_ok E"

text \<open>The state of the work, with room for \<open>k\<close> more blobs and the blobs \<open>H\<close> in the store.\<close>

definition work_ok ::
  "'l memory_lru \<Rightarrow> u64 \<Rightarrow> request_materialize_services \<Rightarrow> blob_config \<Rightarrow> nat \<Rightarrow> blob_handle set \<Rightarrow> 'l work_state \<Rightarrow> bool" where
  "work_ok L mx sv cfg k H w \<longleftrightarrow>
     blob_inv (wk_runtime w) H \<and> br_cfg (wk_runtime w) = cfg \<and> ids_left k (wk_runtime w)
     \<and> service_ok L mx (ms_fetch_service sv) (wk_service w)"

lemma obtain_image_keeps:
  assumes L: "memory_lru L" and E: "materialize_ok L mx sv E" and s: "service_ok L mx (ms_fetch_service sv) (wk_service w)"
    and run: "obtain_image E sv url w = (r, w')"
  shows "service_ok L mx (ms_fetch_service sv) (wk_service w') \<and> wk_runtime w' = wk_runtime w
    \<and> (\<forall>f. r = Some (Ok f) \<longrightarrow> length (fr_bytes f) < 2 ^ 64)"
proof (cases "ms_fetch_service sv")
  case None
  then have "images_small E sv" using E by (simp add: materialize_ok_def)
  moreover have "r = Some (Ok f) \<Longrightarrow> obtained E sv url f" for f using run by (auto simp: obtained_def intro!: exI [of _ w])
  moreover have "w' = w" using run None by (auto simp: obtain_image_def)
  ultimately show ?thesis using s by (auto simp: images_small_def)
next
  case (Some fs)
  obtain x t where f: "fetch (mv_lru E) (mv_disk E) fs (mv_interfere E url) (mv_view E url) (mv_direct E url) (wk_service w) url = (x, t)"
    by (cases "fetch (mv_lru E) (mv_disk E) fs (mv_interfere E url) (mv_view E url) (mv_direct E url) (wk_service w) url")
  have e: "mv_lru E = L" "view_small (mv_view E url)" "fetched_small (mv_direct E url)"
    "\<And>s. fetch_ok L mx fs s \<Longrightarrow> fetch_ok L mx fs (mv_interfere E url s)"
    using E Some by (simp_all add: materialize_ok_def materialize_env_ok_def)
  from memory_lru.fetch_keeps [OF L _ e(4,2,3) f [unfolded e(1)]] s Some
  have "fetch_ok L mx fs t \<and> (\<forall>g. x = Some (Ok g) \<longrightarrow> length (fr_bytes g) < 2 ^ 64)" by simp
  with run Some f show ?thesis by (auto simp: obtain_image_def split: option.splits sum.splits)
qed

lemma fetch_request_image_keeps:
  assumes L: "memory_lru L" and E: "materialize_ok L mx sv E" and w: "work_ok L mx sv cfg (Suc k) H w"
    and run: "fetch_request_image E sv url w = (r, w')"
  shows "\<exists>H'. H \<subseteq> H' \<and> work_ok L mx sv cfg k H' w' \<and> (\<forall>u fb. r = Some (Ok (u, fb)) \<longrightarrow> fb_blob fb \<in> H')"
proof -
  obtain x w1 where ob: "obtain_image E sv url w = (x, w1)" by (cases "obtain_image E sv url w")
  note one = obtain_image_keeps [OF L E _ ob]
  have s1: "service_ok L mx (ms_fetch_service sv) (wk_service w1)" and rt1: "wk_runtime w1 = wk_runtime w"
    using one w by (auto simp: work_ok_def)
  have room: "ids_left 1 (wk_runtime w)" "ids_left k (wk_runtime w)" using w by (auto simp: work_ok_def intro: ids_left_mono)
  show ?thesis
  proof (cases "\<exists>f. x = Some (Ok f)")
    case True
    then obtain f where x: "x = Some (Ok f)" ..
    then have small: "length (fr_bytes f) < 2 ^ 64" using one w by (auto simp: work_ok_def)
    obtain y rt where st: "store_image (mv_store_io E url) f (wk_runtime w) = (y, rt)"
      by (cases "store_image (mv_store_io E url) f (wk_runtime w)")
    note stored = store_image_stored [OF st small]
    have inv: "blob_inv (wk_runtime w) H" "ids_left (Suc k) (wk_runtime w)" using w by (simp_all add: work_ok_def)
    show ?thesis
    proof (cases y)
      case (Inl e)
      then have "store_failed (wk_runtime w) rt" using stored by simp
      with store_failed_inv [OF inv(1) this room(1)] ids_left_next [OF inv(2), of rt] run ob x st Inl rt1 s1 w show ?thesis
        by (intro exI [of _ H]) (auto simp: fetch_request_image_def work_ok_def store_failed_def)
    next
      case (Inr h)
      then have as: "stored_as (wk_runtime w) rt h (fr_bytes f)" using stored by simp
      from stored_as_inv [OF inv(1) as small room(1)] ids_left_next [OF inv(2), of rt] as [unfolded stored_as_def]
        run ob x st Inr rt1 s1 w show ?thesis
        by (intro exI [of _ "insert h H"]) (auto simp: fetch_request_image_def work_ok_def)
    qed
  next
    case False
    with run ob have "w' = w1" "\<nexists>y. r = Some (Ok y)" by (auto simp: fetch_request_image_def split: option.splits sum.splits)
    with w s1 rt1 room(2) show ?thesis by (intro exI [of _ H]) (auto simp: work_ok_def)
  qed
qed

lemma work_ok_mono: "work_ok L mx sv cfg k H w \<Longrightarrow> m \<le> k \<Longrightarrow> work_ok L mx sv cfg m H w"
  by (auto simp: work_ok_def intro: ids_left_mono)

lemma run_late_keeps:
  assumes L: "memory_lru L" and E: "materialize_ok L mx sv E"
  shows "work_ok L mx sv cfg (length urls + k) H w \<Longrightarrow> \<exists>H'. H \<subseteq> H' \<and> work_ok L mx sv cfg k H' (run_late E sv urls w)"
proof (induction urls arbitrary: w H)
  case (Cons u us)
  show ?case
  proof (cases "mv_late E u")
    case True
    obtain r w1 where f: "fetch_request_image E sv u w = (r, w1)" by (cases "fetch_request_image E sv u w")
    from fetch_request_image_keeps [OF L E _ f, of cfg "length us + k" H] Cons.prems
    obtain H1 where "H \<subseteq> H1" "work_ok L mx sv cfg (length us + k) H1 w1" by auto
    with Cons.IH [of H1 w1] True f show ?thesis by (auto simp: run_late_def)
  next
    case False
    from Cons.prems have "work_ok L mx sv cfg (length us + k) H w" by (rule work_ok_mono) simp
    with Cons.IH [of H w] False show ?thesis by (simp add: run_late_def)
  qed
qed (auto simp: run_late_def)

lemma join_tasks_keeps:
  assumes L: "memory_lru L" and E: "materialize_ok L mx sv E"
  shows "work_ok L mx sv cfg (length urls + k) H w \<Longrightarrow> blobs_of M \<subseteq> H \<Longrightarrow> join_tasks E sv urls M hangs w = (r, w')
    \<Longrightarrow> \<exists>H'. H \<subseteq> H' \<and> work_ok L mx sv cfg k H' w' \<and> (\<forall>M'. r = Some (Ok M') \<longrightarrow> blobs_of M' \<subseteq> H')"
proof (induction urls arbitrary: w H M hangs)
  case (Cons u us)
  obtain x w1 where f: "fetch_request_image E sv u w = (x, w1)" by (cases "fetch_request_image E sv u w")
  from fetch_request_image_keeps [OF L E _ f, of cfg "length us + k" H] Cons.prems(1)
  obtain H1 where H1: "H \<subseteq> H1" "work_ok L mx sv cfg (length us + k) H1 w1" "\<forall>u fb. x = Some (Ok (u, fb)) \<longrightarrow> fb_blob fb \<in> H1"
    by auto
  have sub: "blobs_of M \<subseteq> H1" using Cons.prems(2) H1(1) by blast
  have add: "blobs_of (M(v \<mapsto> fb)) \<subseteq> insert (fb_blob fb) (blobs_of M)" for v fb
    by (auto simp: blobs_of_def ran_def split: if_splits)
  consider (hang) "x = None" | (err) e where "x = Some (Err e)" | (ok) v fb where "x = Some (Ok (v, fb))"
    by (metis obj_sumE option.exhaust surj_pair)
  then show ?case
  proof cases
    case hang
    with Cons.IH [OF H1(2) sub, of True] Cons.prems(3) f H1(1) show ?thesis by auto
  next
    case err
    with run_late_keeps [OF L E H1(2)] Cons.prems(3) f H1(1) show ?thesis by auto
  next
    case ok
    with H1(3) sub add [of v fb] have "blobs_of (M(v \<mapsto> fb)) \<subseteq> H1" by auto
    moreover have "join_tasks E sv us (M(v \<mapsto> fb)) hangs w1 = (r, w')" using ok Cons.prems(3) f by simp
    ultimately show ?thesis using Cons.IH [OF H1(2)] H1(1) by (meson subset_trans)
  qed
qed (auto split: if_splits)

lemma scan_at_most_seven: "scan_request_image_urls request = Ok refs \<Longrightarrow> length refs \<le> 7"
  by (auto simp: scan_eq_refs within_limit_def MAX_INLINE_DATA_URLS_def split: if_splits)

lemma replacements_blobs: "collect_results (replacement_for M) refs = Ok rs \<Longrightarrow> rr_blob ` set rs \<subseteq> blobs_of M"
proof (induction refs arbitrary: rs)
  case (Cons a as)
  then obtain r rs' where r: "replacement_for M a = Ok r" "collect_results (replacement_for M) as = Ok rs'" "rs = r # rs'"
    by (auto split: sum.splits)
  from r(1) have "rr_blob r \<in> blobs_of M"
    by (auto simp: replacement_for_def blobs_of_def split: option.splits intro!: image_eqI ranI)
  with Cons.IH [OF r(2)] r(3) show ?case by simp
qed simp

lemma materialize_keeps:
  assumes L: "memory_lru L" and E: "materialize_ok L mx sv E" and w: "work_ok L mx sv cfg (7 + k) H w"
    and run: "materialize_request_images_with_services E sv request w = (r, w')"
  shows "\<exists>H'. H \<subseteq> H' \<and> work_ok L mx sv cfg k H' w' \<and> (\<forall>m. r = Some (Ok m) \<longrightarrow> rr_blob ` set (mr_replacements m) \<subseteq> H')"
proof (cases "scan_request_image_urls request")
  case (Inl e)
  have "work_ok L mx sv cfg k H w" using w by (rule work_ok_mono) simp
  with Inl run show ?thesis by (auto simp: materialize_request_images_with_services_def)
next
  case (Inr refs)
  let ?urls = "mv_order E (unique_urls (map ir_url refs) {})"
  have "distinct ?urls" "set ?urls = set (map ir_url refs)"
    using E distinct_unique_urls [of "map ir_url refs" "{}"] set_unique_urls [of "map ir_url refs" "{}"]
    by (auto simp: materialize_ok_def order_ok_def)
  then have "length ?urls \<le> length refs" using distinct_card [of ?urls] card_length [of "map ir_url refs"] by simp
  then have w': "work_ok L mx sv cfg (length ?urls + k) H w"
    using scan_at_most_seven [OF Inr] w by (auto intro: work_ok_mono)
  obtain j w1 where j: "join_tasks E sv ?urls Map.empty False w = (j, w1)" by (cases "join_tasks E sv ?urls Map.empty False w")
  have none: "blobs_of Map.empty \<subseteq> H" by (simp add: blobs_of_def)
  obtain H' where H': "H \<subseteq> H'" "work_ok L mx sv cfg k H' w1" "\<forall>M. j = Some (Ok M) \<longrightarrow> blobs_of M \<subseteq> H'"
    using join_tasks_keeps [OF L E w' none j] by blast
  have sub: "rr_blob ` set rs \<subseteq> blobs_of M" if "collect_results (replacement_for M) refs = Ok rs" for M rs
    using that by (rule replacements_blobs)
  show ?thesis
  proof (cases "\<exists>M rs. j = Some (Ok M) \<and> collect_results (replacement_for M) refs = Ok rs")
    case True
    then obtain M rs where M: "j = Some (Ok M)" "collect_results (replacement_for M) refs = Ok rs" by blast
    then have "r = Some (Ok \<lparr>mr_request = request, mr_replacements = rs\<rparr>)" "w' = w1"
      using run Inr j by (simp_all add: materialize_request_images_with_services_def)
    with H' sub [OF M(2)] M(1) show ?thesis by (intro exI [of _ H']) auto
  next
    case False
    with run Inr j have "w' = w1" "\<nexists>m. r = Some (Ok m)"
      by (auto simp: materialize_request_images_with_services_def split: option.splits sum.splits)
    with H' show ?thesis by (intro exI [of _ H']) auto
  qed
qed

section \<open>Encoding the body\<close>

text \<open>No body of more bytes than a \<open>u64\<close> can count comes out of the pipe.\<close>

definition pipe_small :: "pipe_env \<Rightarrow> bool" where
  "pipe_small P \<longleftrightarrow> (\<forall>t b. stream_content (pe_pipe P t) = Some b \<longrightarrow> length b < 2 ^ 64)"

lemma stream_abort_failed: "store_failed rt (stream_abort rt io reads)"
proof -
  obtain r fs where loop:
    "stream_loop io (stream_inline_limit (br_cfg rt)) (spill_path (br_cfg rt) (br_next_id rt)) reads 0 [] False (br_fs rt) = (r, fs)"
    by fastforce
  have "fs p = br_fs rt p" if "p \<noteq> spill_path (br_cfg rt) (br_next_id rt)" for p
    using touches_onlyD [OF touches_only_stream_loop loop that] .
  then show ?thesis by (simp add: stream_abort_def next_id_def store_failed_def loop)
qed

lemma store_stream_keeps:
  assumes inv: "blob_inv rt H" "ids_left 1 rt"
    and small: "\<And>b. stream_content reads = Some b \<Longrightarrow> length b < 2 ^ 64"
    and run: "store_stream rt io reads mime = (r, rt')"
  shows "\<exists>H'. H \<subseteq> H' \<and> blob_inv rt' H' \<and> br_cfg rt' = br_cfg rt \<and> (\<forall>h. r = Ok h \<longrightarrow> h \<in> H')"
proof (cases r)
  case (Inl e)
  have f: "store_failed rt rt'" by (rule store_stream_Err) (rule run [unfolded Inl])
  from store_failed_inv [OF inv(1) f inv(2)] f Inl show ?thesis
    by (intro exI [of _ H]) (auto simp: store_failed_def)
next
  case (Inr h)
  obtain b where b: "length b < 2 ^ 64" "stored_as rt rt' h b"
    using store_stream_Ok [OF run [unfolded Inr]] small by auto
  from stored_as_inv [OF inv(1) b(2,1) inv(2)] b(2) Inr show ?thesis
    by (intro exI [of _ "insert h H"]) (auto simp: stored_as_def)
qed

lemma encode_keeps:
  assumes inv: "blob_inv (ee_runtime E) H" "ids_left 1 (ee_runtime E)" and small: "pipe_small P"
    and run: "encode_request_body E P request rs = (r, rt')"
  shows "\<exists>H'. H \<subseteq> H' \<and> blob_inv rt' H' \<and> br_cfg rt' = br_cfg (ee_runtime E)
    \<and> (\<forall>e. r = Ok e \<longrightarrow> eb_body_blob e \<in> H')"
proof (cases "write_json_value E (replacement_map rs) (strip_output_from_value request) [] ([], 0)")
  case (Inl e)
  have "store_failed (ee_runtime E) (stream_abort (ee_runtime E) io reads)" for io reads by (rule stream_abort_failed)
  with store_failed_inv [OF inv(1) this inv(2)] Inl run inv(1) show ?thesis
    by (intro exI [of _ H]) (auto simp: encode_request_body_def store_failed_def Let_def split: option.splits)
next
  case (Inr w)
  obtain body n where w: "w = (body, n)" by (cases w)
  obtain x rt1 where st: "store_stream (ee_runtime E) (pe_faults P) (pe_pipe P body) ''application/json'' = (x, rt1)"
    by fastforce
  have "\<And>b. stream_content (pe_pipe P body) = Some b \<Longrightarrow> length b < 2 ^ 64" using small by (auto simp: pipe_small_def)
  from store_stream_keeps [OF inv this st] run Inr w st show ?thesis
    by (auto simp: encode_request_body_def Let_def split: sum.splits)
qed

end
