(* ===== verification/Router.thy ===== *)
theory Router
  imports Router_Forward
begin

text \<open>
  The handlers of \<^verbatim>\<open>src/http/router.rs\<close>: the two that forward requests, from the first byte of the
  request to the entry in the admin log, and the admin pages. A handler returns its answer and the
  new state; no answer (\<open>None\<close>) is a wait that never ends.
\<close>

definition MAX_REQUEST_BODY_BYTES :: nat where
  "MAX_REQUEST_BODY_BYTES = 20 * 1024 * 1024"

text \<open>
  A request: its headers with lower-case names in order, and \<open>cq_body n\<close> what \<^verbatim>\<open>to_bytes(body, n)\<close>
  returns.
\<close>

record client_request =
  cq_method :: string
  cq_path :: string
  cq_query :: "string option"
  cq_headers :: "(string \<times> string) list"
  cq_body :: "nat \<Rightarrow> (body_read_error, string) result"

section \<open>Finishing a request\<close>

definition preserves_admin_error_fields :: "admin_log_entry \<Rightarrow> bool" where
  "preserves_admin_error_fields entry \<longleftrightarrow>
     le_error_source entry = ''proxy'' \<and> le_error_stage entry = ''upstream_block_cache''
     \<and> le_error_kind entry = ''cache_hit''"

definition apply_structured_proxy_error :: "structured_error \<Rightarrow> admin_log_entry \<Rightarrow> admin_log_entry" where
  "apply_structured_proxy_error structured entry =
     entry\<lparr>le_error_source := ''proxy'', le_error_stage := se_stage structured, le_error_kind := se_kind structured,
       le_error_message := se_message structured, le_error_detail := se_detail structured\<rparr>"

definition apply_admin_error_fields :: "status \<Rightarrow> json \<Rightarrow> string \<Rightarrow> admin_log_entry \<Rightarrow> admin_log_entry" where
  "apply_admin_error_fields status response_json sanitized_response entry =
     (case Option.bind (jget ''error'' response_json) as_object of
        None \<Rightarrow> entry
      | Some error \<Rightarrow>
          (let field = (\<lambda>k. unwrap_or (Option.bind (obj_get error k) as_str) []);
               entry = entry\<lparr>le_error_source := field ''source'', le_error_stage := field ''stage'',
                 le_error_kind := field ''kind'', le_error_message := field ''message''\<rparr>
           in if le_error_source entry = ''upstream''
              then entry\<lparr>le_upstream_status_code := status, le_upstream_error_body := sanitized_response\<rparr>
              else entry))"

text \<open>What the body of the answer adds to the entry.\<close>

definition log_response_body :: "serde \<Rightarrow> http_answer \<Rightarrow> admin_log_entry \<Rightarrow> admin_log_entry" where
  "log_response_body S response entry =
     (let body_bytes = an_body response in
      if body_bytes = [] then entry
      else
        (let sanitized = sanitize_json_for_log S body_bytes;
             entry = entry\<lparr>le_response_images := sl_image_urls sanitized, le_response_downstream := sl_pretty sanitized\<rparr>
         in case from_slice S body_bytes of
              Err _ \<Rightarrow> entry
            | Ok v \<Rightarrow>
                (let entry = entry\<lparr>le_finish_reason := unwrap_or (extract_finish_reason v) []\<rparr> in
                 if preserves_admin_error_fields entry then entry
                 else apply_admin_error_fields (unwrap_or (an_upstream_status response) (an_status response)) v
                   (sl_pretty sanitized) entry)))"

definition final_entry :: "serde \<Rightarrow> http_answer \<Rightarrow> admin_log_entry \<Rightarrow> admin_log_entry" where
  "final_entry S response entry =
     (log_response_body S response
        (case an_upstream_status response of
           None \<Rightarrow> entry
         | Some status \<Rightarrow> entry\<lparr>le_upstream_status_code := status\<rparr>))
       \<lparr>le_status_code := an_status response\<rparr>"

text \<open>The line of \<^verbatim>\<open>log_slow_request\<close>: path, status and duration, or nothing.\<close>

definition log_slow_request :: "config \<Rightarrow> admin_log_entry \<Rightarrow> (string \<times> nat \<times> i64) option" where
  "log_slow_request cfg entry =
     (if slow_log_threshold cfg = 0 then None
      else if le_duration_ms entry <s of_nat (slow_log_threshold cfg) then None
      else Some (le_path entry, le_status_code entry, le_duration_ms entry))"

text \<open>The line of \<open>log_slow_request\<close> goes to the process log, which is not part of the state.\<close>

definition finalize_admin_response ::
  "serde \<Rightarrow> http_answer \<Rightarrow> admin_log_entry \<Rightarrow> ('l, 'b) app_state \<Rightarrow> http_answer \<times> ('l, 'b) app_state" where
  "finalize_admin_response S response entry st =
     (case aq_admin st of
        None \<Rightarrow> (response, st)
      | Some admin \<Rightarrow> (response, st\<lparr>aq_admin := Some (log_entry admin (final_entry S response entry))\<rparr>))"

section \<open>Accepting a request\<close>

definition request_entry ::
  "('u, 'i, 'l, 'b) router_env \<Rightarrow> client_request \<Rightarrow> admin_log_entry \<Rightarrow> admin_log_entry" where
  "request_entry E req entry =
     entry\<lparr>le_created_at := rx_created_at E, le_method := cq_method req, le_path := cq_path req,
       le_query := unwrap_or (cq_query req) [],
       le_remote_addr := unwrap_or (Option.bind (map_of (cq_headers req) ''x-forwarded-for'') (rx_to_str E)) [],
       le_is_stream := False, le_duration_ms := rx_ms E ''duration_ms''\<rparr>"

text \<open>The entry of a request that is refused before it is forwarded.\<close>

definition refused_entry ::
  "('u, 'i, 'l, 'b) router_env \<Rightarrow> client_request \<Rightarrow> request_log_snapshot option \<Rightarrow> status \<Rightarrow> admin_log_entry" where
  "refused_entry E req request_log status =
     (let entry = (request_entry E req entry_default)\<lparr>le_status_code := status,
            le_request_parse_ms := rx_ms E ''request_parse_ms''\<rparr>
      in case request_log of None \<Rightarrow> entry | Some snapshot \<Rightarrow> apply_to_entry snapshot entry)"

definition with_proxy_error :: "string \<Rightarrow> string \<Rightarrow> string \<Rightarrow> string \<Rightarrow> admin_log_entry \<Rightarrow> admin_log_entry" where
  "with_proxy_error stage kind message detail entry =
     entry\<lparr>le_error_source := ''proxy'', le_error_stage := stage, le_error_kind := kind,
       le_error_message := message, le_error_detail := detail\<rparr>"

text \<open>The steps both handlers begin with: the body, its JSON, the upstream it goes to.\<close>

definition accept_request ::
  "('u, 'i, 'l, 'b) router_env \<Rightarrow> app \<Rightarrow> client_request \<Rightarrow> bool
   \<Rightarrow> (http_answer \<times> admin_log_entry, request_log_snapshot \<times> json \<times> resolved_upstream) result" where
  "accept_request E ap req enabled =
     (let S = rx_serde E in
      case cq_body req MAX_REQUEST_BODY_BYTES of
        Err err \<Rightarrow>
          (let (status, message, kind) = request_body_read_error_response err in
           Err (proxy_error_response S status message ''read_request_body'' kind,
             with_proxy_error ''read_request_body'' kind message (bd_text err) (refused_entry E req None status)))
      | Ok request_body \<Rightarrow>
          (let request_log = from_request_body S request_body enabled in
           case from_slice S request_body of
             Err err \<Rightarrow>
               Err (invalid_json_response S,
                 with_proxy_error ''parse_request_json'' ''invalid_json'' MSG_INVALID_REQUEST_JSON
                   (MSG_INVALID_REQUEST_JSON @ '': '' @ err) (refused_entry E req (Some request_log) BAD_REQUEST))
           | Ok parsed_body \<Rightarrow>
               (case resolve_upstream_for_request_from_header_map (rx_url E) (rx_to_str E) (cq_headers req) parsed_body
                   (upstream_base_url (ap_config ap)) (upstream_api_key (ap_config ap)) of
                  Err err \<Rightarrow>
                    (let status = resolve_error_status err in
                     Err (error_answer S status (re_message err), refused_entry E req (Some request_log) status))
                | Ok resolved \<Rightarrow> Ok (request_log, parsed_body, resolved))))"

definition block_cache_hit_entry :: "request_log_snapshot \<Rightarrow> cached_block_response \<Rightarrow> admin_log_entry" where
  "block_cache_hit_entry request_log hit =
     with_proxy_error ''upstream_block_cache'' ''cache_hit'' ''upstream block cache hit''
       (''upstream_block_cache_hit:'' @ cb_reason hit)
       ((base_entry request_log)\<lparr>le_status_code := cb_status hit, le_upstream_status_code := cb_upstream_status hit\<rparr>)"

text \<open>The key exists only when there is a cache.\<close>

definition request_block_key ::
  "('u, 'i, 'l, 'b) router_env \<Rightarrow> client_request \<Rightarrow> resolved_upstream \<Rightarrow> json \<Rightarrow> ('l, 'b) app_state \<Rightarrow> string option" where
  "request_block_key E req resolved body st =
     map_option (\<lambda>_. block_cache_key (rx_serde E) (rx_sha256_hex E) (cq_path req) (ru_base_url resolved) body) (aq_block st)"

definition answer_from_block_cache ::
  "('u, 'i, 'l, 'b) router_env \<Rightarrow> client_request \<Rightarrow> request_log_snapshot \<Rightarrow> string option \<Rightarrow> ('l, 'b) app_state
   \<Rightarrow> (http_answer \<times> admin_log_entry) option \<times> ('l, 'b) app_state" where
  "answer_from_block_cache E req request_log key st =
     (case (aq_block st, key) of
        (Some cache, Some k) \<Rightarrow>
          (case block_cache_get (rx_block E) cache (rx_lookup_now E) k of
             (None, cache) \<Rightarrow> (None, set_block (Some cache) st)
           | (Some hit, cache) \<Rightarrow>
               (Some (response_from_block_cache_hit (rx_serde E) hit,
                  (request_entry E req (block_cache_hit_entry request_log hit))
                    \<lparr>le_request_parse_ms := rx_ms E ''request_parse_ms''\<rparr>),
                set_block (Some cache) st))
      | _ \<Rightarrow> (None, st))"

text \<open>The answer and the entry for a failed forward.\<close>

definition forward_failed ::
  "('u, 'i, 'l, 'b) router_env \<Rightarrow> bool \<Rightarrow> anyhow \<Rightarrow> admin_log_entry \<Rightarrow> http_answer \<times> admin_log_entry" where
  "forward_failed E classifies err entry =
     (if classifies
      then (forward_failure_response (rx_serde E) err,
            case classify_standard_proxy_error_detail err of
              Some structured \<Rightarrow> apply_structured_proxy_error structured entry
            | None \<Rightarrow> entry)
      else (error_answer (rx_serde E) BAD_GATEWAY MSG_PROXY_INTERNAL_ERROR, entry))"

section \<open>The two forwarding handlers\<close>

definition finish ::
  "('u, 'i, 'l, 'b) router_env \<Rightarrow> http_answer \<times> admin_log_entry \<Rightarrow> ('l, 'b) app_state
   \<Rightarrow> http_answer option \<times> ('l, 'b) app_state" where
  "finish E answered st = map_prod Some id (finalize_admin_response (rx_serde E) (fst answered) (snd answered) st)"

definition image_generations_action ::
  "('u, 'i, 'l, 'b) router_env \<Rightarrow> app \<Rightarrow> client_request \<Rightarrow> ('l, 'b) app_state
   \<Rightarrow> http_answer option \<times> ('l, 'b) app_state" where
  "image_generations_action E ap req st =
     (let S = rx_serde E; request_parse_ms = rx_ms E ''request_parse_ms'' in
      case accept_request E ap req (aq_admin st \<noteq> None) of
        Err refused \<Rightarrow> finish E refused st
      | Ok (request_log, parsed_body, resolved) \<Rightarrow>
          (let force_b64_json = should_force_openai_image_b64_json_for_upstream (rx_url E) (ap_config ap)
                 (ru_base_url resolved) in
           case normalize_request_body_for_upstream (rx_url E) parsed_body force_b64_json (ru_base_url resolved) of
             Err err \<Rightarrow>
               finish E (error_answer S BAD_REQUEST (downstream_anyhow_message (rx_fmt E) err),
                 with_proxy_error ''normalize_openai_image_request'' ''invalid_request''
                   ''invalid openai image request'' (anyhow_text (rx_fmt E) err)
                   (refused_entry E req (Some request_log) BAD_REQUEST)) st
           | Ok normalized_body \<Rightarrow>
               (let key = request_block_key E req resolved normalized_body st in
                case answer_from_block_cache E req request_log key st of
                  (Some answered, st) \<Rightarrow> finish E answered st
                | (None, st) \<Rightarrow>
                    (case forward_openai_image_request E ap resolved normalized_body
                        (case unwrap_or (cq_query req) [] of [] \<Rightarrow> None | q \<Rightarrow> Some q) request_log key st of
                       (None, st) \<Rightarrow> (None, st)
                     | (Some (Ok (response, entry)), st) \<Rightarrow>
                         finish E (response, (request_entry E req entry)
                           \<lparr>le_request_parse_ms := le_request_parse_ms entry + request_parse_ms\<rparr>) st
                     | (Some (Err f), st) \<Rightarrow>
                         finish E (forward_failed E True (fw_error f)
                           ((request_entry E req (fw_admin_entry f))
                             \<lparr>le_status_code := BAD_GATEWAY,
                              le_request_parse_ms := le_request_parse_ms (fw_admin_entry f) + request_parse_ms\<rparr>)) st))))"

definition model_action ::
  "('u, 'i, 'l, 'b) router_env \<Rightarrow> app \<Rightarrow> string \<Rightarrow> client_request \<Rightarrow> ('l, 'b) app_state
   \<Rightarrow> http_answer option \<times> ('l, 'b) app_state" where
  "model_action E ap rest req st =
     (let S = rx_serde E; request_parse_ms = rx_ms E ''request_parse_ms'' in
      if \<not> ends_with rest '':generateContent''
      then finish E (error_answer S NOT_FOUND MSG_ROUTE_NOT_FOUND,
        (request_entry E req entry_default)\<lparr>le_status_code := NOT_FOUND\<rparr>) st
      else
        (case accept_request E ap req (aq_admin st \<noteq> None) of
           Err refused \<Rightarrow> finish E refused st
         | Ok (request_log, parsed_body, resolved) \<Rightarrow>
             (let key = request_block_key E req resolved parsed_body st in
              case answer_from_block_cache E req request_log key st of
                (Some answered, st) \<Rightarrow> finish E answered st
              | (None, st) \<Rightarrow>
                  (case forward_gemini_request E ap resolved (''/v1beta/models/'' @ rest) (cq_query req)
                      (cq_headers req) parsed_body request_log key st of
                     (None, st) \<Rightarrow> (None, st)
                   | (Some (Ok (response, entry)), st) \<Rightarrow>
                       finish E (response, (request_entry E req entry)\<lparr>le_request_parse_ms := request_parse_ms\<rparr>) st
                   | (Some (Err f), st) \<Rightarrow>
                       finish E (forward_failed E
                         (resolve_provider (rx_url E) (ru_base_url resolved) \<noteq> Aiapidev) (fw_error f)
                         ((request_entry E req (fw_admin_entry f))
                           \<lparr>le_status_code := BAD_GATEWAY, le_request_parse_ms := request_parse_ms\<rparr>)) st))))"

section \<open>The admin pages\<close>

definition authorize_admin ::
  "('u, 'i, 'l, 'b) router_env \<Rightarrow> ('l, 'b) app_state \<Rightarrow> (string \<times> string) list \<Rightarrow> http_answer option" where
  "authorize_admin E st headers =
     (case aq_admin st of
        None \<Rightarrow> Some (status_answer NOT_FOUND)
      | Some admin \<Rightarrow>
          if \<not> check_basic_auth (rx_b64 E) (rx_to_str E) admin headers then Some (unauthorized_response (rx_serde E))
          else None)"

definition admin_root ::
  "('u, 'i, 'l, 'b) router_env \<Rightarrow> ('l, 'b) app_state \<Rightarrow> (string \<times> string) list \<Rightarrow> http_answer" where
  "admin_root E st headers =
     (case authorize_admin E st headers of
        Some response \<Rightarrow> response
      | None \<Rightarrow> (status_answer FOUND)\<lparr>an_headers := [(''location'', ''/admin/logs'')]\<rparr>)"

text \<open>\<open>page\<close> is the embedded HTML page.\<close>

definition admin_logs_page ::
  "('u, 'i, 'l, 'b) router_env \<Rightarrow> http_answer \<Rightarrow> ('l, 'b) app_state \<Rightarrow> (string \<times> string) list \<Rightarrow> http_answer" where
  "admin_logs_page E page st headers = unwrap_or (authorize_admin E st headers) page"

definition admin_logs_api ::
  "('u, 'i, 'l, 'b) router_env \<Rightarrow> ('l, 'b) app_state \<Rightarrow> (string \<times> string) list \<Rightarrow> http_answer" where
  "admin_logs_api E st headers =
     (case authorize_admin E st headers of
        Some response \<Rightarrow> response
      | None \<Rightarrow>
          (case aq_admin st of
             Some admin \<Rightarrow> admin_logs_response (rx_serde E) admin
           | None \<Rightarrow> status_answer NOT_FOUND))"

definition admin_stats_api ::
  "('u, 'i, 'l, 'b) router_env \<Rightarrow> ('l, 'b) app_state \<Rightarrow> (string \<times> string) list \<Rightarrow> http_answer" where
  "admin_stats_api E st headers =
     (case authorize_admin E st headers of
        Some response \<Rightarrow> response
      | None \<Rightarrow>
          (case aq_admin st of
             Some admin \<Rightarrow> admin_stats_response (rx_serde E) admin (stats_snapshot (aq_runtime st))
           | None \<Rightarrow> status_answer NOT_FOUND))"

end
