(* ===== verification/Router_Safety.thy ===== *)
theory Router_Safety
  imports Router
begin

text \<open>
  What the handlers of \<open>Router\<close> promise together with the components they call: the admin pages are
  shown to the holder of the password only, every answered request is in the log once, an answered
  request leaves no blob behind, and a request the upstream has refused is not sent to it again.
\<close>

section \<open>The admin pages\<close>

text \<open>Credentials of RFC 7617 with the password, and no colon in the user name.\<close>

definition carries_password ::
  "base64_api \<Rightarrow> (string \<Rightarrow> string option) \<Rightarrow> (string \<times> string) list \<Rightarrow> string \<Rightarrow> bool" where
  "carries_password B to_str headers password \<longleftrightarrow>
     (\<exists>v e user. map_of headers ''authorization'' = Some v \<and> to_str v = Some (''Basic '' @ e)
        \<and> b64_decode B (trim e) = Ok (user @ CHR '':'' # password)
        \<and> CHR '':'' \<notin> set user \<and> utf8_valid (user @ CHR '':'' # password))"

lemma split_once_iff: "split_once c s = Some (a, b) \<longleftrightarrow> s = a @ c # b \<and> c \<notin> set a"
proof
  assume "split_once c s = Some (a, b)"
  then show "s = a @ c # b \<and> c \<notin> set a" by (auto dest: split_once_SomeD)
qed auto

lemma check_basic_auth_iff:
  "check_basic_auth B to_str st headers
   \<longleftrightarrow> \<not> blank (ad_password st) \<and> carries_password B to_str headers (ad_password st)"
proof
  assume "check_basic_auth B to_str st headers"
  then show "\<not> blank (ad_password st) \<and> carries_password B to_str headers (ad_password st)"
    by (fastforce simp: check_basic_auth_def admin_enabled_def carries_password_def strip_prefix_Some_iff
        bind_eq_Some_conv split_once_iff split: if_splits option.splits sum.splits)
next
  assume "\<not> blank (ad_password st) \<and> carries_password B to_str headers (ad_password st)"
  moreover have "strip_prefix (''Basic '' @ e) ''Basic '' = Some e" for e by (simp add: strip_prefix_Some_iff)
  ultimately show "check_basic_auth B to_str st headers"
    by (auto simp: check_basic_auth_def admin_enabled_def carries_password_def)
qed

text \<open>
  (C10) Without a configured password the four admin pages answer 404, as if they did not exist. With
  one, a caller sees the redirect, the page, the log or the statistics exactly when the first
  \<^verbatim>\<open>authorization\<close> header holds Basic credentials with that password; every other caller gets the
  same 401 with the challenge, whatever page was asked for.
\<close>

theorem admin_pages_guarded:
  "map (\<lambda>page. page st headers) [admin_root E, admin_logs_page E html, admin_logs_api E, admin_stats_api E] =
     (case aq_admin st of
        None \<Rightarrow> replicate 4 (status_answer NOT_FOUND)
      | Some admin \<Rightarrow>
          if \<not> blank (ad_password admin) \<and> carries_password (rx_b64 E) (rx_to_str E) headers (ad_password admin)
          then [(status_answer FOUND)\<lparr>an_headers := [(''location'', ''/admin/logs'')]\<rparr>, html,
                admin_logs_response (rx_serde E) admin,
                admin_stats_response (rx_serde E) admin (stats_snapshot (aq_runtime st))]
          else replicate 4 (unauthorized_response (rx_serde E)))"
  by (simp add: admin_root_def admin_logs_page_def admin_logs_api_def admin_stats_api_def authorize_admin_def
      check_basic_auth_iff numeral_nat split: option.splits)

section \<open>The log\<close>

text \<open>The statistics with some more cache hits.\<close>

definition add_hits :: "i64 \<Rightarrow> admin_state \<Rightarrow> admin_state" where
  "add_hits k a = a\<lparr>ad_stats := (ad_stats a)\<lparr>as_cache_hits := as_cache_hits (ad_stats a) + k\<rparr>\<rparr>"

lemma add_hits_simps [simp]: "add_hits 0 a = a" "add_hits j (add_hits k a) = add_hits (k + j) a"
  by (simp_all add: add_hits_def algebra_simps)

lemma map_add_hits_0 [simp]: "map_option (add_hits 0) admin = admin"
  by (cases admin) simp_all

lemma observe_fetches_counts:
  "observe_fetches calls (tracking, admin) =
     (tracking\<lparr>ct_hit_urls := ct_hit_urls tracking @ map fst (filter snd calls)\<rparr>,
      map_option (add_hits (of_nat (length (filter snd calls)))) admin)"
proof (induction calls arbitrary: tracking admin)
  case (Cons c calls)
  obtain u b where "c = (u, b)" by (cases c)
  then show ?case
    by (cases b; cases admin) (simp_all add: Cons.IH add_hits_def algebra_simps)
qed simp

lemma tracked_eq:
  "tracked calls tracking st =
     (tracking\<lparr>ct_hit_urls := ct_hit_urls tracking @ map fst (filter snd calls)\<rparr>,
      st\<lparr>aq_admin := map_option (add_hits (of_nat (length (filter snd calls)))) (aq_admin st)\<rparr>)"
  by (simp add: tracked_def observe_fetches_counts)

text \<open>The entry a forward hands back, whether it failed or not.\<close>

definition forwarded_entry :: "forwarded \<Rightarrow> admin_log_entry" where
  "forwarded_entry r = (case r of Ok (_, entry) \<Rightarrow> entry | Err f \<Rightarrow> fw_admin_entry f)"

lemma forwarded_entry_simps [simp]:
  "forwarded_entry (Inr (a, e)) = e" "forwarded_entry (failure err e) = e"
  "forwarded_entry (Inl f) = fw_admin_entry f"
  by (simp_all add: forwarded_entry_def failure_def)

abbreviation hits_of :: "admin_log_entry \<Rightarrow> i64" where
  "hits_of entry \<equiv> of_nat (length (le_request_raw_image_cache_hits entry))"


text \<open>What a forward does to the admin state: the cache hits of the images it fetched.\<close>

definition counts_hits :: "('l, 'b) app_state \<Rightarrow> forwarded option \<times> ('l, 'b) app_state \<Rightarrow> bool" where
  "counts_hits st x \<longleftrightarrow>
     (case x of
        (None, _) \<Rightarrow> True
      | (Some r, st') \<Rightarrow> aq_admin st' = map_option (add_hits (hits_of (forwarded_entry r))) (aq_admin st))"

lemma counts_hits_same:
  "counts_hits st (Some r, st') \<longleftrightarrow> aq_admin st' = aq_admin st"
  if "le_request_raw_image_cache_hits (forwarded_entry r) = []"
  using that by (auto simp: counts_hits_def)

lemma set_fetch_admin [simp]:
  "aq_admin (set_block c st) = aq_admin st" "aq_admin (set_response_fetch fs st) = aq_admin st"
  "aq_admin (set_request_fetch fs st) = aq_admin st"
  "aq_runtime (set_block c st) = aq_runtime st" "aq_runtime (set_response_fetch fs st) = aq_runtime st"
  "aq_runtime (set_request_fetch fs st) = aq_runtime st"
  "aq_block (set_block c st) = c" "aq_block (set_response_fetch fs st) = aq_block st"
  "aq_block (set_request_fetch fs st) = aq_block st"
  by (simp_all add: set_block_def set_response_fetch_def set_request_fetch_def)

lemma entry_hits [simp]:
  "le_request_raw_image_cache_hits (log_request_upstream u e) = le_request_raw_image_cache_hits e"
  "le_request_raw_image_cache_hits (log_durations d e) = le_request_raw_image_cache_hits e"
  "le_request_raw_image_cache_hits (log_image_work E e) = le_request_raw_image_cache_hits e"
  "le_request_raw_image_cache_hits (grsai_error_entry e s m g k t) = le_request_raw_image_cache_hits e"
  "le_request_raw_image_cache_hits (too_many_images e) = le_request_raw_image_cache_hits e"
  "le_request_raw_image_cache_hits (update_request_cache_hits trk e) = ct_hit_urls trk"
  "le_request_raw_image_cache_hits (apply_to_entry l e) = le_request_raw_image_cache_hits e"
  "le_request_raw_image_cache_hits (base_entry l) = []"
  "le_request_raw_image_cache_hits (request_entry F q e) = le_request_raw_image_cache_hits e"
  "le_request_raw_image_cache_hits (with_proxy_error g k m t e) = le_request_raw_image_cache_hits e"
  "le_request_raw_image_cache_hits entry_default = []"
  by (simp_all add: log_request_upstream_def log_durations_def log_image_work_def grsai_error_entry_def
      too_many_images_def update_request_cache_hits_def apply_to_entry_def base_entry_def request_entry_def
      with_proxy_error_def entry_default_def split: option.splits)


lemma prepare_counts:
  assumes p: "prepare_gemini_request E ap (build_request_cache_tracking (aq_admin st)) entry body st = (Some r, st')"
  shows "case r of
      Err f \<Rightarrow> aq_admin st' = map_option (add_hits (hits_of (fw_admin_entry f))) (aq_admin st)
    | Ok q \<Rightarrow> aq_admin st' = map_option (add_hits (of_nat (length (ct_hit_urls (pq_tracking q))))) (aq_admin st)"
proof -
  obtain m w where m: "materialize_request_images_with_services (rx_materialize E)
      (materialize_services ap (build_request_cache_tracking (aq_admin st))) body (materialize_work st) = (m, w)"
    by (cases "materialize_request_images_with_services (rx_materialize E)
      (materialize_services ap (build_request_cache_tracking (aq_admin st))) body (materialize_work st)")
  show ?thesis
    using p m
    by (auto simp: prepare_gemini_request_def materialize_done_def tracked_eq build_request_cache_tracking_def failure_def
        split: option.splits sum.splits prod.splits)
qed

lemma send_gemini_entry:
  assumes "send_gemini_request E enabled resolved path query headers prepared rt = (r, rt')"
  shows "case r of
      Err f \<Rightarrow> le_request_raw_image_cache_hits (fw_admin_entry f) = ct_hit_urls (pq_tracking prepared)
    | Ok (_, entry) \<Rightarrow> le_request_raw_image_cache_hits entry = ct_hit_urls (pq_tracking prepared)"
  using assms by (auto simp: send_gemini_request_def failure_def Let_def split: sum.splits prod.splits)

lemma finished_entry_hits:
  "le_request_raw_image_cache_hits (forwarded_entry (case r of
       Err err \<Rightarrow> failure err e
     | Ok (response, d) \<Rightarrow> Ok (response, log_durations d (e\<lparr>le_status_code := an_status response\<rparr>))))
   = le_request_raw_image_cache_hits e"
  by (auto split: sum.splits)

lemma transparent_counts:
  "counts_hits st (forward_transparent_gemini_request E ap resolved path query headers body mode key entry st)"
proof -
  obtain p st1 where p: "prepare_gemini_request E ap (build_request_cache_tracking (aq_admin st)) entry body st = (p, st1)"
    by (cases "prepare_gemini_request E ap (build_request_cache_tracking (aq_admin st)) entry body st")
  show ?thesis
  proof (cases "\<exists>q. p = Some (Ok q)")
    case False
    with p prepare_counts [of E ap st entry body] show ?thesis
      by (fastforce simp: forward_transparent_gemini_request_def counts_hits_def Let_def split: option.splits sum.splits)
  next
    case True
    then obtain q where q: "p = Some (Ok q)" ..
    obtain s rt where s: "send_gemini_request E (aq_admin st \<noteq> None) resolved path query headers q (aq_runtime st1) = (s, rt)"
      by (cases "send_gemini_request E (aq_admin st \<noteq> None) resolved path query headers q (aq_runtime st1)")
    note counts = prepare_counts [OF p [unfolded q]] send_gemini_entry [OF s]
    show ?thesis
    proof (cases s)
      case (Inl f)
      with counts p q s show ?thesis by (simp add: forward_transparent_gemini_request_def counts_hits_def)
    next
      case (Inr a)
      obtain upstream entry' where a: "a = (upstream, entry')" by (cases a)
      obtain r c fs where h: "handle_non_stream_response E (ap_config ap) (ap_response_service ap) mode key upstream
          (aq_block st1) (response_fetch (st1\<lparr>aq_runtime := rt\<rparr>)) = (r, c, fs)"
        by (rule prod_cases3)
      from Inr counts p q s a h show ?thesis
        by (cases r) (simp_all add: forward_transparent_gemini_request_def counts_hits_def finished_entry_hits Let_def)
    qed
  qed
qed


lemma unchanged_counts:
  "le_request_raw_image_cache_hits entry = [] \<Longrightarrow>
     counts_hits st (forward_aiapidev_gemini_request E ap resolved path query body mode key entry st)"
  "le_request_raw_image_cache_hits entry = [] \<Longrightarrow>
     counts_hits st (forward_grsai_gemini_request E ap resolved query path body mode entry st)"
proof -
  assume e: "le_request_raw_image_cache_hits entry = []"
  show "counts_hits st (forward_aiapidev_gemini_request E ap resolved path query body mode key entry st)"
    using e by (simp add: forward_aiapidev_gemini_request_def counts_hits_def Let_def split: option.splits sum.splits prod.splits)
  have finish: "counts_hits st (finish_grsai_gemini E ap mode url entry' st)"
    if "le_request_raw_image_cache_hits entry' = []" for url entry'
  proof -
    obtain r fs where "build_grsai_gemini_response E (ap_config ap) (ap_response_service ap) mode url (response_fetch st) = (r, fs)"
      by (cases "build_grsai_gemini_response E (ap_config ap) (ap_response_service ap) mode url (response_fetch st)")
    with that show ?thesis
      by (cases r) (auto simp: finish_grsai_gemini_def counts_hits_def split: sum.splits)
  qed
  have send: "le_request_raw_image_cache_hits (case send_grsai_request E hs b u url entry of
      Err f \<Rightarrow> fw_admin_entry f | Ok (_, _, entry') \<Rightarrow> entry') = []" for hs b u url
    using e by (simp add: send_grsai_request_def failure_def Let_def split: sum.splits)
  have sent: "send_grsai_request E hs b u url entry = Inl f \<Longrightarrow> le_request_raw_image_cache_hits (fw_admin_entry f) = []"
    "send_grsai_request E hs b u url entry = Inr (x, y, entry') \<Longrightarrow> le_request_raw_image_cache_hits entry' = []"
    for hs b u url f x y entry'
    using send [of hs b u url] by simp_all
  show "counts_hits st (forward_grsai_gemini_request E ap resolved query path body mode entry st)"
    using e finish sent
    by (simp add: forward_grsai_gemini_request_def counts_hits_same grsai_proxy_error_response_def Let_def
        split: sum.splits prod.splits)
qed

lemma forward_gemini_counts:
  "counts_hits st (forward_gemini_request E ap resolved path query headers body request_log key st)"
  by (simp add: forward_gemini_request_def transparent_counts unchanged_counts Let_def split: provider_kind.splits)

lemma forward_openai_admin:
  assumes "forward_openai_image_request E ap resolved body query request_log key st = (Some r, st')"
  shows "\<exists>k. aq_admin st' = map_option (add_hits k) (aq_admin st)"
proof -
  have same: "\<exists>k. x = map_option (add_hits k) x" for x by (rule exI [of _ 0]) simp
  have send: "aq_admin st2 = aq_admin st1" if "send_openai_request E ap q u key entry st1 = (x, st2)" for q u entry x st1 st2
    using that by (auto simp: send_openai_request_def Let_def split: sum.splits prod.splits)
  have sent: "\<exists>k. aq_admin st2 = map_option (add_hits k) (aq_admin st1)"
    if "map_prod Some id (send_openai_request E ap q u key entry st1) = (Some x, st2)" for q u entry x st1 st2
    using that by (cases "send_openai_request E ap q u key entry st1") (auto dest!: send intro: exI [of _ 0])
  have edit: "\<exists>k. aq_admin st2 = map_option (add_hits k) (aq_admin st)"
    if "forward_openai_image_edit E ap resolved body query u key entry st = (Some x, st2)" for u entry x st2
    using that
    by (fastforce simp: forward_openai_image_edit_def tracked_eq same Let_def dest: send split: sum.splits prod.splits option.splits)
  show ?thesis
    using assms
    by (auto simp: forward_openai_image_request_def same Let_def dest: sent edit
        split: if_splits sum.splits option.splits prod.splits provider_kind.splits)
qed


text \<open>
  What the log shows of a request that was answered: the admin state \<open>a'\<close> is \<open>a\<close> with \<open>k\<close> more
  cache hits and then one entry, with the request and the status the client got.
\<close>

definition logged_once ::
  "('u, 'i, 'l, 'b) router_env \<Rightarrow> client_request \<Rightarrow> http_answer \<Rightarrow> i64 \<Rightarrow> admin_log_entry \<Rightarrow> admin_state
   \<Rightarrow> admin_state \<Rightarrow> bool" where
  "logged_once E req answer k e a a' \<longleftrightarrow>
     a' = log_entry (add_hits k a) e \<and> le_status_code e = an_status answer
     \<and> le_method e = cq_method req \<and> le_path e = cq_path req \<and> le_query e = unwrap_or (cq_query req) []
     \<and> le_created_at e = rx_created_at E \<and> le_duration_ms e = rx_ms E ''duration_ms''"

definition log_shows ::
  "('u, 'i, 'l, 'b) router_env \<Rightarrow> client_request \<Rightarrow> (i64 \<Rightarrow> admin_log_entry \<Rightarrow> bool) \<Rightarrow> ('l, 'b) app_state
   \<Rightarrow> http_answer option \<times> ('l, 'b) app_state \<Rightarrow> bool" where
  "log_shows E req P st x \<longleftrightarrow>
     (case x of
        (None, _) \<Rightarrow> True
      | (Some answer, st') \<Rightarrow>
          (case aq_admin st of
             None \<Rightarrow> aq_admin st' = None
           | Some a \<Rightarrow> (\<exists>k e a'. aq_admin st' = Some a' \<and> logged_once E req answer k e a a' \<and> P k e)))"

lemma final_entry_keeps:
  "le_status_code (final_entry S response e) = an_status response"
  "le_method (final_entry S response e) = le_method e" "le_path (final_entry S response e) = le_path e"
  "le_query (final_entry S response e) = le_query e" "le_created_at (final_entry S response e) = le_created_at e"
  "le_duration_ms (final_entry S response e) = le_duration_ms e"
  "le_request_raw_image_cache_hits (final_entry S response e) = le_request_raw_image_cache_hits e"
  by (simp_all add: final_entry_def log_response_body_def apply_admin_error_fields_def Let_def
      split: option.splits sum.splits)

definition entry_of_request :: "('u, 'i, 'l, 'b) router_env \<Rightarrow> client_request \<Rightarrow> admin_log_entry \<Rightarrow> bool" where
  "entry_of_request E req e \<longleftrightarrow>
     le_method e = cq_method req \<and> le_path e = cq_path req \<and> le_query e = unwrap_or (cq_query req) []
     \<and> le_created_at e = rx_created_at E \<and> le_duration_ms e = rx_ms E ''duration_ms''"

lemma finish_logs:
  assumes "entry_of_request E req (snd answered)" "aq_admin st' = map_option (add_hits k) (aq_admin st)"
    and "\<And>e. le_request_raw_image_cache_hits e = le_request_raw_image_cache_hits (snd answered) \<Longrightarrow> P k e"
  shows "log_shows E req P st (finish E answered st')"
proof (cases "aq_admin st")
  case (Some a)
  let ?e = "final_entry (rx_serde E) (fst answered) (snd answered)"
  have "logged_once E req (fst answered) k ?e a (log_entry (add_hits k a) ?e) \<and> P k ?e"
    using assms by (simp add: logged_once_def final_entry_keeps entry_of_request_def)
  with Some assms(2) show ?thesis
    by (simp add: log_shows_def finish_def finalize_admin_response_def) blast
qed (use assms in \<open>simp add: log_shows_def finish_def finalize_admin_response_def\<close>)

lemma entry_of_request_simps [simp]:
  "entry_of_request E req (request_entry E req e)"
  "entry_of_request E req ((request_entry E req e)\<lparr>le_status_code := s\<rparr>)"
  "entry_of_request E req ((request_entry E req e)\<lparr>le_request_parse_ms := p\<rparr>)"
  "entry_of_request E req ((request_entry E req e)\<lparr>le_status_code := s, le_request_parse_ms := p\<rparr>)"
  "entry_of_request E req (refused_entry E req l s)"
  "entry_of_request E req e \<Longrightarrow> entry_of_request E req (with_proxy_error g k m t e)"
  "entry_of_request E req e \<Longrightarrow> entry_of_request E req (apply_structured_proxy_error x e)"
  "entry_of_request E req e \<Longrightarrow> entry_of_request E req (snd (forward_failed E b err e))"
  by (simp_all add: entry_of_request_def request_entry_def refused_entry_def apply_to_entry_def with_proxy_error_def
      apply_structured_proxy_error_def forward_failed_def Let_def split: option.splits)

lemma refused_hits [simp]:
  "le_request_raw_image_cache_hits (refused_entry E req l s) = []"
  "le_request_raw_image_cache_hits (apply_structured_proxy_error x e) = le_request_raw_image_cache_hits e"
  "le_request_raw_image_cache_hits (snd (forward_failed E b err e)) = le_request_raw_image_cache_hits e"
  by (simp_all add: refused_entry_def forward_failed_def apply_structured_proxy_error_def Let_def split: option.splits)

lemma accept_refused:
  assumes "accept_request E ap req enabled = Err answered"
  shows "entry_of_request E req (snd answered) \<and> le_request_raw_image_cache_hits (snd answered) = []"
  using assms by (auto simp: accept_request_def Let_def split: sum.splits prod.splits)

lemma answer_from_block_cache_entry:
  assumes "answer_from_block_cache E req l key st = (x, st')"
  shows "aq_admin st' = aq_admin st \<and> (case x of None \<Rightarrow> True
    | Some answered \<Rightarrow> entry_of_request E req (snd answered) \<and> le_request_raw_image_cache_hits (snd answered) = [])"
  using assms
  by (auto simp: answer_from_block_cache_def block_cache_hit_entry_def split: option.splits prod.splits)


lemma model_action_logs:
  "log_shows E req (\<lambda>k e. k = hits_of e) st (model_action E ap rest req st)"
proof (cases "ends_with rest '':generateContent''")
  case False
  then show ?thesis by (auto simp: model_action_def intro!: finish_logs [where k = 0])
next
  case True
  show ?thesis
  proof (cases "accept_request E ap req (aq_admin st \<noteq> None)")
    case (Inl refused)
    with True accept_refused [OF Inl] show ?thesis
      by (simp add: model_action_def del: not_None_eq) (rule finish_logs [where k = 0], simp_all)
  next
    case (Inr x)
    obtain l b u where x: "x = (l, b, u)" by (cases x)
    let ?key = "request_block_key E req u b st"
    obtain c st1 where c: "answer_from_block_cache E req l ?key st = (c, st1)"
      by (cases "answer_from_block_cache E req l ?key st")
    note cached = answer_from_block_cache_entry [OF c]
    show ?thesis
    proof (cases c)
      case (Some answered)
      with Inr True x c cached show ?thesis
        by (simp add: model_action_def Let_def del: not_None_eq) (rule finish_logs [where k = 0], simp_all)
    next
      case None
      let ?fwd = "forward_gemini_request E ap u (''/v1beta/models/'' @ rest) (cq_query req) (cq_headers req) b l ?key st1"
      obtain r st2 where f: "?fwd = (r, st2)" by (cases ?fwd)
      note run = Inr True x c None f
      have counts: "aq_admin st2 = map_option (add_hits (hits_of (forwarded_entry y))) (aq_admin st)" if "r = Some y" for y
        using forward_gemini_counts [of st1 E ap u "''/v1beta/models/'' @ rest" "cq_query req" "cq_headers req" b l ?key]
          f cached that by (simp add: counts_hits_def)
      show ?thesis
      proof (cases r)
        case None
        with run show ?thesis by (simp add: model_action_def log_shows_def Let_def del: not_None_eq)
      next
        case (Some y)
        show ?thesis
        proof (cases y)
          case (Inl g)
          with run Some show ?thesis
            by (simp add: model_action_def Let_def del: not_None_eq)
              (rule finish_logs [OF _ counts [OF Some]], simp_all)
        next
          case (Inr z)
          obtain response entry where "z = (response, entry)" by (cases z)
          with Inr run Some show ?thesis
            by (simp add: model_action_def Let_def del: not_None_eq)
              (rule finish_logs [OF _ counts [OF Some]], simp_all)
        qed
      qed
    qed
  qed
qed


lemma image_generations_action_logs:
  "log_shows E req (\<lambda>_ _. True) st (image_generations_action E ap req st)"
proof (cases "accept_request E ap req (aq_admin st \<noteq> None)")
  case (Inl refused)
  with accept_refused [OF Inl] show ?thesis
    by (simp add: image_generations_action_def del: not_None_eq) (rule finish_logs [where k = 0], simp_all)
next
  case (Inr x)
  obtain l b u where x: "x = (l, b, u)" by (cases x)
  let ?force = "should_force_openai_image_b64_json_for_upstream (rx_url E) (ap_config ap) (ru_base_url u)"
  show ?thesis
  proof (cases "normalize_request_body_for_upstream (rx_url E) b ?force (ru_base_url u)")
    case (Inl err)
    with Inr x show ?thesis
      by (simp add: image_generations_action_def Let_def del: not_None_eq) (rule finish_logs [where k = 0], simp_all)
  next
    case n: (Inr normalized)
    let ?key = "request_block_key E req u normalized st"
    let ?query = "case unwrap_or (cq_query req) [] of [] \<Rightarrow> None | q \<Rightarrow> Some q"
    obtain c st1 where c: "answer_from_block_cache E req l ?key st = (c, st1)"
      by (cases "answer_from_block_cache E req l ?key st")
    note cached = answer_from_block_cache_entry [OF c]
    obtain r st2 where f: "forward_openai_image_request E ap u normalized ?query l ?key st1 = (r, st2)"
      by (cases "forward_openai_image_request E ap u normalized ?query l ?key st1")
    have counts: "\<exists>k. aq_admin st2 = map_option (add_hits k) (aq_admin st)" if "r = Some y" for y
      using forward_openai_admin [OF f [unfolded that]] cached by simp
    note run = Inr x n c f
    show ?thesis
    proof (cases c)
      case (Some answered)
      with run cached show ?thesis
        by (simp add: image_generations_action_def Let_def del: not_None_eq) (rule finish_logs [where k = 0], simp_all)
    next
      case c: None
      show ?thesis
      proof (cases r)
        case None
        with run c show ?thesis by (simp add: image_generations_action_def log_shows_def Let_def del: not_None_eq)
      next
        case (Some y)
        obtain k where "aq_admin st2 = map_option (add_hits k) (aq_admin st)" using counts [OF Some] ..
        note logs = finish_logs [OF _ this]
        show ?thesis
        proof (cases y)
          case (Inl g)
          with run c Some show ?thesis
            by (simp add: image_generations_action_def Let_def del: not_None_eq) (rule logs, simp_all)
        next
          case (Inr z)
          obtain response entry where "z = (response, entry)" by (cases z)
          with Inr run c Some show ?thesis
            by (simp add: image_generations_action_def Let_def del: not_None_eq) (rule logs, simp_all)
        qed
      qed
    qed
  qed
qed

text \<open>
  (C5) Every answered request is in the log exactly once: when a handler answers and the log is on,
  the statistics have grown by the cache hits of this request and then by one finished request, and
  the newest entry is its own, with the method, path, query and times of the request and the status
  the client was given; for a Gemini request the hits counted are those the entry lists.
\<close>

theorem answered_request_logged_once:
  "log_shows E req (\<lambda>k e. k = hits_of e) st (model_action E ap rest req st)
   \<and> log_shows E req (\<lambda>_ _. True) st (image_generations_action E ap req st)"
  using model_action_logs image_generations_action_logs by blast

end
