(* ===== verification/Server_Requests.thy ===== *)
theory Server_Requests
  imports Server_Images Router_Safety
begin

text \<open>
  What one request leaves of the state the requests share, through every way to forward it and both
  handlers: the blob store, the two fetch services, the cache of refusals and the log.
\<close>

section \<open>The shared state\<close>

definition parts_ok ::
  "'l memory_lru \<Rightarrow> 'b block_lru \<Rightarrow> u64 \<Rightarrow> nat \<Rightarrow> blob_config \<Rightarrow> app \<Rightarrow> ('l, 'b) app_state \<Rightarrow> bool" where
  "parts_ok L B mx n bc ap st \<longleftrightarrow>
     (\<exists>H. blob_inv (aq_runtime st) H) \<and> br_cfg (aq_runtime st) = bc
     \<and> service_ok L mx (ap_request_service ap) (request_fetch st)
     \<and> service_ok L mx (ap_response_service ap) (response_fetch st)
     \<and> refusals_within B n (aq_block st)"

lemma service_ok_small: "service_ok L mx sv s \<Longrightarrow> bodies_small (st_files s)"
  by (simp add: service_ok_def)

lemma service_ok_files: "service_ok L mx sv s \<Longrightarrow> bodies_small f \<Longrightarrow> service_ok L mx sv (s\<lparr>st_files := f\<rparr>)"
  by (auto simp: service_ok_def fetch_ok_def split: option.splits)

text \<open>The two services share their files, so each is in order when the other has been at work.\<close>

lemma parts_request [inv_intros]:
  assumes "parts_ok L B mx n bc ap st" "service_ok L mx (ap_request_service ap) s"
  shows "parts_ok L B mx n bc ap (set_request_fetch s st)"
  using assms service_ok_files [of L mx "ap_response_service ap" "response_fetch st" "st_files s"]
  by (simp add: parts_ok_def set_request_fetch_def request_fetch_def response_fetch_def service_ok_small)

lemma parts_response [inv_intros]:
  assumes "parts_ok L B mx n bc ap st" "service_ok L mx (ap_response_service ap) s"
  shows "parts_ok L B mx n bc ap (set_response_fetch s st)"
  using assms service_ok_files [of L mx "ap_request_service ap" "request_fetch st" "st_files s"]
  by (simp add: parts_ok_def set_response_fetch_def request_fetch_def response_fetch_def service_ok_small)

lemma parts_block [inv_intros]:
  "parts_ok L B mx n bc ap st \<Longrightarrow> refusals_within B n cache \<Longrightarrow> parts_ok L B mx n bc ap (set_block cache st)"
  by (simp add: parts_ok_def set_block_def request_fetch_def response_fetch_def)

lemma parts_runtime [inv_intros]:
  "parts_ok L B mx n bc ap st \<Longrightarrow> blob_inv rt H \<Longrightarrow> br_cfg rt = bc \<Longrightarrow> parts_ok L B mx n bc ap (st\<lparr>aq_runtime := rt\<rparr>)"
  by (auto simp: parts_ok_def request_fetch_def response_fetch_def)

lemma parts_admin [simp]: "parts_ok L B mx n bc ap (st\<lparr>aq_admin := a\<rparr>) = parts_ok L B mx n bc ap st"
  by (simp add: parts_ok_def request_fetch_def response_fetch_def)

lemma parts_tracked:
  assumes "tracked calls tracking st = (t, st')"
  shows "parts_ok L B mx n bc ap st' = parts_ok L B mx n bc ap st \<and> aq_runtime st' = aq_runtime st"
  using assms by (auto simp: tracked_def split: prod.splits)

lemma parts_refusals: "parts_ok L B mx n bc ap st \<Longrightarrow> refusals_within B n (aq_block st)"
  by (simp add: parts_ok_def)

lemma parts_services:
  assumes "parts_ok L B mx n bc ap st"
  shows "service_ok L mx (ap_request_service ap) (request_fetch st)"
    and "service_ok L mx (ap_response_service ap) (response_fetch st)"
  using assms by (simp_all add: parts_ok_def)

text \<open>The environment of a request: its fetches and what other requests do meanwhile keep the services in order.\<close>

definition request_env_ok ::
  "'l memory_lru \<Rightarrow> 'b block_lru \<Rightarrow> u64 \<Rightarrow> app \<Rightarrow> ('u, 'i, 'l, 'b) router_env \<Rightarrow> bool" where
  "request_env_ok L B mx ap E \<longleftrightarrow>
     rx_block E = B \<and> (\<forall>t. materialize_ok L mx (materialize_services ap t) (rx_materialize E))
     \<and> response_env_ok L mx (ap_request_service ap) (rx_edit E)
     \<and> response_env_ok L mx (ap_response_service ap) (rx_response E) \<and> pipe_small (rx_pipe E)"

section \<open>A transparent Gemini request\<close>

lemma materialize_done_keeps:
  assumes ok: "parts_ok L B mx n bc ap st" and w: "work_ok L mx (materialize_services ap t) bc k H w"
    and run: "materialize_done w tracking st = (t', st')"
  shows "parts_ok L B mx n bc ap st' \<and> aq_runtime st' = wk_runtime w"
proof -
  let ?st = "(set_request_fetch (wk_service w) st)\<lparr>aq_runtime := wk_runtime w\<rparr>"
  have "service_ok L mx (ap_request_service ap) (wk_service w)" "blob_inv (wk_runtime w) H" "br_cfg (wk_runtime w) = bc"
    using w by (simp_all add: work_ok_def materialize_services_def)
  then have "parts_ok L B mx n bc ap ?st" using ok by (auto intro!: inv_intros)
  with parts_tracked [OF run [unfolded materialize_done_def]] show ?thesis by simp
qed

lemma prepare_keeps:
  assumes L: "memory_lru L" and E: "request_env_ok L B mx ap E" and ok: "parts_ok L B mx n bc ap st"
    and room: "ids_left 8 (aq_runtime st)"
    and run: "prepare_gemini_request E ap tracking entry body st = (r, st')"
  shows "parts_ok L B mx n bc ap st'
    \<and> (\<forall>p. r = Some (Ok p) \<longrightarrow>
        (\<exists>H. blob_inv (aq_runtime st') H \<and> rr_blob ` set (pq_replacements p) \<subseteq> H \<and> eb_body_blob (pq_encoded p) \<in> H))"
proof -
  let ?sv = "materialize_services ap tracking"
  obtain m w where mat:
    "materialize_request_images_with_services (rx_materialize E) ?sv body (materialize_work st) = (m, w)" by fastforce
  obtain H where "blob_inv (aq_runtime st) H" using ok by (auto simp: parts_ok_def)
  then have start: "work_ok L mx ?sv bc (7 + 1) H (materialize_work st)"
    using ok room by (simp add: work_ok_def materialize_work_def materialize_services_def parts_ok_def)
  have env: "materialize_ok L mx ?sv (rx_materialize E)" using E by (simp add: request_env_ok_def)
  obtain H1 where H1: "work_ok L mx ?sv bc 1 H1 w" "\<forall>x. m = Some (Ok x) \<longrightarrow> rr_blob ` set (mr_replacements x) \<subseteq> H1"
    using materialize_keeps [OF L env start mat] by blast
  obtain t s where after: "materialize_done w tracking st = (t, s)" by fastforce
  note s = materialize_done_keeps [OF ok H1(1) after]
  consider (hang) "m = None" | (err) e where "m = Some (Err e)" | (found) x where "m = Some (Ok x)"
    by (metis obj_sumE option.exhaust)
  then show ?thesis
  proof cases
    case hang
    with run mat ok show ?thesis by (simp add: prepare_gemini_request_def)
  next
    case err
    with run mat after s show ?thesis by (auto simp: prepare_gemini_request_def failure_def)
  next
    case found
    obtain e rt where enc: "encode_request_body ((rx_encode E)\<lparr>ee_runtime := aq_runtime s\<rparr>) (rx_pipe E)
        (mr_request x) (mr_replacements x) = (e, rt)" by fastforce
    have "blob_inv (aq_runtime s) H1" "ids_left 1 (aq_runtime s)" "br_cfg (aq_runtime s) = bc" "pipe_small (rx_pipe E)"
      using s H1(1) E by (simp_all add: work_ok_def request_env_ok_def)
    with encode_keeps [OF _ _ _ enc, of H1] obtain H2 where H2: "H1 \<subseteq> H2" "blob_inv rt H2" "br_cfg rt = bc"
      "\<forall>y. e = Ok y \<longrightarrow> eb_body_blob y \<in> H2" by auto
    have st': "st' = s\<lparr>aq_runtime := rt\<rparr>"
      "r = Some (Ok p) \<Longrightarrow> pq_replacements p = mr_replacements x \<and> e = Ok (pq_encoded p)" for p
      using run mat after enc found by (auto simp: prepare_gemini_request_def failure_def split: sum.splits)
    show ?thesis
    proof (intro conjI allI impI)
      show "parts_ok L B mx n bc ap st'" unfolding st'(1) using s H2(2,3) by (auto intro: inv_intros)
    next
      fix p assume "r = Some (Ok p)"
      from st'(2) [OF this] found H1(2) H2 st'(1)
      show "\<exists>H. blob_inv (aq_runtime st') H \<and> rr_blob ` set (pq_replacements p) \<subseteq> H \<and> eb_body_blob (pq_encoded p) \<in> H"
        by (intro exI [of _ H2]) auto
    qed
  qed
qed

lemma send_keeps:
  assumes inv: "blob_inv rt H" "rr_blob ` set (pq_replacements p) \<subseteq> H" "eb_body_blob (pq_encoded p) \<in> H"
    and run: "send_gemini_request E enabled u path q hs p rt = (r, rt')"
  shows "\<exists>H'. blob_inv rt' H' \<and> br_cfg rt' = br_cfg rt"
proof -
  obtain x rt1 where rm: "remove_replacements (rx_remove_io E) rt (pq_replacements p) = (x, rt1)" by fastforce
  have "known rt H (rr_blob r)" if "r \<in> set (pq_replacements p)" for r using inv(2) that by (auto simp: known_def)
  from remove_replacements_known [OF inv(1) this rm]
  obtain H1 where H1: "blob_inv rt1 H1" "br_cfg rt1 = br_cfg rt" "known rt1 H1 (eb_body_blob (pq_encoded p))"
    using inv(3) by (auto simp: known_def)
  have body: "\<exists>H'. blob_inv rt2 H' \<and> br_cfg rt2 = br_cfg rt"
    if "remove_blob rt1 io (eb_body_blob (pq_encoded p)) = (y, rt2)" for io y rt2
    using remove_known [OF H1(1,3) that] H1(2) by auto
  show ?thesis
    using run rm H1(1,2)
    by (auto simp: send_gemini_request_def Let_def dest: body split: sum.splits prod.splits)
qed

lemma forward_transparent_keeps:
  assumes L: "memory_lru L" and B: "block_lru B" and E: "request_env_ok L B mx ap E"
    and ok: "parts_ok L B mx n bc ap st" and room: "ids_left 8 (aq_runtime st)"
    and run: "forward_transparent_gemini_request E ap u path q hs body mode key entry st = (r, st')"
  shows "parts_ok L B mx n bc ap st'"
proof -
  obtain x s where prep: "prepare_gemini_request E ap (build_request_cache_tracking (aq_admin st)) entry body st = (x, s)"
    by fastforce
  note one = prepare_keeps [OF L E ok room prep]
  consider (hang) "x = None" | (err) f where "x = Some (Err f)" | (sent) p where "x = Some (Ok p)"
    by (metis obj_sumE option.exhaust)
  then show ?thesis
  proof cases
    case sent
    obtain y rt where send: "send_gemini_request E (aq_admin st \<noteq> None) u path q hs p (aq_runtime s) = (y, rt)" by fastforce
    obtain H where H: "blob_inv (aq_runtime s) H" "rr_blob ` set (pq_replacements p) \<subseteq> H" "eb_body_blob (pq_encoded p) \<in> H"
      using one sent by blast
    obtain H' where rt: "blob_inv rt H'" "br_cfg rt = br_cfg (aq_runtime s)"
      using send_keeps [OF H send] by blast
    have "br_cfg (aq_runtime s) = bc" using one by (simp add: parts_ok_def)
    with rt have two: "parts_ok L B mx n bc ap (s\<lparr>aq_runtime := rt\<rparr>)"
      using parts_runtime [OF conjunct1 [OF one], of rt H'] by simp
    have blk: "block_lru (rx_block E)" "rx_block E = B" "response_env_ok L mx (ap_response_service ap) (rx_response E)"
      using B E by (simp_all add: request_env_ok_def)
    have answer: "refusals_within B n c \<and> service_ok L mx (ap_response_service ap) fs"
      if "handle_non_stream_response E (ap_config ap) (ap_response_service ap) mode key a
          (aq_block (s\<lparr>aq_runtime := rt\<rparr>)) (response_fetch (s\<lparr>aq_runtime := rt\<rparr>)) = (z, c, fs)" for a z c fs
      using handle_non_stream_keeps [OF L blk(3) parts_services(2) [OF two] blk(1) _ that] parts_refusals [OF two] blk(2) by simp
    show ?thesis
    proof (cases y)
      case (Inl f)
      then have "st' = s\<lparr>aq_runtime := rt\<rparr>"
        using run prep sent send by (simp add: forward_transparent_gemini_request_def Let_def)
      with two show ?thesis by simp
    next
      case (Inr a)
      obtain a1 e1 where a: "a = (a1, e1)" by (cases a)
      obtain z c fs where h: "handle_non_stream_response E (ap_config ap) (ap_response_service ap) mode key a1
          (aq_block (s\<lparr>aq_runtime := rt\<rparr>)) (response_fetch (s\<lparr>aq_runtime := rt\<rparr>)) = (z, c, fs)" by (rule prod_cases3)
      have "st' = set_block c (set_response_fetch fs (s\<lparr>aq_runtime := rt\<rparr>))"
        using run prep sent send Inr a h by (simp add: forward_transparent_gemini_request_def Let_def)
      with answer [OF h] two show ?thesis by (auto intro!: inv_intros)
    qed
  qed (use run prep one in \<open>auto simp: forward_transparent_gemini_request_def Let_def\<close>)
qed

section \<open>The other ways to forward\<close>

lemma forward_aiapidev_keeps:
  assumes L: "memory_lru L" and B: "block_lru B" and E: "request_env_ok L B mx ap E" and ok: "parts_ok L B mx n bc ap st"
    and run: "forward_aiapidev_gemini_request E ap u path q body mode key entry st = (r, st')"
  shows "parts_ok L B mx n bc ap st'"
proof -
  have blk: "block_lru (rx_block E)" "refusals_within (rx_block E) n (aq_block st)"
    and env: "rx_block E = B" "response_env_ok L mx (ap_response_service ap) (rx_response E)"
    using B E parts_refusals [OF ok] by (simp_all add: request_env_ok_def)
  note answer = aiapidev_keeps(2) [OF blk L env(2) parts_services(2) [OF ok], unfolded env(1)]
  show ?thesis
    using run ok
    by (auto simp: forward_aiapidev_gemini_request_def Let_def dest!: answer intro!: inv_intros
        split: sum.splits option.splits prod.splits)
qed

lemma forward_grsai_keeps:
  assumes L: "memory_lru L" and E: "request_env_ok L B mx ap E" and ok: "parts_ok L B mx n bc ap st"
    and run: "forward_grsai_gemini_request E ap u q path body mode entry st = (r, st')"
  shows "parts_ok L B mx n bc ap st'"
proof -
  have env: "response_env_ok L mx (ap_response_service ap) (rx_response E)" using E by (simp add: request_env_ok_def)
  have finish: "parts_ok L B mx n bc ap s" if "finish_grsai_gemini E ap mode url e st = (x, s)" for url e x s
  proof -
    obtain y fs where b: "build_grsai_gemini_response E (ap_config ap) (ap_response_service ap) mode url (response_fetch st) = (y, fs)"
      by fastforce
    from grsai_gemini_keeps [OF L env parts_services(2) [OF ok] b] that b ok show ?thesis
      by (auto simp: finish_grsai_gemini_def intro: inv_intros)
  qed
  show ?thesis
    using run ok
    by (auto simp: forward_grsai_gemini_request_def Let_def dest!: finish split: sum.splits option.splits prod.splits if_splits)
qed

lemma forward_gemini_keeps:
  assumes "memory_lru L" "block_lru B" "request_env_ok L B mx ap E" "parts_ok L B mx n bc ap st"
    and "ids_left 8 (aq_runtime st)" "forward_gemini_request E ap u path q hs body log key st = (r, st')"
  shows "parts_ok L B mx n bc ap st'"
  using assms(6) forward_transparent_keeps [OF assms(1-5)] forward_aiapidev_keeps [OF assms(1-4)]
    forward_grsai_keeps [OF assms(1,3,4)]
  by (auto simp: forward_gemini_request_def Let_def split: provider_kind.splits)

lemma send_openai_keeps:
  assumes "block_lru B" "request_env_ok L B mx ap E" "parts_ok L B mx n bc ap st"
    and run: "send_openai_request E ap req up key entry st = (r, st')"
  shows "parts_ok L B mx n bc ap st'"
proof -
  have blk: "block_lru (rx_block E)" "refusals_within (rx_block E) n (aq_block st)" and env: "rx_block E = B"
    using assms(1,2) parts_refusals [OF assms(3)] by (simp_all add: request_env_ok_def)
  note answer = handle_openai_keeps [OF blk, unfolded env]
  show ?thesis
    using run assms(3)
    by (auto simp: send_openai_request_def Let_def dest!: answer intro!: inv_intros split: sum.splits prod.splits)
qed

lemma forward_edit_keeps:
  assumes L: "memory_lru L" and B: "block_lru B" and E: "request_env_ok L B mx ap E" and ok: "parts_ok L B mx n bc ap st"
    and run: "forward_openai_image_edit E ap u body q up key entry st = (r, st')"
  shows "parts_ok L B mx n bc ap st'"
proof -
  let ?t = "build_request_cache_tracking (aq_admin st)"
  obtain form fs calls where b: "build_happyapi_image_edit_form (rx_edit E) (rx_serde E) (rx_mime_error E)
      (ap_request_service ap) (ct_observes ?t) body (request_fetch st, []) = (form, fs, calls)" by (rule prod_cases3)
  have env: "response_env_ok L mx (ap_request_service ap) (rx_edit E)" using E by (simp add: request_env_ok_def)
  have "service_ok L mx (ap_request_service ap) fs"
    using edit_form_keeps [OF L env _ b] parts_services(1) [OF ok] by simp
  then have one: "parts_ok L B mx n bc ap (set_request_fetch fs st)" using ok by (intro inv_intros)
  obtain t s where t: "tracked calls ?t (set_request_fetch fs st) = (t, s)" by fastforce
  have s: "parts_ok L B mx n bc ap s" using parts_tracked [OF t] one by simp
  note send = send_openai_keeps [OF B E s]
  show ?thesis
    using run ok b t s
    by (auto simp: forward_openai_image_edit_def Let_def dest!: send split: sum.splits option.splits prod.splits)
qed

lemma forward_openai_keeps:
  assumes L: "memory_lru L" and B: "block_lru B" and E: "request_env_ok L B mx ap E" and ok: "parts_ok L B mx n bc ap st"
    and run: "forward_openai_image_request E ap u body q log key st = (r, st')"
  shows "parts_ok L B mx n bc ap st'"
proof -
  have blk: "block_lru (rx_block E)" "refusals_within (rx_block E) n (aq_block st)" and env: "rx_block E = B"
    using B E parts_refusals [OF ok] by (simp_all add: request_env_ok_def)
  note answer = aiapidev_keeps(1) [OF blk, unfolded env]
  note send = send_openai_keeps [OF B E ok]
  note edit = forward_edit_keeps [OF L B E ok]
  show ?thesis
    using run ok
    by (auto simp: forward_openai_image_request_def Let_def map_prod_def dest!: answer send edit intro!: inv_intros
        split: sum.splits option.splits prod.splits if_splits provider_kind.splits)
qed

section \<open>The handlers\<close>

lemma finish_parts:
  assumes "finish E answered st = (r, st')"
  shows "parts_ok L B mx n bc ap st' = parts_ok L B mx n bc ap st"
  using assms by (auto simp: finish_def finalize_admin_response_def split: option.splits)

lemma from_block_cache_keeps:
  assumes B: "block_lru B" and E: "request_env_ok L B mx ap E" and ok: "parts_ok L B mx n bc ap st"
    and run: "answer_from_block_cache E req log key st = (r, st')"
  shows "parts_ok L B mx n bc ap st' \<and> aq_runtime st' = aq_runtime st"
proof (cases "\<exists>c k. aq_block st = Some c \<and> key = Some k")
  case True
  then obtain c k where ck: "aq_block st = Some c" "key = Some k" by blast
  obtain hit c' where g: "block_cache_get (rx_block E) c (rx_lookup_now E) k = (hit, c')" by fastforce
  have env: "rx_block E = B" using E by (simp add: request_env_ok_def)
  have "refusals_within (rx_block E) n (Some c)" using parts_refusals [OF ok] ck(1) env by simp
  with lookup_keeps [of E n c "rx_lookup_now E" k] B env g have "refusals_within B n (Some c')" by simp
  then have "parts_ok L B mx n bc ap (set_block (Some c') st)" using ok by (intro inv_intros)
  with run ck g show ?thesis by (auto simp: answer_from_block_cache_def set_block_def split: option.splits)
next
  case False
  with run ok show ?thesis by (auto simp: answer_from_block_cache_def split: option.splits)
qed

lemma model_action_keeps:
  assumes L: "memory_lru L" and B: "block_lru B" and E: "request_env_ok L B mx ap E" and ok: "parts_ok L B mx n bc ap st"
    and room: "ids_left 8 (aq_runtime st)" and run: "model_action E ap rest req st = (r, st')"
  shows "parts_ok L B mx n bc ap st'"
proof -
  have hit: "parts_ok L B mx n bc ap s \<and> aq_runtime s = aq_runtime st"
    if "answer_from_block_cache E req log key st = (x, s)" for log key x s
    by (rule from_block_cache_keeps [OF B E ok that])
  have fwd: "parts_ok L B mx n bc ap s'"
    if "forward_gemini_request E ap u p q hs b l k s = (x, s')" "parts_ok L B mx n bc ap s" "aq_runtime s = aq_runtime st"
    for u p q hs b l k s x s'
    using forward_gemini_keeps [OF L B E that(2) _ that(1)] that(3) room by simp
  have fin: "parts_ok L B mx n bc ap s'" if "finish E a s = (x, s')" "parts_ok L B mx n bc ap s" for a s x s'
    using finish_parts [OF that(1)] that(2) by simp
  show ?thesis
    using run ok
    by (auto simp: model_action_def Let_def dest!: hit dest: fwd fin split: sum.splits option.splits prod.splits if_splits)
qed

lemma image_action_keeps:
  assumes L: "memory_lru L" and B: "block_lru B" and E: "request_env_ok L B mx ap E" and ok: "parts_ok L B mx n bc ap st"
    and run: "image_generations_action E ap req st = (r, st')"
  shows "parts_ok L B mx n bc ap st'"
proof -
  have hit: "parts_ok L B mx n bc ap s" if "answer_from_block_cache E req log key st = (x, s)" for log key x s
    using from_block_cache_keeps [OF B E ok that] by simp
  have fwd: "parts_ok L B mx n bc ap s'"
    if "forward_openai_image_request E ap u b q l k s = (x, s')" "parts_ok L B mx n bc ap s" for u b q l k s x s'
    by (rule forward_openai_keeps [OF L B E that(2,1)])
  have fin: "parts_ok L B mx n bc ap s'" if "finish E a s = (x, s')" "parts_ok L B mx n bc ap s" for a s x s'
    using finish_parts [OF that(1)] that(2) by simp
  show ?thesis
    using run ok
    by (auto simp: image_generations_action_def Let_def dest!: hit dest: fwd fin split: sum.splits option.splits prod.splits)
qed

section \<open>The log\<close>

text \<open>The log is short, and every request in the statistics has been given a number.\<close>

definition log_within :: "admin_state option \<Rightarrow> bool" where
  "log_within admin \<longleftrightarrow>
     (\<forall>a. admin = Some a \<longrightarrow> length (ad_entries a) \<le> ADMIN_LOG_CAPACITY \<and> as_total_requests (ad_stats a) = ad_next_id a)"

lemma log_entry_within:
  "log_within (Some a) \<Longrightarrow> log_within (Some (log_entry (add_hits k a) e))"
  by (simp add: log_within_def log_entry_def record_entry_def add_hits_def apply_admin_stats_def pop_excess_take Let_def)

lemma logged_within:
  assumes "log_shows E req P st (Some answer, st')" "log_within (aq_admin st)"
  shows "log_within (aq_admin st')"
proof (cases "aq_admin st")
  case None
  with assms(1) show ?thesis by (simp add: log_shows_def log_within_def)
next
  case (Some a)
  with assms(1) obtain k e where "aq_admin st' = Some (log_entry (add_hits k a) e)"
    by (auto simp: log_shows_def logged_once_def)
  with log_entry_within assms(2) Some show ?thesis by simp
qed

end
