(* ===== verification/Router_Blobs.thy ===== *)
theory Router_Blobs
  imports Router_Safety
begin

text \<open>
  From the client's request to the upstream's: what a transparent Gemini request sends, and that the
  blobs it needed on the way are gone when the upstream has answered.
\<close>

section \<open>Removing blobs\<close>

lemma remove_no_faults: "\<exists>rt'. remove_blob rt no_faults h = (Ok (), rt')"
  by (auto simp: remove_blob_def no_faults_def Let_def split: blob_storage.splits option.splits)

lemma remove_replacements_inv:
  assumes "blob_inv rt X" "\<And>r. r \<in> set rs \<Longrightarrow> rr_blob r \<in> X \<or> bh_id (rr_blob r) \<in> br_removed rt"
  shows "\<exists>rt'. remove_replacements (\<lambda>_. no_faults) rt rs = (Ok (), rt') \<and> blob_inv rt' (X - rr_blob ` set rs)
    \<and> (\<forall>g \<in> X - rr_blob ` set rs. blob_content rt' g = blob_content rt g)"
  using assms
proof (induction rs arbitrary: rt X)
  case (Cons r rs)
  let ?h = "rr_blob r"
  obtain rt1 where rm: "remove_blob rt no_faults ?h = (Ok (), rt1)" using remove_no_faults by blast
  have one: "blob_inv rt1 (X - {?h}) \<and> (\<forall>g \<in> X - {?h}. blob_content rt1 g = blob_content rt g)
      \<and> insert (bh_id ?h) (br_removed rt) \<subseteq> br_removed rt1"
  proof (cases "?h \<in> X")
    case True
    with remove_blob_inv [OF Cons.prems(1) _ rm] remove_blob_state [OF Cons.prems(1) _ rm] show ?thesis by auto
  next
    case False
    with Cons.prems(2) [of r] have "bh_id ?h \<in> br_removed rt" by simp
    moreover from this rm have "rt1 = rt" by (simp add: remove_blob_def)
    ultimately show ?thesis using Cons.prems(1) False by auto
  qed
  have "rr_blob r' \<in> X - {?h} \<or> bh_id (rr_blob r') \<in> br_removed rt1" if "r' \<in> set rs" for r'
    using Cons.prems(2) [of r'] one that by auto
  from Cons.IH [OF conjunct1 [OF one] this] obtain rt2 where
    "remove_replacements (\<lambda>_. no_faults) rt1 rs = (Ok (), rt2)" "blob_inv rt2 (X - {?h} - rr_blob ` set rs)"
    "\<forall>g \<in> X - {?h} - rr_blob ` set rs. blob_content rt2 g = blob_content rt1 g" by blast
  moreover have "X - {?h} - rr_blob ` set rs = X - rr_blob ` set (r # rs)" by auto
  moreover have "remove_replacements (\<lambda>_. no_faults) rt (r # rs) = remove_replacements (\<lambda>_. no_faults) rt1 rs"
    using rm by simp
  moreover have "\<forall>g \<in> X - rr_blob ` set (r # rs). blob_content rt1 g = blob_content rt g" using one by auto
  ultimately show ?case by (intro exI [of _ rt2]) simp
qed simp

section \<open>What is sent\<close>

lemma prepare_Ok:
  assumes "prepare_gemini_request E ap tracking entry body st = (Some (Ok q), st1)"
  obtains m w where "materialize_request_images_with_services (rx_materialize E) (materialize_services ap tracking) body
      (materialize_work st) = (Some (Ok m), w)"
    "encode_request_body ((rx_encode E)\<lparr>ee_runtime := wk_runtime w\<rparr>) (rx_pipe E) (mr_request m) (mr_replacements m)
      = (Ok (pq_encoded q), aq_runtime st1)"
    "pq_replacements q = mr_replacements m"
  using assms
  by (auto simp: prepare_gemini_request_def materialize_done_def tracked_eq failure_def
      split: option.splits sum.splits prod.splits)

text \<open>The request with its images in place, as text.\<close>

definition inlined_text :: "('u, 'i, 'l, 'b) router_env \<Rightarrow> (string \<Rightarrow> fetch_result) \<Rightarrow> json \<Rightarrow> string" where
  "inlined_text E images body =
     json_text (ee_serde (rx_encode E)) (inline_images (\<lambda>url. image_json (ee_b64 (rx_encode E)) (images url)) body)"

definition images_obtained ::
  "('u, 'i, 'l, 'b) router_env \<Rightarrow> request_materialize_services \<Rightarrow> json \<Rightarrow> (string \<Rightarrow> fetch_result) \<Rightarrow> bool" where
  "images_obtained E sv body images \<longleftrightarrow>
     (\<forall>(path, url) \<in> set (inline_refs body []). obtained (rx_materialize E) sv url (images url))"

text \<open>The libraries keep their promises and no file operation fails.\<close>

definition env_ok :: "('u, 'i, 'l, 'b) router_env \<Rightarrow> request_materialize_services \<Rightarrow> bool" where
  "env_ok E sv \<longleftrightarrow>
     images_small (rx_materialize E) sv \<and> order_ok (rx_materialize E)
     \<and> serde_compact (ee_serde (rx_encode E)) \<and> base64_laws (ee_b64 (rx_encode E))
     \<and> chunker_ok (ee_chunker (rx_encode E)) \<and> chunker_ok (rx_chunker E) \<and> pipe_ok (rx_pipe E)
     \<and> ee_faults (rx_encode E) = (\<lambda>_. no_faults) \<and> rx_remove_io E = (\<lambda>_. no_faults)
     \<and> rx_read_io E = no_faults \<and> rx_open_io E = no_faults"

text \<open>After preparing: the blob of the body holds the text, and the store the blobs of the images.\<close>

lemma prepared_body:
  assumes p: "prepare_gemini_request E ap tracking entry body st = (Some (Ok q), st1)"
    and env: "env_ok E (materialize_services ap tracking)"
    and inv: "blob_inv (aq_runtime st) H" "ids_left 8 (aq_runtime st)"
    and body: "json_wf body" "strip_output_from_value body = body"
    and small: "\<And>images. images_obtained E (materialize_services ap tracking) body images
      \<Longrightarrow> length (inlined_text E images body) < 2 ^ 64"
  shows "\<exists>images R. images_obtained E (materialize_services ap tracking) body images
    \<and> (let b = eb_body_blob (pq_encoded q); text = inlined_text E images body; rt = aq_runtime st1 in
        R = rr_blob ` set (pq_replacements q) \<and> H \<inter> R = {} \<and> b \<notin> H \<union> R \<and> blob_inv rt (insert b (H \<union> R))
        \<and> blob_content rt b = Some text \<and> eb_content_length (pq_encoded q) = of_nat (length text) \<and> length text < 2 ^ 64
        \<and> (\<forall>g \<in> H. blob_content rt g = blob_content (aq_runtime st) g))"
proof -
  let ?sv = "materialize_services ap tracking"
  obtain m w where m: "materialize_request_images_with_services (rx_materialize E) ?sv body (materialize_work st) = (Some (Ok m), w)"
    and enc: "encode_request_body ((rx_encode E)\<lparr>ee_runtime := wk_runtime w\<rparr>) (rx_pipe E) (mr_request m) (mr_replacements m)
      = (Ok (pq_encoded q), aq_runtime st1)" and q: "pq_replacements q = mr_replacements m"
    by (rule prepare_Ok [OF p])
  let ?N = "(rx_encode E)\<lparr>ee_runtime := wk_runtime w\<rparr>"
  let ?R = "rr_blob ` set (mr_replacements m)"
  have st: "blob_inv (wk_runtime (materialize_work st)) H" "ids_left 8 (wk_runtime (materialize_work st))"
    using inv by (simp_all add: materialize_work_def)
  have e: "images_small (rx_materialize E) ?sv" "order_ok (rx_materialize E)" "serde_compact (ee_serde ?N)"
    "base64_laws (ee_b64 ?N)" "chunker_ok (ee_chunker ?N)" "ee_runtime ?N = wk_runtime w" "ee_faults ?N = (\<lambda>_. no_faults)"
    using env by (simp_all add: env_ok_def)
  obtain images where r: "encode_ready ?N (mr_replacements m)" "mr_request m = body" "ids_left 1 (ee_runtime ?N)"
    "blob_inv (ee_runtime ?N) (H \<union> ?R)"
    "\<forall>(path, url) \<in> set (inline_refs body []). obtained (rx_materialize E) ?sv url (images url)"
    "encoded_text ?N (mr_replacements m) body
      = json_text (ee_serde ?N) (inline_images (\<lambda>url. image_json (ee_b64 ?N) (images url)) body)"
    by (rule materialized_ready [OF m st e(1,2) body e(3-7)])
  have images: "images_obtained E ?sv body images" using r(5) by (simp add: images_obtained_def)
  have enc_text: "encoded_text ?N (mr_replacements m) body = inlined_text E images body"
    using r(6) by (simp add: inlined_text_def)
  have "ids_left 7 (wk_runtime (materialize_work st))" using st(2) by (rule ids_left_mono) simp
  then have g: "gained (wk_runtime (materialize_work st)) (wk_runtime w) H ?R"
    by (rule materialized_store [OF m st(1) _ e(1,2)])
  have pipe: "pipe_ok (rx_pipe E)" using env by (simp add: env_ok_def)
  have "length (encoded_text ?N (mr_replacements m) body) < 2 ^ 64" using small [OF images] enc_text by simp
  from encode_request_body_text [OF r(1) pipe r(4,3) this enc [unfolded r(2)]]
  have "eb_content_length (pq_encoded q) = of_nat (length (inlined_text E images body))
    \<and> eb_body_blob (pq_encoded q) \<notin> H \<union> ?R \<and> blob_inv (aq_runtime st1) (insert (eb_body_blob (pq_encoded q)) (H \<union> ?R))
    \<and> blob_content (aq_runtime st1) (eb_body_blob (pq_encoded q)) = Some (inlined_text E images body)
    \<and> (\<forall>g \<in> H \<union> ?R. blob_content (aq_runtime st1) g = blob_content (wk_runtime w) g)"
    unfolding enc_text by simp
  with g q small [OF images] images show ?thesis
    by (intro exI [of _ images] exI [of _ ?R]) (auto simp: gained_def materialize_work_def Let_def)
qed

section \<open>Sending\<close>

lemma blob_content_read: "blob_content rt h = Some t \<Longrightarrow> read_bytes rt no_faults h = Ok t"
  by (simp add: blob_content_def split: sum.splits)

text \<open>The request the upstream is sent.\<close>

definition carries_text :: "upstream_request \<Rightarrow> string \<Rightarrow> string \<Rightarrow> bool" where
  "carries_text request url t \<longleftrightarrow>
     xq_method request = ''POST'' \<and> xq_url request = url
     \<and> (case xq_body request of StreamBody chunks \<Rightarrow> stream_content chunks = Some t | _ \<Rightarrow> False)
     \<and> map_of (xq_headers request) ''content-length'' = Some (show_nat (length t))"

lemma request_built:
  assumes url: "build_upstream_url (rx_url E) (ru_base_url upstream) path query = Ok url"
    and "rx_open_io E = no_faults" "chunker_ok (rx_chunker E)" "blob_content rt (eb_body_blob encoded) = Some t"
    and len: "eb_content_length encoded = of_nat (length t)" "length t < 2 ^ 64"
  shows "\<exists>request. gemini_upstream_request E upstream path query headers encoded rt = Ok request \<and> carries_text request url t"
proof -
  have "unat (eb_content_length encoded) = length t" using len by (simp add: unat_of_nat take_bit_nat_eq_self)
  moreover have "stream_content (rx_chunker E t) = Some t" using assms(3) by (simp add: chunker_ok_def)
  ultimately show ?thesis
    using assms by (simp add: gemini_upstream_request_def open_reader_def blob_content_read carries_text_def)
qed

text \<open>What the upstream says is what the handler goes on with.\<close>

definition upstream_said :: "('u, 'i, 'l, 'b) router_env \<Rightarrow> upstream_request \<Rightarrow> (upstream_answer \<times> admin_log_entry) forwarding \<Rightarrow> bool" where
  "upstream_said E request r \<longleftrightarrow>
     (case rx_send E request of
        Ok a \<Rightarrow> (case r of Ok (a', _) \<Rightarrow> a' = a | Err _ \<Rightarrow> False)
      | Err err \<Rightarrow> (case r of Ok _ \<Rightarrow> False | Err f \<Rightarrow> fw_error f = ReqwestError err))"

lemma sent_and_cleaned:
  assumes env: "env_ok E sv" and url: "build_upstream_url (rx_url E) (ru_base_url upstream) path query = Ok url"
    and inv: "blob_inv rt (insert (eb_body_blob (pq_encoded q)) (H \<union> rr_blob ` set (pq_replacements q)))"
    and fresh: "eb_body_blob (pq_encoded q) \<notin> H \<union> rr_blob ` set (pq_replacements q)" "H \<inter> rr_blob ` set (pq_replacements q) = {}"
    and t: "blob_content rt (eb_body_blob (pq_encoded q)) = Some t" "eb_content_length (pq_encoded q) = of_nat (length t)"
      "length t < 2 ^ 64"
  shows "\<exists>request r rt'. send_gemini_request E enabled upstream path query headers q rt = (r, rt')
    \<and> carries_text request url t \<and> upstream_said E request r
    \<and> blob_inv rt' H \<and> (\<forall>g \<in> H. blob_content rt' g = blob_content rt g)"
proof -
  let ?b = "eb_body_blob (pq_encoded q)" and ?R = "rr_blob ` set (pq_replacements q)"
  have e: "rx_remove_io E = (\<lambda>_. no_faults)" "rx_read_io E = no_faults" "rx_open_io E = no_faults" "chunker_ok (rx_chunker E)"
    using env by (simp_all add: env_ok_def)
  have left: "insert ?b (H \<union> ?R) - ?R = insert ?b H" using fresh by auto
  obtain rt1 where rm: "remove_replacements (\<lambda>_. no_faults) rt (pq_replacements q) = (Ok (), rt1)" "blob_inv rt1 (insert ?b H)"
    "\<forall>g \<in> insert ?b H. blob_content rt1 g = blob_content rt g"
    using remove_replacements_inv [OF inv, of "pq_replacements q"] unfolding left by blast
  have t1: "blob_content rt1 ?b = Some t" using rm(3) t(1) by simp
  obtain l where l: "request_body_log E enabled (pq_encoded q) rt1 = Ok l"
    using blob_content_read [OF t1] e(2) by (cases enabled) (auto simp: request_body_log_def)
  obtain request where request: "gemini_upstream_request E upstream path query headers (pq_encoded q) rt1 = Ok request"
    "carries_text request url t"
    using request_built [OF url e(3,4) t1 t(2,3)] by blast
  obtain rt2 where rm2: "remove_blob rt1 no_faults ?b = (Ok (), rt2)" using remove_no_faults by blast
  have "insert ?b H - {?b} = H" using fresh by auto
  with remove_blob_inv [OF rm(2) _ rm2] have clean: "blob_inv rt2 H" "\<forall>g \<in> H. blob_content rt2 g = blob_content rt g"
    using rm(3) by auto
  obtain r where "send_gemini_request E enabled upstream path query headers q rt = (r, rt2)" "upstream_said E request r"
    using rm(1) l request(1) rm2 e(1)
    by (cases "rx_send E request") (simp_all add: send_gemini_request_def upstream_said_def failure_def Let_def)
  with request(2) clean show ?thesis by blast
qed


section \<open>A sample run\<close>

definition sample_app :: app where
  "sample_app =
     \<lparr>ap_config = (config_from_env sample_url r2_env)\<lparr>enable_request_image_webp_optimization := False\<rparr>,
      ap_request_service = None, ap_response_service = None\<rparr>"

definition sample_runtime :: blob_runtime where
  "sample_runtime = blob_runtime_new small_cfg (\<lambda>_. None)"

lemma sample_runtime_inv: "blob_inv sample_runtime {}" "ids_left 8 sample_runtime" "ids_left 1 sample_runtime"
  by (simp_all add: sample_runtime_def blob_inv_new) (simp_all add: ids_left_def blob_runtime_new_def)

definition sample_app_state ::
  "((string, memory_entry) lru_state, (string, stored_block_response) lru_state) app_state" where
  "sample_app_state =
     \<lparr>aq_files = (\<lambda>_. None), aq_request_fetch = sample_state, aq_response_fetch = sample_state,
      aq_runtime = sample_runtime, aq_block = Some sample_block_cache, aq_admin = None\<rparr>"

definition sample_upstream :: resolved_upstream where
  "sample_upstream = \<lparr>ru_base_url = ''https://up.example'', ru_api_key = ''k''\<rparr>"

lemma sample_env_ok:
  "env_ok sample_router_env (materialize_services sample_app (build_request_cache_tracking None))"
proof -
  let ?sv = "materialize_services sample_app (build_request_cache_tracking None)"
  let ?E = "sample_materialize_env sample_get_one"
  have "length (fr_bytes f) \<le> REQUEST_MAX_IMAGE_BYTES" if "obtained ?E ?sv url f" for url f
    using that by (auto simp: obtained_def obtain_image_def materialize_services_def sample_app_def sample_materialize_env_def
        dest!: fetch_image_OkD split: sum.splits)
  moreover have "REQUEST_MAX_IMAGE_BYTES < 2 ^ 64" by (simp add: REQUEST_MAX_IMAGE_BYTES_def)
  ultimately have "images_small ?E ?sv" unfolding images_small_def using le_less_trans by blast
  then show ?thesis
    by (simp add: env_ok_def sample_router_env_def sample_encode_env_def sample_order_ok sample_serde_compact
        base64_std_laws one_chunk_ok pipe_ok_def sample_pipe_def one_chunk_content)
qed

lemma sample_materialized:
  "materialize_request_images_with_services (rx_materialize sample_router_env) sv (JObject []) w
     = (Some (Ok \<lparr>mr_request = JObject [], mr_replacements = []\<rparr>), w)"
  by (simp add: materialize_request_images_with_services_def scan_eq_refs within_limit_def sample_router_env_def
      sample_materialize_env_def MAX_INLINE_DATA_URLS_def inline_url_def)

lemma sample_prepared:
  assumes "aq_runtime st = sample_runtime"
  obtains q st1 where "prepare_gemini_request sample_router_env sample_app tracking entry (JObject []) st = (Some (Ok q), st1)"
proof -
  let ?N = "sample_encode_env\<lparr>ee_runtime := sample_runtime\<rparr>"
  have ready: "encode_ready ?N []"
    by (simp add: encode_ready_def sample_encode_env_def sample_serde_compact base64_std_laws one_chunk_ok)
  have pipe: "pipe_ok sample_pipe" "pe_faults sample_pipe = no_faults"
    by (simp_all add: pipe_ok_def sample_pipe_def one_chunk_content)
  have inv: "blob_inv (ee_runtime ?N) {}" "ids_left 1 (ee_runtime ?N)"
    by (simp_all add: sample_runtime_inv [simplified])
  have "strip_output_from_value (JObject []) = JObject []" by code_simp
  then have small: "length (encoded_text ?N [] (JObject [])) < 2 ^ 64"
    by (simp add: encoded_text_def replaced_request_def sample_encode_env_def json_text_def sample_serde_def
        replacement_values_def replacement_map_def)
  obtain r rt where enc: "encode_request_body ?N sample_pipe (JObject []) [] = (r, rt)"
    by (cases "encode_request_body ?N sample_pipe (JObject []) []")
  from encode_request_body_text [OF ready pipe(1) inv small enc] pipe(2) obtain eb where "r = Ok eb"
    by (cases r) auto
  with enc assms have "\<exists>q st1. prepare_gemini_request sample_router_env sample_app tracking entry (JObject []) st
      = (Some (Ok q), st1)"
    by (simp add: prepare_gemini_request_def sample_materialized materialize_done_def tracked_eq materialize_work_def)
      (simp add: sample_router_env_def)
  with that show thesis by blast
qed

lemma sample_inlined: "inlined_text sample_router_env images (JObject []) = ''{}''"
  by (simp add: inlined_text_def sample_router_env_def sample_encode_env_def json_text_def sample_serde_def)

lemma sample_upstream_url:
  "build_upstream_url sample_url (ru_base_url sample_upstream) ''/v1beta/models/m:generateContent'' None
     = Ok ''https://up.example/v1beta/models/m:generateContent''"
  by (simp add: build_upstream_url_def sample_upstream_def filter_query_without_output_def sample_url_eval
      sample_url_def sample_url_text_def)


end
