(* ===== verification/Router_Refusal.thy ===== *)
theory Router_Refusal
  imports Router_Blobs
begin

text \<open>
  A request the upstream has refused is not sent again: from the first answer to the second, through
  the handler for Gemini requests, the transparent forward and the cache of refusals.
\<close>

lemma failed_answer_status [simp]:
  "an_upstream_status (json_answer S st v) = None" "an_upstream_status (error_answer S st m) = None"
  "an_upstream_status (proxy_error_response S st m g k) = None"
  "an_upstream_status (fst (forward_failed E b err e)) = None"
  by (simp_all add: json_answer_def error_answer_def proxy_error_response_def forward_failed_def
      forward_failure_response_def build_structured_proxy_error_response_def split: option.splits)

lemma finish_answer:
  "finish E x st = (r, st') \<Longrightarrow> r = Some (fst x) \<and> aq_block st' = aq_block st"
  "fst (finish E x st) = Some (fst x)"
  by (auto simp: finish_def finalize_admin_response_def split: option.splits)

text \<open>Accepting a request asks the upstream nothing.\<close>

lemma accept_request_env:
  "accept_request (E\<lparr>rx_send := send, rx_lookup_now := later\<rparr>) ap req enabled = accept_request E ap req enabled"
  by (simp add: accept_request_def refused_entry_def request_entry_def Let_def split_def cong: sum.case_cong)

lemma prepare_block:
  assumes "prepare_gemini_request E ap tracking entry body st = (r, st')"
  shows "aq_block st' = aq_block st"
  using assms
  by (auto simp: prepare_gemini_request_def materialize_done_def tracked_eq split: option.splits sum.splits prod.splits)

lemma send_gemini_answer:
  assumes "send_gemini_request E enabled resolved path query headers prepared rt = (Inr (a, entry), rt')"
  shows "\<exists>q. rx_send E q = Ok a"
  using assms by (auto simp: send_gemini_request_def failure_def Let_def split: sum.splits prod.splits)

text \<open>A transparent forward that hands on a refusal has passed it on, and remembered it.\<close>

lemma refusal_forwarded:
  assumes refuses: "\<And>q a. rx_send E q = Ok a \<Longrightarrow> xa_status a = s \<and> xa_body a = Ok refusal \<and> content_type_or_json a = ct"
    and "\<not> is_success s"
    and run: "forward_transparent_gemini_request E ap resolved path query headers body mode key entry st
      = (Some (Ok (answer, entry')), st')"
  shows "gemini_error_response E key s ct refusal (aq_block st) = (answer, aq_block st')"
proof -
  obtain p st1 where p: "prepare_gemini_request E ap (build_request_cache_tracking (aq_admin st)) entry body st = (p, st1)"
    by (cases "prepare_gemini_request E ap (build_request_cache_tracking (aq_admin st)) entry body st")
  with run obtain q where q: "p = Some (Ok q)"
    by (auto simp: forward_transparent_gemini_request_def Let_def split: option.splits sum.splits)
  obtain r rt where r: "send_gemini_request E (aq_admin st \<noteq> None) resolved path query headers q (aq_runtime st1) = (r, rt)"
    by (cases "send_gemini_request E (aq_admin st \<noteq> None) resolved path query headers q (aq_runtime st1)")
  with run p q obtain a e where a: "r = Inr (a, e)"
    by (auto simp: forward_transparent_gemini_request_def Let_def split: sum.splits)
  from send_gemini_answer [OF r [unfolded a]] refuses have ans: "xa_status a = s" "xa_body a = Ok refusal"
    "content_type_or_json a = ct" by blast+
  obtain resp c where g: "gemini_error_response E key s ct refusal (aq_block st1) = (resp, c)"
    by (cases "gemini_error_response E key s ct refusal (aq_block st1)")
  from run p q r a ans g assms(2) have "answer = resp \<and> aq_block st' = c"
    by (auto simp: forward_transparent_gemini_request_def handle_non_stream_response_def without_upload_def Let_def)
  with g prepare_block [OF p] show ?thesis by simp
qed

text \<open>The body the refusal is classified by, and passed on with.\<close>

definition annotated :: "serde \<Rightarrow> status \<Rightarrow> string \<Rightarrow> string" where
  "annotated S s refusal = unwrap_or (annotate_upstream_error_json S s refusal) refusal"

lemma refusal_remembered:
  assumes "block_lru (rx_block E)" "block_ok (rx_block E) latest ttl n c"
    and "classify_blockable_upstream_error s (annotated (rx_serde E) s refusal) = Some reason"
    and "length (annotated (rx_serde E) s refusal) \<le> 65536" "later < rx_store_now E + ttl"
    and "\<And>v w. from_slice (rx_serde E) (annotated (rx_serde E) s refusal) = Ok v \<Longrightarrow> with_blocked_message v = Some w
      \<Longrightarrow> reads_back (rx_serde E) w"
    and "gemini_error_response E (Some k) s ct refusal (Some c) = (answer, cache)"
  shows "\<exists>c' hit. cache = Some c' \<and> an_status answer = UNAVAILABLE_FOR_LEGAL_REASONS
    \<and> fst (block_cache_get (rx_block E) c' later k) = Some hit
    \<and> response_from_block_cache_hit (rx_serde E) hit = answer"
proof -
  let ?b = "annotated (rx_serde E) s refusal"
  have "\<exists>answer c' hit. pass_on_error (rx_block E) (rx_serde E) (Some c) (Some k) (rx_store_now E) s ct ?b = (answer, Some c')
      \<and> an_status answer = UNAVAILABLE_FOR_LEGAL_REASONS \<and> an_upstream_status answer = Some s
      \<and> fst (block_cache_get (rx_block E) c' later k) = Some hit \<and> cb_reason hit = reason
      \<and> response_from_block_cache_hit (rx_serde E) hit = answer"
    by (rule pass_on_refusal [OF assms(1-5)]) (rule assms(6))
  with assms(7) show ?thesis by (auto simp: gemini_error_response_def annotated_def)
qed


section \<open>A sample run\<close>

definition sample_request :: client_request where
  "sample_request =
     \<lparr>cq_method = ''POST'', cq_path = ''/v1beta/models/m:generateContent'', cq_query = None,
      cq_headers = [(''x-goog-api-key'', ''https://up.example|k'')], cq_body = (\<lambda>_. Ok ''{}'')\<rparr>"

lemma sample_accepted:
  "accept_request sample_router_env sample_app sample_request False
     = Ok (\<lparr>sp_request_raw = None\<rparr>, JObject [], sample_upstream)"
proof -
  have "resolve_upstream_for_request_from_header_map sample_url Some [(''x-goog-api-key'', ''https://up.example|k'')] (JObject [])
      base key = Ok sample_upstream" for base key
  proof -
    have "auth_token (header_pairs Some [(''x-goog-api-key'', ''https://up.example|k'')]) = Some ''https://up.example|k''"
      by code_simp
    moreover have "parse_single_upstream_token sample_url ''https://up.example|k''
        = Ok \<lparr>uo_base_url = Some ''https://up.example'', uo_api_key = Some ''k''\<rparr>" by code_simp
    ultimately show ?thesis
      by (simp add: resolve_upstream_for_request_from_header_map_def resolve_upstream_for_request_def sample_upstream_def)
  qed
  then show ?thesis
    by (simp add: accept_request_def sample_request_def sample_router_serde_eval from_request_body_def
        sanitize_request_body_for_log_def maybe_sanitize_json_for_log_def sample_router_env_def Let_def)
qed

lemma sample_provider: "resolve_provider sample_url (ru_base_url sample_upstream) = Transparent"
  by code_simp

text \<open>The sample request reaches the upstream, and is answered with what the upstream says.\<close>

lemma sample_forwarded:
  assumes "aq_runtime st = sample_runtime" "aq_admin st = None"
  shows "\<exists>answer entry' st'. forward_transparent_gemini_request sample_router_env sample_app sample_upstream
      ''/v1beta/models/m:generateContent'' None headers (JObject []) mode key entry st
      = (Some (Ok (answer, entry')), st') \<and> an_upstream_status answer = Some BAD_REQUEST"
proof -
  let ?E = sample_router_env and ?path = "''/v1beta/models/m:generateContent''"
  let ?t = "build_request_cache_tracking None"
  obtain q st1 where p: "prepare_gemini_request ?E sample_app ?t entry (JObject []) st = (Some (Ok q), st1)"
    by (rule sample_prepared [OF assms(1)])
  have inv: "blob_inv (aq_runtime st) {}" "ids_left 8 (aq_runtime st)" using assms(1) by (simp_all add: sample_runtime_inv)
  have strip: "strip_output_from_value (JObject []) = JObject []" by code_simp
  have url: "build_upstream_url (rx_url ?E) (ru_base_url sample_upstream) ?path None
      = Ok ''https://up.example/v1beta/models/m:generateContent''"
    using sample_upstream_url by (simp add: sample_router_env_def)
  obtain R where b: "{} \<inter> R = {}" "R = rr_blob ` set (pq_replacements q)" "eb_body_blob (pq_encoded q) \<notin> {} \<union> R"
    "blob_inv (aq_runtime st1) (insert (eb_body_blob (pq_encoded q)) ({} \<union> R))"
    "blob_content (aq_runtime st1) (eb_body_blob (pq_encoded q)) = Some ''{}''"
    "eb_content_length (pq_encoded q) = of_nat (length ''{}'')" "length ''{}'' < (2::nat) ^ 64"
    using prepared_body [OF p sample_env_ok inv _ strip] by (auto simp: sample_inlined Let_def)
  obtain request r rt' where s: "send_gemini_request ?E False sample_upstream ?path None headers q (aq_runtime st1) = (r, rt')"
    "upstream_said ?E request r"
    using sent_and_cleaned [OF sample_env_ok url b(4) [unfolded b(2)] b(3) [unfolded b(2)] b(1) [unfolded b(2)] b(5-7),
        of False headers] by blast
  then obtain e where r: "r = Ok (\<lparr>xa_status = BAD_REQUEST, xa_content_type = None, xa_body = Ok (sample_print sample_refusal)\<rparr>, e)"
    by (auto simp: upstream_said_def sample_router_env_def sample_refusing_def split: sum.splits)
  obtain answer c where g: "gemini_error_response ?E key BAD_REQUEST APPLICATION_JSON (sample_print sample_refusal) (aq_block st1)
      = (answer, c)" by (cases "gemini_error_response ?E key BAD_REQUEST APPLICATION_JSON (sample_print sample_refusal) (aq_block st1)")
  have "an_upstream_status answer = Some BAD_REQUEST"
    using g by (auto simp: gemini_error_response_def pass_on_error_def raw_response_with_upstream_status_def Let_def)
  then show ?thesis
    using p assms(2) s r g
    by (simp add: forward_transparent_gemini_request_def handle_non_stream_response_def content_type_or_json_def
        without_upload_def is_success_def Let_def)
qed


end
