(* ===== verification/Router_Liveness.thy ===== *)
theory Router_Liveness
  imports Router_Refusal
begin

text \<open>
  Every request is answered. The only places where a handler of \<open>Router\<close> could wait for ever are the
  wait for a fetch another request has started and the poll loop of a task; the lemmas follow the
  result \<open>None\<close> of these two through the code that calls them.
\<close>

section \<open>Fetching\<close>

lemma obtain_image_returns:
  assumes "fetches_end (ms_fetch_service sv) (mv_view E url)"
  shows "fst (obtain_image E sv url st) \<noteq> None"
proof (cases "ms_fetch_service sv")
  case (Some fs)
  with assms fetch_returns [of fs "mv_view E url" "mv_lru E" "mv_disk E" "mv_interfere E url" "mv_direct E url" "wk_service st" url]
  show ?thesis by (auto simp: obtain_image_def split: option.splits sum.splits prod.splits)
qed (simp add: obtain_image_def)

lemma fetch_request_image_returns:
  assumes "fetches_end (ms_fetch_service sv) (mv_view E url)"
  shows "fst (fetch_request_image E sv url st) \<noteq> None"
  using obtain_image_returns [OF assms, of st]
  by (auto simp: fetch_request_image_def split: option.splits sum.splits prod.splits)

lemma join_tasks_returns:
  assumes "\<And>url. fetches_end (ms_fetch_service sv) (mv_view E url)"
  shows "fst (join_tasks E sv urls fetched False st) \<noteq> None"
proof (induction urls arbitrary: fetched st)
  case (Cons url urls)
  obtain r st' where r: "fetch_request_image E sv url st = (Some r, st')"
    using fetch_request_image_returns [OF assms, of url st] by (cases "fetch_request_image E sv url st") auto
  show ?case by (cases r) (auto simp: r Cons.IH simp del: not_None_eq split: prod.splits)
qed simp

lemma materialize_returns:
  assumes "\<And>url. fetches_end (ms_fetch_service sv) (mv_view E url)"
  shows "fst (materialize_request_images_with_services E sv request st) \<noteq> None"
proof (cases "scan_request_image_urls request")
  case (Inr refs)
  obtain r st' where "join_tasks E sv (mv_order E (unique_urls (map ir_url refs) {})) Map.empty False st = (Some r, st')"
    using join_tasks_returns [OF assms, of "mv_order E (unique_urls (map ir_url refs) {})" Map.empty st]
    by (cases "join_tasks E sv (mv_order E (unique_urls (map ir_url refs) {})) Map.empty False st") auto
  with Inr show ?thesis
    by (auto simp: materialize_request_images_with_services_def split: sum.splits)
qed (simp add: materialize_request_images_with_services_def)

lemma fetch_output_image_returns:
  assumes "fetches_end fs (rp_view E n)"
  shows "fst (fetch_output_image E fs n url st) \<noteq> None"
proof (cases fs)
  case (Some sv)
  with assms fetch_returns [of sv "rp_view E n" "rp_lru E" "rp_disk E" "rp_interfere E n" "rp_direct E n" st url]
  show ?thesis by (auto simp: fetch_output_image_def split: prod.splits)
qed (simp add: fetch_output_image_def)

lemma output_part_returns:
  assumes "fetches_end fs (rp_view E n)"
  shows "fst (output_part E mode fs cfg n url st) \<noteq> None"
  using fetch_output_image_returns [OF assms, of url st]
  by (auto simp: output_part_def split: output_mode.splits prod.splits)

lemma output_parts_returns:
  assumes "\<And>n. fetches_end fs (rp_view E n)"
  shows "fst (output_parts E mode fs cfg n urls st) \<noteq> None"
proof (induction urls arbitrary: n st)
  case (Cons url urls)
  obtain r st' where r: "output_part E mode fs cfg n url st = (Some r, st')"
    using output_part_returns [OF assms, of mode cfg n url st] by (cases "output_part E mode fs cfg n url st") auto
  with Cons.IH [of "n + 1" st'] show ?case by (cases r) (auto split: prod.splits)
qed simp

lemma normalized_answers_return:
  assumes "\<And>n. fetches_end fs (rp_view E n)"
  shows "fst (normalize_special_markdown_image_response E body mode fs cfg st) \<noteq> None"
    and "fst (normalize_aiapidev_task_response E body mode fs cfg st) \<noteq> None"
proof -
  show "fst (normalize_special_markdown_image_response E body mode fs cfg st) \<noteq> None"
  proof -
    have "output_part E mode fs cfg 0 url st = (x, st') \<Longrightarrow> x \<noteq> None" for url x st'
      using output_part_returns [OF assms, of mode cfg 0 url st] by auto
    then show ?thesis
      by (auto simp: normalize_special_markdown_image_response_def simp del: not_None_eq split: option.splits prod.splits)
  qed
  show "fst (normalize_aiapidev_task_response E body mode fs cfg st) \<noteq> None"
    using output_parts_returns [OF assms, of mode cfg 0 "extract_aiapidev_image_urls body" st]
    by (auto simp: normalize_aiapidev_task_response_def Let_def split: prod.splits)
qed

lemma edit_image_returns:
  assumes "fetches_end fs (rp_view E n)"
  shows "fst (fetch_happyapi_edit_image E fs ob n url st) \<noteq> None"
proof (cases fs)
  case (Some sv)
  with assms fetch_returns [of sv "rp_view E n" "rp_lru E" "rp_disk E" "rp_interfere E n" "rp_direct E n" "fst st" url]
  show ?thesis by (auto simp: fetch_happyapi_edit_image_def split: prod.splits option.splits sum.splits)
qed (simp add: fetch_happyapi_edit_image_def)

lemma edit_image_parts_return:
  assumes "\<And>n. fetches_end fs (rp_view E n)"
  shows "fst (edit_image_parts E mime_error fs ob n vs st) \<noteq> None"
proof (induction vs arbitrary: n st)
  case (Cons v vs)
  show ?case
  proof (cases "as_str v")
    case (Some url)
    obtain r st' where r: "fetch_happyapi_edit_image E fs ob n url st = (Some r, st')"
      using edit_image_returns [OF assms, of ob n url st] by (cases "fetch_happyapi_edit_image E fs ob n url st") auto
    with Some Cons.IH [of "n + 1" st'] show ?thesis by (cases r) (auto split: prod.splits option.splits)
  qed simp
qed simp

lemma edit_form_returns:
  assumes "\<And>n. fetches_end fs (rp_view E n)"
  shows "fst (build_happyapi_image_edit_form E S mime_error fs ob body st) \<noteq> None"
proof -
  have "edit_image_parts E mime_error fs ob 0 vs st = (x, st') \<Longrightarrow> x \<noteq> None" for vs x st'
    using edit_image_parts_return [OF assms, of mime_error ob 0 vs st] by auto
  then show ?thesis
    by (auto simp: build_happyapi_image_edit_form_def simp del: not_None_eq split: option.splits sum.splits prod.splits)
qed

section \<open>Handlers\<close>

lemma gemini_final_json_returns:
  assumes "\<And>n. fetches_end fs (rp_view (rx_response E) n)"
  shows "fst (gemini_final_json E cfg fs mode v st) \<noteq> None"
  using normalized_answers_return(1) [OF assms, of v mode cfg st]
  by (auto simp: gemini_final_json_def split: option.splits sum.splits prod.splits)

lemma handle_non_stream_returns:
  assumes "\<And>n. fetches_end fs (rp_view (rx_response E) n)"
  shows "fst (handle_non_stream_response E cfg fs mode key a cache st) \<noteq> None"
proof -
  have "gemini_final_json E cfg fs mode v st = (x, st') \<Longrightarrow> x \<noteq> None" for v x st'
    using gemini_final_json_returns [OF assms, of cfg mode v st] by auto
  then show ?thesis
    by (auto simp: handle_non_stream_response_def Let_def simp del: not_None_eq split: sum.splits option.splits prod.splits)
qed

lemma poll_returns:
  assumes "paced E AIAPIDEV_POLL_INTERVAL"
  shows "poll_aiapidev_task E resolved request_id key cache \<noteq> None"
    and "poll_aiapidev_openai_image_task E resolved request_id key cache \<noteq> None"
proof -
  have "Aiapidev.poll_loop E base path auth key 0 0 cache \<noteq> None" for base path auth
    using poll_loop_ends [OF assms, of base path auth key cache] by (auto simp: AIAPIDEV_POLL_INTERVAL_def)
  then show "poll_aiapidev_task E resolved request_id key cache \<noteq> None"
    "poll_aiapidev_openai_image_task E resolved request_id key cache \<noteq> None"
    unfolding poll_aiapidev_task_def poll_aiapidev_openai_image_task_def by blast+
qed

lemma handle_aiapidev_returns:
  assumes "paced E AIAPIDEV_POLL_INTERVAL" "\<And>n. fetches_end fs (rp_view (rx_response E) n)"
  shows "handle_aiapidev_response E cfg fs resolved path query body mode key cache st \<noteq> None"
    and "handle_aiapidev_openai_image_response E cfg resolved query body key cache \<noteq> None"
proof -
  have "gemini_task_answer E cfg fs mode v st \<noteq> None" for v
    using normalized_answers_return(2) [OF assms(2), of v mode cfg st]
    by (auto simp: gemini_task_answer_def split: option.splits sum.splits prod.splits)
  then show "handle_aiapidev_response E cfg fs resolved path query body mode key cache st \<noteq> None"
    using poll_returns(1) [OF assms(1)]
    by (auto simp: handle_aiapidev_response_def simp del: not_None_eq split: sum.splits option.splits prod.splits)
  show "handle_aiapidev_openai_image_response E cfg resolved query body key cache \<noteq> None"
    using poll_returns(2) [OF assms(1)]
    by (auto simp: handle_aiapidev_openai_image_response_def simp del: not_None_eq split: sum.splits option.splits prod.splits)
qed

text \<open>What the environment must do for a request of an app to be answered.\<close>

definition waits_end :: "('u, 'i, 'l, 'b) router_env \<Rightarrow> app \<Rightarrow> bool" where
  "waits_end E ap \<longleftrightarrow>
     paced E AIAPIDEV_POLL_INTERVAL
     \<and> (\<forall>url. fetches_end (ap_request_service ap) (mv_view (rx_materialize E) url))
     \<and> (\<forall>n. fetches_end (ap_request_service ap) (rp_view (rx_edit E) n))
     \<and> (\<forall>n. fetches_end (ap_response_service ap) (rp_view (rx_response E) n))"

lemma prepare_returns:
  assumes "waits_end E ap"
  shows "fst (prepare_gemini_request E ap tracking entry body st) \<noteq> None"
proof -
  have "fst (materialize_request_images_with_services (rx_materialize E) (materialize_services ap tracking) body
      (materialize_work st)) \<noteq> None"
    by (rule materialize_returns) (use assms in \<open>simp add: waits_end_def materialize_services_def\<close>)
  then show ?thesis
    by (auto simp: prepare_gemini_request_def simp del: not_None_eq split: option.splits sum.splits prod.splits)
qed

lemma transparent_returns:
  assumes "waits_end E ap"
  shows "fst (forward_transparent_gemini_request E ap resolved path query headers body mode key entry st) \<noteq> None"
proof -
  let ?p = "prepare_gemini_request E ap (build_request_cache_tracking (aq_admin st)) entry body st"
  obtain r st1 where p: "?p = (Some r, st1)"
    using prepare_returns [OF assms, of "build_request_cache_tracking (aq_admin st)" entry body st] by (cases ?p) auto
  have "handle_non_stream_response E (ap_config ap) (ap_response_service ap) mode key a cache fs = (x, c, fs') \<Longrightarrow> x \<noteq> None"
    for a cache fs x c fs'
    using handle_non_stream_returns [of "ap_response_service ap" E "ap_config ap" mode key a cache fs] assms
    by (auto simp: waits_end_def)
  with p show ?thesis
    by (auto simp: forward_transparent_gemini_request_def Let_def simp del: not_None_eq split: sum.splits prod.splits)
qed

lemma grsai_gemini_returns:
  assumes "waits_end E ap"
  shows "fst (forward_grsai_gemini_request E ap resolved query path body mode entry st) \<noteq> None"
proof -
  have "build_grsai_gemini_response E (ap_config ap) (ap_response_service ap) mode url fs = (x, fs') \<Longrightarrow> x \<noteq> None" for url fs x fs'
    using fetch_output_image_returns [of "ap_response_service ap" "rx_response E" 0 url fs] assms
    by (auto simp: build_grsai_gemini_response_def waits_end_def Let_def simp del: not_None_eq
        split: output_mode.splits sum.splits option.splits prod.splits)
  then have "fst (finish_grsai_gemini E ap mode url entry' st) \<noteq> None" for url entry'
    by (auto simp: finish_grsai_gemini_def simp del: not_None_eq split: prod.splits)
  then show ?thesis
    by (auto simp: forward_grsai_gemini_request_def Let_def simp del: not_None_eq split: sum.splits prod.splits)
qed

lemma aiapidev_gemini_returns:
  assumes "waits_end E ap"
  shows "fst (forward_aiapidev_gemini_request E ap resolved path query body mode key entry st) \<noteq> None"
proof -
  have "handle_aiapidev_response E (ap_config ap) (ap_response_service ap) resolved path' query body' mode key cache fs \<noteq> None"
    for path' body' cache fs
    by (rule handle_aiapidev_returns(1)) (use assms in \<open>simp_all add: waits_end_def\<close>)
  then show ?thesis
    by (auto simp: forward_aiapidev_gemini_request_def Let_def simp del: not_None_eq split: sum.splits option.splits prod.splits)
qed

lemma forward_gemini_returns:
  assumes "waits_end E ap"
  shows "fst (forward_gemini_request E ap resolved path query headers body request_log key st) \<noteq> None"
  using transparent_returns [OF assms] grsai_gemini_returns [OF assms] aiapidev_gemini_returns [OF assms]
  by (simp add: forward_gemini_request_def Let_def del: not_None_eq split: provider_kind.splits)

lemma image_edit_returns:
  assumes "waits_end E ap"
  shows "fst (forward_openai_image_edit E ap resolved body query upstream key entry st) \<noteq> None"
proof -
  have "(None, y) \<noteq> build_happyapi_image_edit_form (rx_edit E) S mime_error (ap_request_service ap) ob body s"
    for S mime_error ob s y
    using edit_form_returns [of "ap_request_service ap" "rx_edit E" S mime_error ob body s] assms
    by (auto simp: waits_end_def simp del: not_None_eq dest: sym)
  from this [symmetric] show ?thesis
    by (auto simp: forward_openai_image_edit_def Let_def simp del: not_None_eq split: sum.splits option.splits prod.splits)
qed

lemma forward_openai_returns:
  assumes "waits_end E ap"
  shows "fst (forward_openai_image_request E ap resolved body query request_log key st) \<noteq> None"
proof -
  have "handle_aiapidev_openai_image_response E (ap_config ap) resolved query body key cache \<noteq> None" for cache
    by (rule handle_aiapidev_returns(2) [where fs = "ap_response_service ap"])
      (use assms in \<open>simp_all add: waits_end_def\<close>)
  with image_edit_returns [OF assms] show ?thesis
    by (auto simp: forward_openai_image_request_def Let_def simp del: not_None_eq
        split: sum.splits option.splits prod.splits provider_kind.splits)
qed

lemma handlers_return:
  assumes "waits_end E ap"
  shows "fst (model_action E ap rest req st) \<noteq> None" "fst (image_generations_action E ap req st) \<noteq> None"
proof -
  have finish: "fst (finish E answered s) \<noteq> None" for answered s by (simp add: finish_def)
  have fwd: "forward_gemini_request E ap u p q hs b l k s = (x, s') \<Longrightarrow> x \<noteq> None" for u p q hs b l k s x s'
    using forward_gemini_returns [OF assms, of u p q hs b l k s] by auto
  have fwd': "forward_openai_image_request E ap u b q l k s = (x, s') \<Longrightarrow> x \<noteq> None" for u b q l k s x s'
    using forward_openai_returns [OF assms, of u b q l k s] by auto
  show "fst (model_action E ap rest req st) \<noteq> None"
    using finish by (auto simp: model_action_def Let_def simp del: not_None_eq dest!: fwd
        split: sum.splits option.splits prod.splits)
  show "fst (image_generations_action E ap req st) \<noteq> None"
    using finish by (auto simp: image_generations_action_def Let_def simp del: not_None_eq dest!: fwd'
        split: sum.splits option.splits prod.splits)
qed

lemma answers_obtained: "fst x \<noteq> None \<Longrightarrow> \<exists>answer st. x = (Some answer, st)"
  by (cases x) auto



end
