(* ===== verification/Server_Run.thy ===== *)
theory Server_Run
  imports Server_Requests Router_Liveness
begin

text \<open>
  The running proxy: any number of requests and ended background fetches, one after the other, from the
  state \<^verbatim>\<open>build_router\<close> leaves. What they share stays within its limits whatever is asked, answered or
  refused, and whichever files cannot be written.
\<close>

section \<open>The run\<close>

text \<open>
  The steps: a request of either kind is answered, in one of the environments \<open>envs\<close> (what the upstream
  and the image hosts answer, what fails, what other requests do while it waits), or a background fetch
  of one of the services ends. The step of a Gemini request asks for eight identifiers of blobs, one for
  each image and one for the body, before the counter of 64 bits wraps. A request whose client goes away
  before it is answered is not a step.
\<close>

inductive server_step ::
  "'l memory_lru \<Rightarrow> app \<Rightarrow> (('u, 'i, 'l, 'b) router_env \<Rightarrow> bool) \<Rightarrow> ('l, 'b) app_state \<Rightarrow> ('l, 'b) app_state \<Rightarrow> bool"
  for L ap envs where
  gemini_request:
    "envs E \<Longrightarrow> ids_left 8 (aq_runtime st) \<Longrightarrow> model_action E ap rest req st = (Some answer, st')
     \<Longrightarrow> server_step L ap envs st st'"
| image_request:
    "envs E \<Longrightarrow> image_generations_action E ap req st = (Some answer, st') \<Longrightarrow> server_step L ap envs st st'"
| request_fetch_ends:
    "ap_request_service ap = Some sv \<Longrightarrow> fetched_small r
     \<Longrightarrow> server_step L ap envs st (set_request_fetch (complete_task L D F sv (request_fetch st) t url r) st)"
| response_fetch_ends:
    "ap_response_service ap = Some sv \<Longrightarrow> fetched_small r
     \<Longrightarrow> server_step L ap envs st (set_response_fetch (complete_task L D F sv (response_fetch st) t url r) st)"

definition server_ok ::
  "'l memory_lru \<Rightarrow> 'b block_lru \<Rightarrow> u64 \<Rightarrow> nat \<Rightarrow> blob_config \<Rightarrow> app \<Rightarrow> ('l, 'b) app_state \<Rightarrow> bool" where
  "server_ok L B mx n bc ap st \<longleftrightarrow> parts_ok L B mx n bc ap st \<and> log_within (aq_admin st)"

lemma server_step_ok:
  assumes L: "memory_lru L" and B: "block_lru B" and envs: "\<And>E. envs E \<Longrightarrow> request_env_ok L B mx ap E"
    and step: "server_step L ap envs st st'" and ok: "server_ok L B mx n bc ap st"
  shows "server_ok L B mx n bc ap st'"
proof -
  have parts: "parts_ok L B mx n bc ap st" and log: "log_within (aq_admin st)" using ok by (simp_all add: server_ok_def)
  from step show ?thesis
  proof cases
    case (gemini_request E rest req answer)
    have "log_within (aq_admin st')"
      using logged_within [OF model_action_logs [of E req st ap rest, unfolded gemini_request(3)] log] .
    with model_action_keeps [OF L B envs [OF gemini_request(1)] parts gemini_request(2,3)] show ?thesis
      by (simp add: server_ok_def)
  next
    case (image_request E req answer)
    have "log_within (aq_admin st')"
      using logged_within [OF image_generations_action_logs [of E req st ap, unfolded image_request(2)] log] .
    with image_action_keeps [OF L B envs [OF image_request(1)] parts image_request(2)] show ?thesis
      by (simp add: server_ok_def)
  next
    case (request_fetch_ends sv r D F t url)
    have "fetch_ok L mx sv (request_fetch st)" using parts_services(1) [OF parts] request_fetch_ends(2) by simp
    from memory_lru.complete_task_keeps [OF L this request_fetch_ends(3)] request_fetch_ends(1,2) parts log show ?thesis
      by (auto simp: server_ok_def intro!: parts_request)
  next
    case (response_fetch_ends sv r D F t url)
    have "fetch_ok L mx sv (response_fetch st)" using parts_services(2) [OF parts] response_fetch_ends(2) by simp
    from memory_lru.complete_task_keeps [OF L this response_fetch_ends(3)] response_fetch_ends(1,2) parts log show ?thesis
      by (auto simp: server_ok_def intro!: parts_response)
  qed
qed

lemma server_run_ok:
  assumes "memory_lru L" "block_lru B" "\<And>E. envs E \<Longrightarrow> request_env_ok L B mx ap E"
    and "(server_step L ap envs)\<^sup>*\<^sup>* st0 st" "server_ok L B mx n bc ap st0"
  shows "server_ok L B mx n bc ap st"
  using assms(4,5) by (induction rule: rtranclp_induct) (auto intro: server_step_ok [OF assms(1-3)])

section \<open>The start\<close>

definition blob_limits :: "config \<Rightarrow> blob_config" where
  "blob_limits cfg =
     \<lparr>bc_inline_max_bytes = of_nat (blob_inline_max_bytes cfg),
      bc_request_hot_budget_bytes = of_nat (blob_request_hot_budget_bytes cfg),
      bc_global_hot_budget_bytes = of_nat (blob_global_hot_budget_bytes cfg),
      bc_spill_dir = blob_spill_dir cfg\<rparr>"

lemma new_service_ok:
  assumes L: "memory_lru L" and files: "bodies_small files" and mx: "inline_data_url_memory_cache_max_bytes cfg < 2 ^ 63"
    and "from_config_with_png_optimization L cfg files m allow webp inflight bridge = Some (sv, st)"
  shows "fetch_ok L (of_nat (inline_data_url_memory_cache_max_bytes cfg)) sv st \<and> sv_max_inflight sv = inflight"
proof -
  have "unat (of_nat (inline_data_url_memory_cache_max_bytes cfg) :: u64) < 2 ^ 63"
    using mx by (simp add: unat_of_nat take_bit_nat_eq_self)
  from memory_lru.memory_new_inv [OF L this] assms(4) files show ?thesis
    by (auto simp: from_config_with_png_optimization_def fetch_ok_def inflight_ok_def memory_cache_new_def split: if_splits)
qed

lemma built_service_ok:
  assumes "memory_lru L" "bodies_small files" "inline_data_url_memory_cache_max_bytes cfg < 2 ^ 63"
    and new: "x = from_config_with_png_optimization L cfg files m allow webp inflight bridge"
  shows "service_ok L (of_nat (inline_data_url_memory_cache_max_bytes cfg)) (map_option fst x)
    ((case x of None \<Rightarrow> no_service | Some s \<Rightarrow> snd s)\<lparr>st_files := files\<rparr>)"
proof (cases x)
  case (Some y)
  obtain sv st where y: "y = (sv, st)" by (cases y)
  from new_service_ok [OF assms(1-3) new [symmetric, unfolded Some y]] Some y assms(2) show ?thesis
    by (simp add: service_ok_files [of _ _ "Some sv", simplified])
qed (use assms in simp)

lemma server_starts_ok:
  assumes L: "memory_lru L" and B: "block_lru B"
    and start: "build_router L B no_service files fs cfg = (ap, st)"
    and files: "bodies_small files" and mx: "inline_data_url_memory_cache_max_bytes cfg < 2 ^ 63"
  shows "server_ok L B (of_nat (inline_data_url_memory_cache_max_bytes cfg)) (upstream_block_cache_max_entries cfg)
    (blob_limits cfg) ap st"
proof -
  let ?new = "block_cache_new B (upstream_block_cache_ttl cfg) (upstream_block_cache_max_entries cfg)"
  have eqs: "aq_runtime st = blob_runtime_new (blob_limits cfg) fs" "aq_block st = ?new"
    "aq_admin st = (if blank (admin_password cfg) then None else Some (admin_state_new (admin_password cfg)))"
    "ap_request_service ap = map_option fst (from_config L cfg files REQUEST_MAX_IMAGE_BYTES False)"
    "ap_response_service ap = map_option fst (from_response_config L cfg files DEFAULT_MAX_IMAGE_BYTES False)"
    "request_fetch st = (case from_config L cfg files REQUEST_MAX_IMAGE_BYTES False of
        None \<Rightarrow> no_service | Some s \<Rightarrow> snd s)\<lparr>st_files := files\<rparr>"
    "response_fetch st = (case from_response_config L cfg files DEFAULT_MAX_IMAGE_BYTES False of
        None \<Rightarrow> no_service | Some s \<Rightarrow> snd s)\<lparr>st_files := files\<rparr>"
    using start by (auto simp: build_router_def blob_limits_def request_fetch_def response_fetch_def Let_def)
  note new = block_lru.block_new_ok [OF B, of "upstream_block_cache_ttl cfg" "upstream_block_cache_max_entries cfg"]
  have "refusals_within B (upstream_block_cache_max_entries cfg) ?new"
    by (cases ?new) (use new in \<open>auto simp: refusals_within_def\<close>)
  moreover have "log_within (aq_admin st)"
    by (simp add: eqs(3) log_within_def admin_state_new_def stats_default_def)
  moreover note built_service_ok [OF L files mx]
  moreover have "blob_inv (aq_runtime st) {}" "br_cfg (aq_runtime st) = blob_limits cfg"
    by (simp_all add: eqs blob_inv_new) (simp add: blob_runtime_new_def)
  ultimately show ?thesis
    by (auto simp: server_ok_def parts_ok_def eqs from_config_def from_response_config_def)
qed

section \<open>The limits\<close>

text \<open>The bytes of the images in a memory cache, and a service within its limits.\<close>

definition cached_bytes :: "'l memory_lru \<Rightarrow> 'l memory_cache \<Rightarrow> nat" where
  "cached_bytes L mc = sum_list (map (\<lambda>e. length (me_bytes (snd e))) (lru_items L (mc_items mc)))"

definition service_within :: "'l memory_lru \<Rightarrow> nat \<Rightarrow> nat \<Rightarrow> 'l fetch_state \<Rightarrow> bool" where
  "service_within L tasks bytes s \<longleftrightarrow>
     distinct (map fst (st_inflight s)) \<and> length (st_inflight s) \<le> tasks
     \<and> (case st_memory s of None \<Rightarrow> True | Some mc \<Rightarrow> cached_bytes L mc \<le> bytes)"

lemma cached_bytes_within:
  assumes "memory_inv L mc" "mc_max_bytes mc = of_nat n"
  shows "cached_bytes L mc \<le> n"
proof -
  have ok: "entries_ok (lru_items L (mc_items mc))" using assms(1) by (simp add: memory_inv_def)
  have "cached_bytes L mc = entry_bytes (lru_items L (mc_items mc))"
    unfolding cached_bytes_def entry_bytes_def
    by (rule arg_cong [where f = sum_list], rule map_cong [OF refl])
      (use ok in \<open>auto simp: entries_ok_def unat_of_nat take_bit_nat_eq_self\<close>)
  also have "\<dots> \<le> unat (mc_max_bytes mc)" using assms(1) by (simp add: memory_inv_def word_le_nat_alt)
  also have "\<dots> \<le> n" by (simp add: assms(2) unat_of_nat)
  finally show ?thesis .
qed

lemma service_limits:
  assumes "fetch_ok L (of_nat n) sv s"
  shows "service_within L (sv_max_inflight sv) n s"
  using assms cached_bytes_within by (auto simp: fetch_ok_def service_within_def inflight_ok_def split: option.splits)

lemma service_within_files [simp]: "service_within L t n (s\<lparr>st_files := f\<rparr>) = service_within L t n s"
  by (simp add: service_within_def)

lemma built_inflight:
  assumes "build_router L B no_service files fs cfg = (ap, st)"
  shows "ap_request_service ap = Some sv \<Longrightarrow> sv_max_inflight sv = inline_data_url_background_fetch_max_inflight cfg"
    and "ap_response_service ap = Some sv \<Longrightarrow> sv_max_inflight sv = max (inline_data_url_background_fetch_max_inflight cfg) 1"
  using assms
  by (auto simp: build_router_def from_config_def from_response_config_def from_config_with_png_optimization_def Let_def
      split: if_splits)

text \<open>
  (C4) However many requests have been answered and fetches have ended since the proxy started, and
  whatever failed on the way: the blobs in memory are within the global budget, each fetch service has one task
  at most for a URL, no more tasks than configured and no more bytes in memory than configured, the cache
  of refusals and the log have no more entries than they may, and the statistics count as many requests as
  the log has numbered.
\<close>

theorem server_stays_within_limits:
  assumes libs: "memory_lru L" "block_lru B"
    and start: "build_router L B no_service files fs cfg = (ap, st0)" "bodies_small files"
      "inline_data_url_memory_cache_max_bytes cfg < 2 ^ 63"
    and envs: "\<And>E. envs E \<Longrightarrow> request_env_ok L B (of_nat (inline_data_url_memory_cache_max_bytes cfg)) ap E"
    and run: "(server_step L ap envs)\<^sup>*\<^sup>* st0 st"
  shows "unat (br_global_hot_bytes (aq_runtime st)) \<le> blob_global_hot_budget_bytes cfg
    \<and> (ap_request_service ap \<noteq> None \<longrightarrow> service_within L (inline_data_url_background_fetch_max_inflight cfg)
        (inline_data_url_memory_cache_max_bytes cfg) (aq_request_fetch st))
    \<and> (ap_response_service ap \<noteq> None \<longrightarrow> service_within L (max (inline_data_url_background_fetch_max_inflight cfg) 1)
        (inline_data_url_memory_cache_max_bytes cfg) (aq_response_fetch st))
    \<and> (\<forall>c. aq_block st = Some c \<longrightarrow> length (lru_items B (ub_entries c)) \<le> upstream_block_cache_max_entries cfg)
    \<and> (\<forall>a. aq_admin st = Some a \<longrightarrow> length (ad_entries a) \<le> 100 \<and> as_total_requests (ad_stats a) = ad_next_id a)"
proof -
  let ?n = "upstream_block_cache_max_entries cfg"
  have ok: "server_ok L B (of_nat (inline_data_url_memory_cache_max_bytes cfg)) ?n (blob_limits cfg) ap st"
    by (rule server_run_ok [OF libs envs run server_starts_ok [OF libs start]])
  then have "br_global_hot_bytes (aq_runtime st) \<le> of_nat (blob_global_hot_budget_bytes cfg)"
    by (auto simp: server_ok_def parts_ok_def blob_inv_def blob_limits_def)
  then have "unat (br_global_hot_bytes (aq_runtime st)) \<le> unat (of_nat (blob_global_hot_budget_bytes cfg) :: u64)"
    by (simp only: word_le_nat_alt)
  moreover have "unat (of_nat (blob_global_hot_budget_bytes cfg) :: u64) \<le> blob_global_hot_budget_bytes cfg"
    by (simp add: unat_of_nat)
  moreover have "service_within L (inline_data_url_background_fetch_max_inflight cfg)
      (inline_data_url_memory_cache_max_bytes cfg) (aq_request_fetch st)" if "ap_request_service ap = Some sv" for sv
    using service_limits [of L _ sv "request_fetch st"] ok that built_inflight(1) [OF start(1) that]
    by (simp add: server_ok_def parts_ok_def request_fetch_def)
  moreover have "service_within L (max (inline_data_url_background_fetch_max_inflight cfg) 1)
      (inline_data_url_memory_cache_max_bytes cfg) (aq_response_fetch st)" if "ap_response_service ap = Some sv" for sv
    using service_limits [of L _ sv "response_fetch st"] ok that built_inflight(2) [OF start(1) that]
    by (simp add: server_ok_def parts_ok_def response_fetch_def)
  moreover have "length (lru_items B (ub_entries c)) \<le> ?n" if "aq_block st = Some c" for c
    using ok that lru_cache.valid [OF block_lru.axioms [OF libs(2)], of "ub_entries c"]
    by (auto simp: server_ok_def parts_ok_def refusals_within_def block_ok_def)
  moreover have "length (ad_entries a) \<le> 100 \<and> as_total_requests (ad_stats a) = ad_next_id a" if "aq_admin st = Some a" for a
    using ok that by (simp add: server_ok_def log_within_def ADMIN_LOG_CAPACITY_def)
  ultimately show ?thesis by (meson le_trans not_None_eq)
qed

text \<open>A proxy with both services and the log, and a Gemini request to it.\<close>

definition sample_server_config :: config where
  "sample_server_config =
     (config_from_env sample_url r2_env)\<lparr>admin_password := ''p'', inline_data_url_memory_cache_max_bytes := 100\<rparr>"

definition small_pipe :: pipe_env where
  "small_pipe = sample_pipe\<lparr>pe_pipe := (\<lambda>t. if length t < 2 ^ 64 then one_chunk t else [Err ''full''])\<rparr>"

lemma small_pipe_small: "pipe_small small_pipe"
  by (simp add: pipe_small_def small_pipe_def one_chunk_content del: one_chunk_def)

definition sample_server_env ::
  "(sample_u, unit, (string, memory_entry) lru_state, (string, stored_block_response) lru_state) router_env" where
  "sample_server_env = sample_router_env\<lparr>rx_pipe := small_pipe\<rparr>"

lemma sample_server_env_ok:
  assumes "ap_request_service ap \<noteq> None"
  shows "request_env_ok lru_list lru_list mx ap sample_server_env"
  using assms small_pipe_small sample_order_ok
  by (auto simp: request_env_ok_def sample_server_env_def sample_router_env_def materialize_ok_def materialize_env_ok_def
      response_env_ok_def materialize_services_def sample_response_env_def view_small_def published_small_def
      fetched_small_def sample_view_def sample_materialize_env_def)

lemma sample_server_starts:
  assumes "build_router lru_list lru_list sample_state (\<lambda>_. None) (\<lambda>_. None) sample_server_config = (ap, st)"
  shows "ap_request_service ap \<noteq> None" "ids_left 8 (aq_runtime st)" "waits_end sample_server_env ap"
  using assms
  by (auto simp: build_router_def sample_server_config_def from_config_def from_response_config_def
      from_config_with_png_optimization_def ids_left_def blob_runtime_new_def waits_end_def fetches_end_def paced_def
      sample_server_env_def sample_router_env_def sample_materialize_env_def sample_response_env_def sample_view_def
      AIAPIDEV_POLL_INTERVAL_def Let_def)

lemma server_stays_within_limits_witness:
  "\<exists>ap st0 answer st.
     build_router lru_list lru_list sample_state (\<lambda>_. None) (\<lambda>_. None) sample_server_config = (ap, st0)
     \<and> model_action sample_server_env ap ''m:generateContent'' sample_request st0 = (Some answer, st)
     \<and> unat (br_global_hot_bytes (aq_runtime st)) \<le> blob_global_hot_budget_bytes sample_server_config
     \<and> service_within lru_list (inline_data_url_background_fetch_max_inflight sample_server_config) 100 (aq_request_fetch st)
     \<and> (\<forall>a. aq_admin st = Some a \<longrightarrow> length (ad_entries a) \<le> 100 \<and> as_total_requests (ad_stats a) = ad_next_id a)"
proof -
  obtain ap st0 where start:
    "build_router lru_list lru_list sample_state (\<lambda>_. None) (\<lambda>_. None) sample_server_config = (ap, st0)" by fastforce
  note st0 = sample_server_starts [OF start]
  obtain answer st where req: "model_action sample_server_env ap ''m:generateContent'' sample_request st0 = (Some answer, st)"
    using answers_obtained [OF handlers_return(1) [OF st0(3)]] by blast
  have step: "server_step lru_list ap ((=) sample_server_env) st0 st"
    by (rule server_step.gemini_request [OF refl st0(2) req])
  have mx: "inline_data_url_memory_cache_max_bytes sample_server_config = 100" by (simp add: sample_server_config_def)
  have "request_env_ok lru_list lru_list (of_nat 100) ap E" if "sample_server_env = E" for E
    using sample_server_env_ok [OF st0(1)] that by blast
  then have env: "sample_server_env = E \<Longrightarrow> request_env_ok lru_list lru_list
      (of_nat (inline_data_url_memory_cache_max_bytes sample_server_config)) ap E" for E
    unfolding mx .
  have run: "(server_step lru_list ap ((=) sample_server_env))\<^sup>*\<^sup>* st0 st" using step by blast
  have "bodies_small (\<lambda>_. None)" "inline_data_url_memory_cache_max_bytes sample_server_config < 2 ^ 63"
    by (simp_all add: bodies_small_def mx)
  from server_stays_within_limits [OF list_memory.memory_lru_axioms list_block.block_lru_axioms start this env run]
    start req st0(1) show ?thesis by (auto simp: mx)
qed

end
