(* ===== verification/Shortcomings.thy ===== *)
theory Shortcomings
  imports Server_Requests Router_Refusal
begin

text \<open>
  Where the code does not do what it means to, each as a lemma on the model: the behaviour is that of
  the source, and the text above the lemma says what is wrong with it. Others are in the theories of their
  components: \<open>bracketed_ipv6_never_banned\<close>, \<open>waiter_can_be_stranded\<close>,
  \<open>zero_timeouts_give_up_at_once\<close>, \<open>unreadable_description_blocks_url\<close>,
  \<open>failed_materialization_keeps_blobs\<close> and \<open>grsai_answer_status\<close>.
\<close>

section \<open>Fetching\<close>

text \<open>
  A lookup does not look at the size limit of the service that asks. The services for requests and for
  answers share the directory of the disk cache, so a request is given images beyond its own limit.
\<close>

lemma lookup_ignores_size_limit:
  "fetch_lookup L D (sv\<lparr>sv_max_image_bytes := m\<rparr>) st url = fetch_lookup L D sv st url"
proof -
  have "sv_disk (sv\<lparr>sv_max_image_bytes := m\<rparr>) = sv_disk sv" by simp
  then show ?thesis unfolding fetch_lookup_def by (simp only:)
qed

section \<open>Blobs nobody removes\<close>

text \<open>When the body of a request cannot be encoded, the blobs of all its images stay in the store.\<close>

lemma failed_body_leaves_the_images:
  assumes "blob_inv rt H" "ids_left 1 rt" "pipe_small P"
    and "encode_request_body (N\<lparr>ee_runtime := rt\<rparr>) P request rs = (Err e, rt')"
  shows "\<exists>H'. blob_inv rt' H' \<and> H \<subseteq> H'"
  using encode_keeps [OF _ _ assms(3,4), of H] assms(1,2) by auto

text \<open>When the URL of the upstream cannot be built, the blob of the encoded body stays in the store.\<close>

lemma unsent_body_stays:
  assumes inv: "blob_inv rt H" "rr_blob ` set (pq_replacements p) \<subseteq> H"
    and body: "eb_body_blob (pq_encoded p) \<in> H - rr_blob ` set (pq_replacements p)"
    and io: "rx_remove_io E = (\<lambda>_. no_faults)"
    and url: "build_upstream_url (rx_url E) (ru_base_url u) path q = Err err"
  shows "\<exists>f rt' H'. send_gemini_request E False u path q hs p rt = (Err f, rt')
    \<and> blob_inv rt' H' \<and> eb_body_blob (pq_encoded p) \<in> H'"
proof -
  have "rr_blob r \<in> H \<or> bh_id (rr_blob r) \<in> br_removed rt" if "r \<in> set (pq_replacements p)" for r
    using inv(2) that by blast
  from remove_replacements_inv [OF inv(1), of "pq_replacements p", OF this]
  obtain rt' where rt': "remove_replacements (rx_remove_io E) rt (pq_replacements p) = (Ok (), rt')"
    "blob_inv rt' (H - rr_blob ` set (pq_replacements p))" unfolding io by blast
  then have "\<exists>f. send_gemini_request E False u path q hs p rt = (Err f, rt')"
    using url by (simp add: send_gemini_request_def request_body_log_def gemini_upstream_request_def failure_def Let_def)
  with rt'(2) body show ?thesis by blast
qed

section \<open>Uploading\<close>

text \<open>The path that is signed for R2 leaves out the path of the endpoint, which the URL keeps.\<close>

lemma signed_path_drops_endpoint_path:
  "build_r2_object_url sample_url
     \<lparr>su_scheme = ''https'', su_host = ''r2.example'', su_path = ''/base'', su_query = None, su_fragment = None\<rparr>
     ''b'' ''k.png''
   = (''https://r2.example/base/b/k.png'', ''/b/k.png'')"
  by code_simp

section \<open>What the log and the client are told\<close>

text \<open>
  A client whose image host is down is told that the upstream is, because every error of the HTTP client
  is taken for one of sending.
\<close>

lemma every_client_error_blames_the_upstream:
  "\<exists>s. classify_standard_proxy_error_detail (ReqwestError err) = Some s \<and> se_stage s = ''send_upstream_request''"
  by (simp add: classify_standard_proxy_error_detail_def Let_def)

text \<open>An error object with a message only wipes out the source, the stage and the kind the handler has set.\<close>

lemma plain_error_wipes_entry:
  "le_error_source e' = [] \<and> le_error_stage e' = [] \<and> le_error_kind e' = []"
  if "e' = apply_admin_error_fields status (JObject [(''error'', JObject [(''message'', JString m)])]) body
    (with_proxy_error stage kind message detail entry)"
  by (simp add: that apply_admin_error_fields_def jget_def Let_def)

text \<open>
  When an image edit fails after some of its images came from the cache, the statistics have counted them
  and the entry for the log does not show them.
\<close>

lemma failed_edit_hides_cache_hits:
  assumes url: "build_upstream_url (rx_url E) (ru_base_url u) ''/v1/images/edits'' q = Ok upstream_url"
    and form: "build_happyapi_image_edit_form (rx_edit E) (rx_serde E) (rx_mime_error E) (ap_request_service ap)
        True body (request_fetch st, []) = (Some (Err err), fs, [(img, True)])"
    and admin: "aq_admin st = Some a"
  shows "\<exists>st' a'. forward_openai_image_edit E ap u body q up key entry st = (Some (failure err entry), st')
    \<and> aq_admin st' = Some a' \<and> as_cache_hits (ad_stats a') = as_cache_hits (ad_stats a) + 1"
  using assms
  by (simp add: forward_openai_image_edit_def build_request_cache_tracking_def tracked_def set_request_fetch_def failure_def)

end
