(* ===== verification/Process.thy ===== *)
theory Process
  imports Router_Env
begin

text \<open>
  \<^verbatim>\<open>src/main.rs\<close>: reading the configuration, binding the address, serving until a signal comes. Binding
  and serving belong to \<^verbatim>\<open>tokio\<close> and \<^verbatim>\<open>axum\<close> and are parameters; the trace subscriber is left out.
\<close>

section \<open>The signal to stop\<close>

text \<open>
  A signal the process listens for comes at some time or never; listening may also fail at once.
  A future that completes is the time it does, one that stays pending is \<open>None\<close>.
\<close>

datatype signal_source = Listens "nat option" | CannotListen string

definition ctrl_c :: "signal_source \<Rightarrow> nat option" where
  "ctrl_c s = (case s of Listens t \<Rightarrow> t | CannotListen _ \<Rightarrow> Some 0)"

definition terminate_signal :: "signal_source \<Rightarrow> nat option" where
  "terminate_signal s = (case s of Listens t \<Rightarrow> t | CannotListen _ \<Rightarrow> None)"

text \<open>\<^verbatim>\<open>tokio::select!\<close> of two futures whose values are not looked at.\<close>

definition select_first :: "nat option \<Rightarrow> nat option \<Rightarrow> nat option" where
  "select_first a b =
     (case (a, b) of (Some s, Some t) \<Rightarrow> Some (min s t) | (Some s, None) \<Rightarrow> Some s | (None, t) \<Rightarrow> t)"

definition shutdown_signal :: "signal_source \<Rightarrow> signal_source \<Rightarrow> nat option" where
  "shutdown_signal interrupt sigterm = select_first (ctrl_c interrupt) (terminate_signal sigterm)"

section \<open>The process\<close>

text \<open>\<open>serve\<close> is \<^verbatim>\<open>axum::serve\<close> with graceful shutdown, given the router and the time to shut down.\<close>

definition run_server ::
  "('listener \<Rightarrow> 'router \<Rightarrow> nat option \<Rightarrow> (string, unit) result) \<Rightarrow> (config \<Rightarrow> 'router) \<Rightarrow> 'listener \<Rightarrow> config
   \<Rightarrow> nat option \<Rightarrow> (string, unit) result" where
  "run_server serve router listener config shutdown =
     (case serve listener (router config) shutdown of Err err \<Rightarrow> Err err | Ok _ \<Rightarrow> Ok ())"

definition main ::
  "'u url_api \<Rightarrow> (string \<Rightarrow> (string, 'listener) result)
   \<Rightarrow> ('listener \<Rightarrow> 'router \<Rightarrow> nat option \<Rightarrow> (string, unit) result) \<Rightarrow> (config \<Rightarrow> 'router)
   \<Rightarrow> signal_source \<Rightarrow> signal_source \<Rightarrow> env \<Rightarrow> (string, unit) result" where
  "main U bind_listener serve router interrupt sigterm environment =
     (case from_env_map U environment of
        Err err \<Rightarrow> Err err
      | Ok config \<Rightarrow>
          (case bind_listener (''0.0.0.0:'' @ show_nat (port config)) of
             Err err \<Rightarrow> Err err
           | Ok listener \<Rightarrow> run_server serve router listener config (shutdown_signal interrupt sigterm)))"

section \<open>What it promises\<close>

text \<open>With both signals listened for, the process stops at the first of them, and only then.\<close>

lemma shutdown_at_first_signal:
  "shutdown_signal (Listens a) (Listens b) = Some t \<longleftrightarrow>
     (a = Some t \<or> b = Some t) \<and> (\<forall>s. a = Some s \<or> b = Some s \<longrightarrow> t \<le> s)"
  by (cases a; cases b) (auto simp: shutdown_signal_def select_first_def ctrl_c_def terminate_signal_def min_def)

text \<open>A process that cannot listen for \<^verbatim>\<open>SIGTERM\<close> still waits for the other signal.\<close>

lemma unheard_sigterm_waits: "shutdown_signal (Listens a) (CannotListen err) = a"
  by (cases a) (simp_all add: shutdown_signal_def select_first_def ctrl_c_def terminate_signal_def)

text \<open>
  A process that cannot listen for the interrupt stops as soon as it has started, where it means to write
  a warning and go on: the future of the interrupt completes after the warning.
\<close>

lemma unheard_interrupt_stops: "shutdown_signal (CannotListen err) b = Some 0"
  by (cases b) (auto simp: shutdown_signal_def select_first_def ctrl_c_def terminate_signal_def split: option.splits)

text \<open>Nothing is bound for a configuration that is refused, and what is bound is the configured port.\<close>

lemma main_serves_accepted_configuration:
  assumes "main U bind_listener serve router interrupt sigterm environment = Ok ()"
  shows "\<exists>c listener. from_env_map U environment = Ok c \<and> port c \<le> 65535
    \<and> bind_listener (''0.0.0.0:'' @ show_nat (port c)) = Ok listener
    \<and> serve listener (router c) (shutdown_signal interrupt sigterm) = Ok ()"
proof -
  obtain c listener where c: "from_env_map U environment = Ok c" "bind_listener (''0.0.0.0:'' @ show_nat (port c)) = Ok listener"
    "serve listener (router c) (shutdown_signal interrupt sigterm) = Ok ()"
    using assms by (auto simp: main_def run_server_def split: sum.splits)
  have "c = config_from_env U environment" using c(1) by (auto simp: from_env_map_def Let_def split: sum.splits)
  then have "port c \<le> 65535" using env_port_u16 by (simp add: config_from_env_simps)
  with c show ?thesis by blast
qed

end
