(* ===== verification/Spec2Isabelle.thy ===== *)
theory Spec2Isabelle
  imports Upstream Request_Encode Image_Io Fetch_Service Fetch_Waiters Block_Cache Request_Rewrite Response_Materialize
    Grsai Openai_Image Log_Sanitize Router_Openai Server_Run Shortcomings Process
begin

text \<open>
  A model of rust-sync-proxy, a proxy between clients of the Gemini image API (and of the OpenAI image
  API) and their upstreams. File names are those of the repository's \<^verbatim>\<open>src/\<close> directory.

  \<^bold>\<open>The program.\<close> A client posts a Gemini \<^verbatim>\<open>generateContent\<close> request, or an OpenAI image generation
  or edit, to the proxy. The key of the request picks the upstream (\<open>Upstream\<close>). The images the request
  names by URL are fetched (\<open>Image_Io\<close>, through the caches and the shared tasks of \<open>Fetch_Service\<close>),
  kept as blobs in memory or in spill files (\<open>Blob_Runtime\<close>), and the body is written again with the
  images in base64 in their places (\<open>Request_Materialize\<close>, \<open>Request_Encode\<close>). The upstream's answer is
  read, images in it are uploaded to an image host or inlined, and what the client should not see is
  dropped (\<open>Response_Rewrite\<close>, \<open>Response_Materialize\<close>, \<open>Upload\<close>). Two providers, aiapidev (a task that
  is polled) and grsai, have request and answer forms of their own. A request the upstream refused for
  its content is remembered and not sent again for a while (\<open>Block_Cache\<close>). Every answered request is
  put in the admin log and counted (\<open>Admin_Log\<close>).

  \<^bold>\<open>Shared theories.\<close> \<open>Prelude\<close> and \<open>Text\<close>: the part of Rust's standard library the sources use on
  strings, numbers, results and iterators, the collections \<open>rust_simps\<close> and \<open>inv_intros\<close>.
  \<open>Json\<close>: \<^verbatim>\<open>serde_json::Value\<close>, its pointers, and the interface \<open>serde\<close> of its reader and printer.
  \<open>Http_Types\<close>: status codes, the errors of a response. \<open>Messages\<close>: the fixed texts.
  \<open>Samples\<close> and \<open>Router_Samples\<close>: concrete libraries and environments on which witnesses run.

  \<^bold>\<open>Components.\<close> Each theory has the records and operations of its source under the source's names,
  then its invariant or specification and the lemmas.
  \<^item> \<open>Config\<close> is \<^verbatim>\<open>config.rs\<close>: the configuration is read from a map of environment variables, with
    every default, clamp and refusal. Its lemmas bound what the other components rely on.
  \<^item> \<open>Upstream\<close> is \<^verbatim>\<open>provider.rs\<close> and \<^verbatim>\<open>upstream.rs\<close>: which upstream a key names, and that an override by
    the caller gives a checked base URL and key or an error.
  \<^item> \<open>Blob_Runtime\<close> is \<^verbatim>\<open>blob_runtime.rs\<close> with a fault schedule for the file system. \<open>Blob_Safety\<close> has the
    invariant \<open>blob_inv\<close> (the counter of hot bytes is the sum of the inline blobs and within its budget,
    every live blob reads back), the interface \<open>blob_store\<close> that clients rely on, any run of operations,
    and the compare-and-exchange loop of \<^verbatim>\<open>try_inline_reserve\<close> as the interleaved relation \<open>reserve_step\<close>.
  \<^item> \<open>Image_Io\<close> is \<^verbatim>\<open>image_io.rs\<close>: the checks on a target and on what it sends, redirects, the size limit,
    PNG to JPEG.
  \<^item> \<open>Request_Scan\<close>, \<open>Request_Materialize\<close>, \<open>Request_Encode\<close> and \<open>Request_Rewrite\<close> are the files of the
    same names: finding the image references (equal to a specification by pointers), fetching and
    storing each URL once, and writing the body in chunks through a pipe. The encoder writes exactly the
    serialized request with the images' base64 in place; together the three refine that specification.
  \<^item> \<open>Lru\<close> is the interface of the crate \<^verbatim>\<open>lru\<close>. \<open>Memory_Cache\<close>, \<open>Disk_Cache\<close> and \<open>Fetch_Service\<close> are
    \<^verbatim>\<open>cache.rs\<close>: the cache with a byte budget, the directory with a description and a body per image, and the
    service that shares running fetches. \<open>Fetch_Waiters\<close> is its concurrent side, the counting of
    waiters and the abort of abandoned tasks, as the relation \<open>wstep\<close> between callers at single steps.
  \<^item> \<open>Block_Cache\<close> is \<^verbatim>\<open>upstream_block_cache.rs\<close>: the canonical form of a body, the key, expiry.
  \<^item> \<open>Response_Rewrite\<close>, \<open>Response_Materialize\<close> and \<open>Upload\<close> (with \<open>Base64_Reader\<close>) are the files of the same
    names: the largest image of a candidate, markdown images, task answers; collecting and uploading the
    images of an answer; the two kinds of image host, signatures, the reader that decodes while uploading.
  \<^item> \<open>Grsai\<close> is \<^verbatim>\<open>grsai.rs\<close> and \<open>Openai_Image\<close> is \<^verbatim>\<open>openai_image.rs\<close>: request forms, event streams, errors.
  \<^item> \<open>Log_Sanitize\<close> and \<open>Admin_Log\<close> are \<^verbatim>\<open>admin.rs\<close>: redaction and truncation of logged bodies, the ring of
    the last hundred requests, the counters, the password check, the JSON of both pages.
  \<^item> \<^verbatim>\<open>http/router.rs\<close> is in \<open>Proxy_Errors\<close> (the proxy's own error answers), \<open>Block_Answers\<close> (refusals),
    \<open>Router_Values\<close> (helpers that only compute), \<open>Router_Env\<close> (the state \<open>app\<close> of the running proxy,
    \<open>build_router\<close> and the environment \<open>router_env\<close>), \<open>Aiapidev\<close> (tasks and polling), \<open>Router_Answers\<close>
    (the upstream's answer), \<open>Router_Forward\<close> (the ways to forward) and \<open>Router\<close> (the handlers).
  \<^item> What the handlers promise as a whole is in \<open>Router_Safety\<close> (admin pages are guarded, every answered request
    is logged and counted once), \<open>Router_Blobs\<close> (what the upstream is sent, and that its blobs are removed
    afterwards), \<open>Router_Refusal\<close> (a refused request is not sent again), \<open>Router_Openai\<close> (what an image
    answer lists) and \<open>Router_Liveness\<close> (every request is answered).
  \<^item> The proxy as a running server is in four theories: \<open>Server_Caches\<close> (what each operation keeps of a fetch
    service and of the cache of refusals), \<open>Server_Images\<close> (what fetching and encoding keep of the blob
    store, whatever fails), \<open>Server_Requests\<close> (the same for every way to forward a request and for both
    handlers) and \<open>Server_Run\<close>: from the state \<open>build_router\<close> leaves, after any sequence of answered
    requests and ended fetches, memory, tasks, caches and log are within their configured limits.
  \<^item> \<open>Shortcomings\<close> states, as lemmas, where the code of \<^verbatim>\<open>http/router.rs\<close>, \<^verbatim>\<open>upload.rs\<close> and \<^verbatim>\<open>cache.rs\<close> does not do
    what it means to, and names the lemmas of other theories that do so.
  \<^item> \<open>Process\<close> is \<^verbatim>\<open>main.rs\<close>: configuration, address, serving, and when the process stops.

  \<^bold>\<open>Conventions.\<close> A string is the list of its UTF-8 bytes, one \<open>char\<close> each. A \<^verbatim>\<open>u64\<close> or \<^verbatim>\<open>i64\<close> counter is a
  \<open>64 word\<close>, with the checked, saturating or wrapping operation the source has; lengths of
  byte buffers are naturals, and theorems that add them up say so where they must fit in 64 bits. Durations are milliseconds.
  A fallible function returns \<open>Ok\<close> or \<open>Err\<close> (abbreviations for \<open>Inr\<close> and \<open>Inl\<close>); a result that may never
  come is an option, with \<open>None\<close> for an await that does not return. State is passed through explicitly, one request at a
  time; where other requests may act during an await (the fetch service) the environment has a function
  for what they do meanwhile (\<open>mv_interfere\<close>, \<open>rp_interfere\<close>).

  \<^bold>\<open>Parameters.\<close> Crates are not under \<^verbatim>\<open>src/\<close>; what the code uses of them is a record of functions
  (\<open>serde\<close>, the URL parser, \<open>lru_api\<close>, the HTTP client as the answers it gives, image codecs, SHA-256,
  HMAC, hex, time formats), with the documented laws a theorem needs as its hypothesis (the predicate
  \<open>base64_laws\<close>, the locale \<open>lru_cache\<close>). The laws of \<open>lru_cache\<close> are discharged for lists in order of use, and witnesses evaluate on such instances. The file system is a map
  from paths to contents with faults at arbitrary operations.

  \<^bold>\<open>Bounds.\<close> A scan stops with an error beyond \<open>MAX_INLINE_DATA_URLS\<close> images. Blob identifiers wrap at
  \<open>2 ^ 64\<close>; \<open>ids_left n\<close> says that \<open>n\<close> are still unused, and a Gemini request needs one per image and one for
  its body. Polling is the only loop whose end depends on the clock: with polls paced by the source's
  intervals it stops after at most 451 polls of a Gemini task and 46 of an image task, and is a partial
  function, so that its return is a theorem. Logged bodies are cut at 64 KiB, the log keeps 100 entries.

  \<^bold>\<open>Not modelled.\<close>
  \<^item> Of \<^verbatim>\<open>main.rs\<close> the start of the trace subscriber; \<^verbatim>\<open>allocator.rs\<close>, which selects the global allocator;
    \<^verbatim>\<open>lib.rs\<close> and \<^verbatim>\<open>http/mod.rs\<close>, which only list modules.
  \<^item> \<^verbatim>\<open>build_http_client\<close> and \<^verbatim>\<open>build_upstream_client\<close> pass configuration values to a builder of \<^verbatim>\<open>reqwest\<close>.
  \<^item> \<^verbatim>\<open>ADMIN_LOGS_HTML\<close> is a constant page for the browser; the model takes it as a parameter.
  \<^item> Trace output, among it \<^verbatim>\<open>log_slow_request\<close>, of which the line is modelled but not its writing, and
    the measured durations that go only there. The tests at the end of the source files.
\<close>

end
